(* ===== verification/Idol_Prelude.thy ===== *)
theory Idol_Prelude
  imports Main "HOL-Library.Word"
begin

text \<open>
  Shared vocabulary of the development: machine types, the faults a C statement can run into,
  commands on a program state with their sequencing and their proof rules, and the parts of the
  C standard library the programs use (\<^verbatim>\<open>atoi\<close>, \<^verbatim>\<open>sprintf\<close> with \<^verbatim>\<open>%d\<close>, \<^verbatim>\<open>strncpy\<close>, C strings in
  buffers of a fixed size).

  A command is a function from the state to either the next state (\<open>Inr\<close>) or a fault together
  with the state it happened in (\<open>Inl\<close>). Undefined behaviour of the source is always such a fault,
  never a value made up for it.
\<close>

named_theorems triple_rules \<open>introduction rules that decompose a command in a triple\<close>
named_theorems tx_simps \<open>what a command that only transmits does to the state\<close>

type_synonym byte = "8 word"
type_synonym u16 = "16 word"

lemma uint_of_nat_byte: "k < 256 \<Longrightarrow> uint (of_nat k :: byte) = int k"
  by (simp add: unsigned_of_nat take_bit_eq_mod)

lemma unat_of_nat_byte: "k < 256 \<Longrightarrow> unat (of_nat k :: byte) = k"
  by (simp add: unsigned_of_nat take_bit_eq_mod)

section \<open>Faults and commands\<close>

datatype c_error =
    OutOfBounds       \<comment> \<open>an array access outside the array\<close>
  | BufferOverflow    \<comment> \<open>a string longer than its buffer\<close>
  | OverRead          \<comment> \<open>a string read past the end of its memory\<close>
  | NullDeref         \<comment> \<open>a null pointer where the code needs an object\<close>
  | UninitRead        \<comment> \<open>an uninitialised variable is read\<close>
  | WildPointer       \<comment> \<open>a pointer that was never set is used\<close>

type_synonym 's cmd = "'s \<Rightarrow> (c_error \<times> 's) + 's"

definition skip :: "'s cmd" where
  "skip = Inr"

definition fault :: "c_error \<Rightarrow> 's cmd" where
  "fault e s = Inl (e, s)"

definition modify :: "('s \<Rightarrow> 's) \<Rightarrow> 's cmd" where
  "modify f s = Inr (f s)"

definition reading :: "('s \<Rightarrow> 's cmd) \<Rightarrow> 's cmd" where
  "reading f s = f s s"

fun block :: "'s cmd list \<Rightarrow> 's cmd" where
  "block [] s = Inr s"
| "block (c # cs) s = (case c s of Inl f \<Rightarrow> Inl f | Inr t \<Rightarrow> block cs t)"

lemma skip_apply [simp]: "skip s = Inr s"
  by (simp add: skip_def)

lemma fault_apply [simp]: "fault e s = Inl (e, s)"
  by (simp add: fault_def)

lemma modify_apply [simp]: "modify f s = Inr (f s)"
  by (simp add: modify_def)

lemma reading_apply [simp]: "reading f s = f s s"
  by (simp add: reading_def)

lemma if_cmd_apply [simp]: "(if b then c else d) s = (if b then c s else d s)"
  by simp

lemma block_single [simp]: "block [c] s = c s"
  by (simp split: sum.split)

lemma case_block_Nil [simp]: "(case r of Inl f \<Rightarrow> Inl f | Inr t \<Rightarrow> block [] t) = r"
  by (cases r) simp_all

lemma block_append: "block (cs @ ds) s = (case block cs s of Inl f \<Rightarrow> Inl f | Inr t \<Rightarrow> block ds t)"
  by (induction cs arbitrary: s) (auto split: sum.splits)

section \<open>Triples\<close>

text \<open>
  \<open>triple P c Q E\<close>: from a state with \<open>P\<close>, the command \<open>c\<close> ends in a state with \<open>Q\<close>, or it faults
  with an error and a state allowed by \<open>E\<close>. With \<open>E = no_fault\<close> this is total correctness, with
  \<open>E = any_fault\<close> it says what a run that does not fault gives.
\<close>

definition triple :: "('s \<Rightarrow> bool) \<Rightarrow> 's cmd \<Rightarrow> ('s \<Rightarrow> bool) \<Rightarrow> (c_error \<Rightarrow> 's \<Rightarrow> bool) \<Rightarrow> bool" where
  "triple P c Q E \<longleftrightarrow>
     (\<forall>s. P s \<longrightarrow> (case c s of Inl (e, t) \<Rightarrow> E e t | Inr t \<Rightarrow> Q t))"

definition no_fault :: "c_error \<Rightarrow> 's \<Rightarrow> bool" where
  "no_fault e s \<longleftrightarrow> False"

definition any_fault :: "c_error \<Rightarrow> 's \<Rightarrow> bool" where
  "any_fault e s \<longleftrightarrow> True"

lemma no_fault_iff [simp]: "no_fault e s \<longleftrightarrow> False"
  by (simp add: no_fault_def)

lemma any_fault_iff [simp]: "any_fault e s \<longleftrightarrow> True"
  by (simp add: any_fault_def)

lemma tripleI:
  assumes "\<And>s t. P s \<Longrightarrow> c s = Inr t \<Longrightarrow> Q t" and "\<And>s e t. P s \<Longrightarrow> c s = Inl (e, t) \<Longrightarrow> E e t"
  shows "triple P c Q E"
  using assms by (auto simp: triple_def split: sum.splits)

lemma triple_Inr: "triple P c Q E \<Longrightarrow> P s \<Longrightarrow> c s = Inr t \<Longrightarrow> Q t"
  by (fastforce simp: triple_def)

lemma triple_Inl: "triple P c Q E \<Longrightarrow> P s \<Longrightarrow> c s = Inl (e, t) \<Longrightarrow> E e t"
  by (fastforce simp: triple_def)

lemma triple_total: "triple P c Q no_fault \<Longrightarrow> P s \<Longrightarrow> \<exists>t. c s = Inr t \<and> Q t"
  by (cases "c s") (fastforce simp: triple_def)+

lemma triple_any_fault: "triple P c Q E \<Longrightarrow> triple P c Q any_fault"
  by (auto simp: triple_def split: sum.splits)

lemma triple_of_no_fault: "triple P c Q no_fault \<Longrightarrow> triple P c Q E"
  by (fastforce simp: triple_def split: sum.splits)

lemma triple_conseq:
  "triple P' c Q' E \<Longrightarrow> (\<And>s. P s \<Longrightarrow> P' s) \<Longrightarrow> (\<And>s. Q' s \<Longrightarrow> Q s) \<Longrightarrow> triple P c Q E"
  by (fastforce simp: triple_def split: sum.splits)

lemma triple_skip [triple_rules]: "triple P skip P E"
  by (simp add: triple_def)

lemma triple_fault_any [triple_rules]: "triple P (fault e) Q any_fault"
  by (simp add: triple_def)

lemma triple_modify: "(\<And>s. P s \<Longrightarrow> Q (f s)) \<Longrightarrow> triple P (modify f) Q E"
  by (simp add: triple_def)

lemma triple_reading [triple_rules]:
  "(\<And>r. triple (\<lambda>s. P s \<and> s = r) (f r) Q E) \<Longrightarrow> triple P (reading f) Q E"
  by (simp add: triple_def)

lemma triple_if [triple_rules]:
  "(b \<Longrightarrow> triple P c Q E) \<Longrightarrow> (\<not> b \<Longrightarrow> triple P d Q E) \<Longrightarrow> triple P (if b then c else d) Q E"
  by simp

lemma triple_block_Nil [triple_rules]: "triple P (block []) P E"
  by (simp add: triple_def)

lemma triple_block_Cons:
  assumes c: "triple P c R E" and cs: "triple R (block cs) Q E"
  shows "triple P (block (c # cs)) Q E"
  unfolding triple_def
proof (intro allI impI)
  fix s
  assume P: "P s"
  show "case block (c # cs) s of Inl (e, t) \<Rightarrow> E e t | Inr t \<Rightarrow> Q t"
  proof (cases "c s")
    case (Inl f)
    with c P show ?thesis by (cases f) (auto dest: triple_Inl)
  next
    case (Inr t)
    with c P have "R t" by (auto dest: triple_Inr)
    with cs Inr show ?thesis by (simp add: triple_def)
  qed
qed

text \<open>Every command of a block keeps the invariant, so the block does.\<close>

lemma triple_block_inv [triple_rules]:
  "list_all (\<lambda>c. triple I c I E) cs \<Longrightarrow> triple I (block cs) I E"
  by (induction cs) (auto intro: triple_block_Nil triple_block_Cons)

lemma list_all_ConsI: "P x \<Longrightarrow> list_all P xs \<Longrightarrow> list_all P (x # xs)"
  by simp

lemma list_all_NilI: "list_all P []"
  by simp

lemma triple_reading_inv: "(\<And>r. I r \<Longrightarrow> triple I (f r) I E) \<Longrightarrow> triple I (reading f) I E"
  by (simp add: triple_def)

lemmas inv_rules =
  triple_skip triple_if triple_reading_inv triple_block_inv list_all_ConsI list_all_NilI

section \<open>C strings\<close>

text \<open>
  Text is a \<open>string\<close>, one \<open>char\<close> per byte; \<^verbatim>\<open>'\\0'\<close> is the zero character. A C string held in memory \<open>m\<close>
  is what stands before the first zero; a memory without a zero is read past its end.
\<close>

abbreviation NUL :: char where
  "NUL \<equiv> CHR 0x00"

definition cstr :: "string \<Rightarrow> string" where
  "cstr m = takeWhile (\<lambda>c. c \<noteq> NUL) m"

definition cstr_ends :: "string \<Rightarrow> bool" where
  "cstr_ends m \<longleftrightarrow> NUL \<in> set m"

text \<open>
  \<^verbatim>\<open>strncpy (dst, src, n)\<close>: at most \<open>n\<close> characters up to the first zero, padded with zeros to
  \<open>n\<close>. When the source string has \<open>n\<close> characters or more, the copy has no terminating zero.
\<close>

definition strncpy :: "nat \<Rightarrow> string \<Rightarrow> string" where
  "strncpy n src = (let u = take n (cstr src) in u @ replicate (n - length u) NUL)"

definition strncpy_reads_ok :: "nat \<Rightarrow> string \<Rightarrow> bool" where
  "strncpy_reads_ok n src \<longleftrightarrow> n \<le> length src \<or> cstr_ends src"

lemma length_strncpy [simp]: "length (strncpy n src) = n"
  by (simp add: strncpy_def Let_def)

lemma cstr_append: "cstr_ends m \<Longrightarrow> cstr (m @ r) = cstr m"
  by (auto simp: cstr_def cstr_ends_def takeWhile_append)

lemma cstr_no_zero: "NUL \<notin> set m \<Longrightarrow> cstr m = m"
  by (auto simp: cstr_def takeWhile_eq_all_conv)

lemma cstr_text_zero: "NUL \<notin> set m \<Longrightarrow> cstr (m @ NUL # r) = m"
  by (auto simp: cstr_def takeWhile_append takeWhile_eq_all_conv)

lemma strncpy_exact: "NUL \<notin> set m \<Longrightarrow> n = length m \<Longrightarrow> strncpy n (m @ r) = m"
proof -
  assume z: "NUL \<notin> set m" and n: "n = length m"
  have "take n (cstr (m @ r)) = m"
    using z n by (auto simp: cstr_def takeWhile_append)
  then show ?thesis using n by (simp add: strncpy_def)
qed

section \<open>Decimal numbers: \<^verbatim>\<open>%d\<close> and \<^verbatim>\<open>atoi\<close>\<close>

definition digit_char :: "nat \<Rightarrow> char" where
  "digit_char d = char_of (48 + d)"

fun dec_nat :: "nat \<Rightarrow> string" where
  "dec_nat n = (if n < 10 then [digit_char n] else dec_nat (n div 10) @ [digit_char (n mod 10)])"

declare dec_nat.simps [simp del]

definition dec :: "int \<Rightarrow> string" where
  "dec i = (if i < 0 then CHR ''-'' # dec_nat (nat (- i)) else dec_nat (nat i))"

lemma length_dec_nat: "0 < k \<Longrightarrow> n < 10 ^ k \<Longrightarrow> length (dec_nat n) \<le> k"
proof (induction n arbitrary: k rule: dec_nat.induct)
  case (1 n)
  show ?case
  proof (cases "n < 10")
    case True
    with "1.prems" show ?thesis by (subst dec_nat.simps) simp
  next
    case False
    with "1.prems" obtain j where k: "k = Suc j" and j: "0 < j"
      by (cases k; cases "k - 1") auto
    from "1.prems" k have "n div 10 < 10 ^ j" by auto
    with "1.IH" False j have "length (dec_nat (n div 10)) \<le> j" by blast
    with False k show ?thesis by (subst dec_nat.simps) simp
  qed
qed

lemma length_dec_int32:
  assumes "- (2 ^ 31) \<le> i" and "i < 2 ^ 31"
  shows "length (dec i) \<le> 11"
proof -
  have "length (dec_nat (nat \<bar>i\<bar>)) \<le> 10"
    using assms by (intro length_dec_nat) auto
  then show ?thesis by (auto simp: dec_def)
qed

text \<open>
  \<^verbatim>\<open>atoi\<close>: white space, an optional sign, digits up to the first other character. On the 32-bit
  target \<^verbatim>\<open>strtol\<close>, which \<^verbatim>\<open>atoi\<close> calls, saturates at the bounds of \<^verbatim>\<open>int\<close>.
\<close>

definition is_digit :: "char \<Rightarrow> bool" where
  "is_digit c \<longleftrightarrow> 48 \<le> (of_char c :: nat) \<and> (of_char c :: nat) \<le> 57"

definition is_space :: "char \<Rightarrow> bool" where
  "is_space c \<longleftrightarrow> c = CHR '' '' \<or> (9 \<le> (of_char c :: nat) \<and> (of_char c :: nat) \<le> 13)"

definition digits_value :: "string \<Rightarrow> int" where
  "digits_value ds = foldl (\<lambda>a c. 10 * a + (int (of_char c) - 48)) 0 ds"

definition clamp32 :: "int \<Rightarrow> int" where
  "clamp32 i = max (- (2 ^ 31)) (min (2 ^ 31 - 1) i)"

definition atoi :: "string \<Rightarrow> int" where
  "atoi s =
     (case dropWhile is_space s of
        [] \<Rightarrow> 0
      | c # cs \<Rightarrow>
          if c = CHR ''-'' then clamp32 (- digits_value (takeWhile is_digit cs))
          else if c = CHR ''+'' then clamp32 (digits_value (takeWhile is_digit cs))
          else clamp32 (digits_value (takeWhile is_digit (c # cs))))"

lemma clamp32_range: "- 2147483648 \<le> clamp32 i" "clamp32 i < 2147483648"
  by (auto simp: clamp32_def)

lemma clamp32_id: "- (2 ^ 31) \<le> i \<Longrightarrow> i < 2 ^ 31 \<Longrightarrow> clamp32 i = i"
  by (auto simp: clamp32_def)

lemma atoi_int32: "- (2 ^ 31) \<le> atoi s \<and> atoi s < 2 ^ 31"
  using clamp32_range by (simp add: atoi_def split: list.split)

lemma is_digit_digit_char [simp]: "d < 10 \<Longrightarrow> is_digit (digit_char d)"
  by (simp add: is_digit_def digit_char_def)

lemma of_char_digit_char [simp]: "d < 10 \<Longrightarrow> (of_char (digit_char d) :: nat) = 48 + d"
  by (simp add: digit_char_def)

lemma dec_nat_digits: "list_all is_digit (dec_nat n)"
proof (induction n rule: dec_nat.induct)
  case (1 n)
  then show ?case by (subst dec_nat.simps) auto
qed

lemma digits_value_dec_nat: "digits_value (dec_nat n) = int n"
proof (induction n rule: dec_nat.induct)
  case (1 n)
  have "10 * int (n div 10) + int (n mod 10) = int n"
    by (metis mult_div_mod_eq of_nat_add of_nat_mult of_nat_numeral)
  with "1" show ?case
    by (subst dec_nat.simps) (auto simp: digits_value_def)
qed

lemma dec_nat_not_Nil: "dec_nat n \<noteq> []"
  by (subst dec_nat.simps) simp

lemma digit_not_sign_or_space: "is_digit c \<Longrightarrow> \<not> is_space c \<and> c \<noteq> CHR ''-'' \<and> c \<noteq> CHR ''+''"
  by (auto simp: is_digit_def is_space_def)

text \<open>Reading back what \<^verbatim>\<open>%d\<close> printed gives the number.\<close>

lemma atoi_dec:
  assumes "- (2 ^ 31) \<le> i" and "i < 2 ^ 31"
  shows "atoi (dec i) = i"
proof -
  let ?d = "dec_nat (nat \<bar>i\<bar>)"
  have v: "digits_value ?d = \<bar>i\<bar>" by (simp add: digits_value_dec_nat)
  have t: "takeWhile is_digit ?d = ?d"
    using dec_nat_digits [of "nat \<bar>i\<bar>"] by (auto simp: list_all_iff)
  obtain c cs where d: "?d = c # cs" by (cases ?d) (auto simp: dec_nat_not_Nil)
  with dec_nat_digits [of "nat \<bar>i\<bar>"] have c: "\<not> is_space c" "c \<noteq> CHR ''-''" "c \<noteq> CHR ''+''"
    by (auto dest: digit_not_sign_or_space)
  have minus: "\<not> is_space CHR ''-''" by (simp add: is_space_def)
  show ?thesis
  proof (cases "i < 0")
    case True
    then have n: "nat (- i) = nat \<bar>i\<bar>" by simp
    from True minus have "atoi (dec i) = clamp32 (- digits_value (takeWhile is_digit ?d))"
      by (simp only: dec_def n if_True atoi_def dropWhile.simps list.case minus if_False simp_thms)
    also have "\<dots> = clamp32 i" using True by (simp only: t v) simp
    finally show ?thesis using assms by (simp only: clamp32_id)
  next
    case False
    then have n: "dec i = ?d" by (simp add: dec_def)
    have "atoi (dec i) = clamp32 (digits_value (takeWhile is_digit ?d))"
      unfolding n unfolding d using c by (simp add: atoi_def)
    also have "\<dots> = clamp32 i" using False by (simp only: t v)
    finally show ?thesis using assms by (simp only: clamp32_id)
  qed
qed

section \<open>Events\<close>

text \<open>What the programs do to the outside world.\<close>

datatype event =
    TxByte byte       \<comment> \<open>\<^verbatim>\<open>serialPutchar (usart_fd, b)\<close>\<close>
  | Post string       \<comment> \<open>\<^verbatim>\<open>curl_easy_perform\<close> with these \<^verbatim>\<open>CURLOPT_POSTFIELDS\<close>\<close>
  | USleep nat        \<comment> \<open>\<^verbatim>\<open>usleep\<close>, or \<^verbatim>\<open>sleep\<close> in microseconds\<close>
  | Reply string      \<comment> \<open>\<^verbatim>\<open>MHD_queue_response\<close> with status 200 and this page\<close>
  | PinOutput nat     \<comment> \<open>\<^verbatim>\<open>pinMode (pin, OUTPUT)\<close>\<close>
  | PinWrite nat bool \<comment> \<open>\<^verbatim>\<open>digitalWrite (pin, level)\<close>\<close>

end
