(* ===== verification/Zb_Text.thy ===== *)
theory Zb_Text
  imports Idol_Prelude
begin

text \<open>
  The texts of \<^verbatim>\<open>zbclient.c\<close> that are not ASCII, byte by byte as the UTF-8 source file has them
  (gcc copies the bytes of a string literal): the words of the chat commands (\<^verbatim>\<open>w_\<close>), the names
  of the devices (\<^verbatim>\<open>n_\<close>) and the parts of the notification texts (\<^verbatim>\<open>t_\<close>, and \<^verbatim>\<open>u_\<close> for the units of
  a time stamp). The names are the pinyin of the text.
\<close>

definition w_kai_keting :: string where
  "w_kai_keting =
   [CHR 0xE5, CHR 0xBC, CHR 0x80, CHR 0xE5, CHR 0xAE, CHR 0xA2, CHR 0xE5, CHR 0x8E, CHR 0x85]"

definition w_guan_keting :: string where
  "w_guan_keting =
   [CHR 0xE5, CHR 0x85, CHR 0xB3, CHR 0xE5, CHR 0xAE, CHR 0xA2, CHR 0xE5, CHR 0x8E, CHR 0x85]"

definition w_kai_canting :: string where
  "w_kai_canting =
   [CHR 0xE5, CHR 0xBC, CHR 0x80, CHR 0xE9, CHR 0xA4, CHR 0x90, CHR 0xE5, CHR 0x8E, CHR 0x85]"

definition w_guan_canting :: string where
  "w_guan_canting =
   [CHR 0xE5, CHR 0x85, CHR 0xB3, CHR 0xE9, CHR 0xA4, CHR 0x90, CHR 0xE5, CHR 0x8E, CHR 0x85]"

definition w_kai_chufang :: string where
  "w_kai_chufang =
   [CHR 0xE5, CHR 0xBC, CHR 0x80, CHR 0xE5, CHR 0x8E, CHR 0xA8, CHR 0xE6, CHR 0x88, CHR 0xBF]"

definition w_guan_chufang :: string where
  "w_guan_chufang =
   [CHR 0xE5, CHR 0x85, CHR 0xB3, CHR 0xE5, CHR 0x8E, CHR 0xA8, CHR 0xE6, CHR 0x88, CHR 0xBF]"

definition w_kai_menting :: string where
  "w_kai_menting =
   [CHR 0xE5, CHR 0xBC, CHR 0x80, CHR 0xE9, CHR 0x97, CHR 0xA8, CHR 0xE5, CHR 0x8E, CHR 0x85]"

definition w_guan_menting :: string where
  "w_guan_menting =
   [CHR 0xE5, CHR 0x85, CHR 0xB3, CHR 0xE9, CHR 0x97, CHR 0xA8, CHR 0xE5, CHR 0x8E, CHR 0x85]"

definition w_kai_zhuwo :: string where
  "w_kai_zhuwo =
   [CHR 0xE5, CHR 0xBC, CHR 0x80, CHR 0xE4, CHR 0xB8, CHR 0xBB, CHR 0xE5, CHR 0x8D, CHR 0xA7]"

definition w_guan_zhuwo :: string where
  "w_guan_zhuwo =
   [CHR 0xE5, CHR 0x85, CHR 0xB3, CHR 0xE4, CHR 0xB8, CHR 0xBB, CHR 0xE5, CHR 0x8D, CHR 0xA7]"

definition w_kai_ciwo :: string where
  "w_kai_ciwo =
   [CHR 0xE5, CHR 0xBC, CHR 0x80, CHR 0xE6, CHR 0xAC, CHR 0xA1, CHR 0xE5, CHR 0x8D, CHR 0xA7]"

definition w_guan_ciwo :: string where
  "w_guan_ciwo =
   [CHR 0xE5, CHR 0x85, CHR 0xB3, CHR 0xE6, CHR 0xAC, CHR 0xA1, CHR 0xE5, CHR 0x8D, CHR 0xA7]"

definition w_kai_guodao :: string where
  "w_kai_guodao =
   [CHR 0xE5, CHR 0xBC, CHR 0x80, CHR 0xE8, CHR 0xBF, CHR 0x87, CHR 0xE9, CHR 0x81, CHR 0x93]"

definition w_guan_guodao :: string where
  "w_guan_guodao =
   [CHR 0xE5, CHR 0x85, CHR 0xB3, CHR 0xE8, CHR 0xBF, CHR 0x87, CHR 0xE9, CHR 0x81, CHR 0x93]"

definition w_kai_cesuo :: string where
  "w_kai_cesuo =
   [CHR 0xE5, CHR 0xBC, CHR 0x80, CHR 0xE5, CHR 0x8E, CHR 0x95, CHR 0xE6, CHR 0x89, CHR 0x80]"

definition w_guan_cesuo :: string where
  "w_guan_cesuo =
   [CHR 0xE5, CHR 0x85, CHR 0xB3, CHR 0xE5, CHR 0x8E, CHR 0x95, CHR 0xE6, CHR 0x89, CHR 0x80]"

definition w_kai_chazuo :: string where
  "w_kai_chazuo =
   [CHR 0xE5, CHR 0xBC, CHR 0x80, CHR 0xE6, CHR 0xAC, CHR 0xA1, CHR 0xE5, CHR 0x8D, CHR 0xA7,
    CHR 0xE6, CHR 0x8F, CHR 0x92, CHR 0xE5, CHR 0xBA, CHR 0xA7]"

definition w_guan_chazuo :: string where
  "w_guan_chazuo =
   [CHR 0xE5, CHR 0x85, CHR 0xB3, CHR 0xE6, CHR 0xAC, CHR 0xA1, CHR 0xE5, CHR 0x8D, CHR 0xA7,
    CHR 0xE6, CHR 0x8F, CHR 0x92, CHR 0xE5, CHR 0xBA, CHR 0xA7]"

definition w_guan_zhuwo_chuanglian :: string where
  "w_guan_zhuwo_chuanglian =
   [CHR 0xE5, CHR 0x85, CHR 0xB3, CHR 0xE4, CHR 0xB8, CHR 0xBB, CHR 0xE5, CHR 0x8D, CHR 0xA7,
    CHR 0xE7, CHR 0xAA, CHR 0x97, CHR 0xE5, CHR 0xB8, CHR 0x98]"

definition w_kai_zhuwo_chuanglian :: string where
  "w_kai_zhuwo_chuanglian =
   [CHR 0xE5, CHR 0xBC, CHR 0x80, CHR 0xE4, CHR 0xB8, CHR 0xBB, CHR 0xE5, CHR 0x8D, CHR 0xA7,
    CHR 0xE7, CHR 0xAA, CHR 0x97, CHR 0xE5, CHR 0xB8, CHR 0x98]"

definition w_guan_keting_shalian :: string where
  "w_guan_keting_shalian =
   [CHR 0xE5, CHR 0x85, CHR 0xB3, CHR 0xE5, CHR 0xAE, CHR 0xA2, CHR 0xE5, CHR 0x8E, CHR 0x85,
    CHR 0xE7, CHR 0xBA, CHR 0xB1, CHR 0xE5, CHR 0xB8, CHR 0x98]"

definition w_kai_keting_shalian :: string where
  "w_kai_keting_shalian =
   [CHR 0xE5, CHR 0xBC, CHR 0x80, CHR 0xE5, CHR 0xAE, CHR 0xA2, CHR 0xE5, CHR 0x8E, CHR 0x85,
    CHR 0xE7, CHR 0xBA, CHR 0xB1, CHR 0xE5, CHR 0xB8, CHR 0x98]"

definition w_guan_keting_bulian :: string where
  "w_guan_keting_bulian =
   [CHR 0xE5, CHR 0x85, CHR 0xB3, CHR 0xE5, CHR 0xAE, CHR 0xA2, CHR 0xE5, CHR 0x8E, CHR 0x85,
    CHR 0xE5, CHR 0xB8, CHR 0x83, CHR 0xE5, CHR 0xB8, CHR 0x98]"

definition w_kai_keting_bulian :: string where
  "w_kai_keting_bulian =
   [CHR 0xE5, CHR 0xBC, CHR 0x80, CHR 0xE5, CHR 0xAE, CHR 0xA2, CHR 0xE5, CHR 0x8E, CHR 0x85,
    CHR 0xE5, CHR 0xB8, CHR 0x83, CHR 0xE5, CHR 0xB8, CHR 0x98]"

definition n_keting :: string where
  "n_keting =
   [CHR 0xE5, CHR 0xAE, CHR 0xA2, CHR 0xE5, CHR 0x8E, CHR 0x85, CHR 0xE7, CHR 0x81, CHR 0xAF,
    CHR 0xE5, CHR 0xBC, CHR 0x80, CHR 0xE5, CHR 0x85, CHR 0xB3]"

definition n_canting :: string where
  "n_canting =
   [CHR 0xE9, CHR 0xA4, CHR 0x90, CHR 0xE5, CHR 0x8E, CHR 0x85, CHR 0xE7, CHR 0x81, CHR 0xAF,
    CHR 0xE5, CHR 0xBC, CHR 0x80, CHR 0xE5, CHR 0x85, CHR 0xB3]"

definition n_chufang :: string where
  "n_chufang =
   [CHR 0xE5, CHR 0x8E, CHR 0xA8, CHR 0xE6, CHR 0x88, CHR 0xBF, CHR 0xE7, CHR 0x81, CHR 0xAF,
    CHR 0xE5, CHR 0xBC, CHR 0x80, CHR 0xE5, CHR 0x85, CHR 0xB3]"

definition n_menting :: string where
  "n_menting =
   [CHR 0xE9, CHR 0x97, CHR 0xA8, CHR 0xE5, CHR 0x8E, CHR 0x85, CHR 0xE7, CHR 0x81, CHR 0xAF,
    CHR 0xE5, CHR 0xBC, CHR 0x80, CHR 0xE5, CHR 0x85, CHR 0xB3]"

definition n_guodao :: string where
  "n_guodao =
   [CHR 0xE8, CHR 0xBF, CHR 0x87, CHR 0xE9, CHR 0x81, CHR 0x93, CHR 0xE7, CHR 0x81, CHR 0xAF,
    CHR 0xE5, CHR 0xBC, CHR 0x80, CHR 0xE5, CHR 0x85, CHR 0xB3]"

definition n_zhuwo :: string where
  "n_zhuwo =
   [CHR 0xE4, CHR 0xB8, CHR 0xBB, CHR 0xE5, CHR 0x8D, CHR 0xA7, CHR 0xE7, CHR 0x81, CHR 0xAF,
    CHR 0xE5, CHR 0xBC, CHR 0x80, CHR 0xE5, CHR 0x85, CHR 0xB3]"

definition n_ciwo :: string where
  "n_ciwo =
   [CHR 0xE6, CHR 0xAC, CHR 0xA1, CHR 0xE5, CHR 0x8D, CHR 0xA7, CHR 0xE7, CHR 0x81, CHR 0xAF,
    CHR 0xE5, CHR 0xBC, CHR 0x80, CHR 0xE5, CHR 0x85, CHR 0xB3]"

definition n_xmkg_zhu :: string where
  "n_xmkg_zhu =
   [CHR 0xE4, CHR 0xB8, CHR 0xBB, CHR 0xE5, CHR 0x8D, CHR 0xA7, CHR 0xE5, CHR 0xB0, CHR 0x8F,
    CHR 0xE7, CHR 0xB1, CHR 0xB3, CHR 0xE6, CHR 0x8C, CHR 0x89, CHR 0xE9, CHR 0x92, CHR 0xAE]"

definition n_xmkg_ci :: string where
  "n_xmkg_ci =
   [CHR 0xE6, CHR 0xAC, CHR 0xA1, CHR 0xE5, CHR 0x8D, CHR 0xA7, CHR 0xE5, CHR 0xB0, CHR 0x8F,
    CHR 0xE7, CHR 0xB1, CHR 0xB3, CHR 0xE6, CHR 0x8C, CHR 0x89, CHR 0xE9, CHR 0x92, CHR 0xAE]"

definition n_xmmenci :: string where
  "n_xmmenci =
   [CHR 0xE5, CHR 0x85, CHR 0xA5, CHR 0xE6, CHR 0x88, CHR 0xB7, CHR 0xE5, CHR 0xB0, CHR 0x8F,
    CHR 0xE7, CHR 0xB1, CHR 0xB3, CHR 0xE9, CHR 0x97, CHR 0xA8, CHR 0xE7, CHR 0xA3, CHR 0x81]"

definition n_xiaomirenti :: string where
  "n_xiaomirenti =
   [CHR 0xE5, CHR 0x8E, CHR 0xA8, CHR 0xE6, CHR 0x88, CHR 0xBF, CHR 0xE5, CHR 0xB0, CHR 0x8F,
    CHR 0xE7, CHR 0xB1, CHR 0xB3, CHR 0xE4, CHR 0xBA, CHR 0xBA, CHR 0xE4, CHR 0xBD, CHR 0x93,
    CHR 0xE6, CHR 0x84, CHR 0x9F, CHR 0xE5, CHR 0xBA, CHR 0x94]"

definition n_xmkg_wai :: string where
  "n_xmkg_wai =
   [CHR 0xE5, CHR 0xAE, CHR 0xA2, CHR 0xE5, CHR 0x8E, CHR 0x85, CHR 0xE5, CHR 0xB0, CHR 0x8F,
    CHR 0xE7, CHR 0xB1, CHR 0xB3, CHR 0xE6, CHR 0x8C, CHR 0x89, CHR 0xE9, CHR 0x92, CHR 0xAE]"

definition n_loushui_ciwo :: string where
  "n_loushui_ciwo =
   [CHR 0xE6, CHR 0xAC, CHR 0xA1, CHR 0xE5, CHR 0x8D, CHR 0xA7, CHR 0xE6, CHR 0xBC, CHR 0x8F,
    CHR 0xE6, CHR 0xB0, CHR 0xB4, CHR 0xE6, CHR 0xA3, CHR 0x80, CHR 0xE6, CHR 0xB5, CHR 0x8B]"

definition n_loushui_chufang :: string where
  "n_loushui_chufang =
   [CHR 0xE5, CHR 0x8E, CHR 0xA8, CHR 0xE6, CHR 0x88, CHR 0xBF, CHR 0xE6, CHR 0xBC, CHR 0x8F,
    CHR 0xE6, CHR 0xB0, CHR 0xB4, CHR 0xE6, CHR 0xA3, CHR 0x80, CHR 0xE6, CHR 0xB5, CHR 0x8B]"

definition n_power_ciwo :: string where
  "n_power_ciwo =
   [CHR 0xE6, CHR 0xAC, CHR 0xA1, CHR 0xE5, CHR 0x8D, CHR 0xA7, CHR 0xE6, CHR 0x8F, CHR 0x92,
    CHR 0xE5, CHR 0xBA, CHR 0xA7]"

definition n_chuanglian_zhuwo :: string where
  "n_chuanglian_zhuwo =
   [CHR 0xE4, CHR 0xB8, CHR 0xBB, CHR 0xE5, CHR 0x8D, CHR 0xA7, CHR 0xE7, CHR 0xAA, CHR 0x97,
    CHR 0xE5, CHR 0xB8, CHR 0x98]"

definition n_chuanglian_keting1 :: string where
  "n_chuanglian_keting1 =
   [CHR 0xE5, CHR 0xAE, CHR 0xA2, CHR 0xE5, CHR 0x8E, CHR 0x85, CHR 0xE7, CHR 0xAA, CHR 0x97,
    CHR 0xE5, CHR 0xB8, CHR 0x98]"

definition n_xmkg_cl_keting1 :: string where
  "n_xmkg_cl_keting1 =
   [CHR 0xE5, CHR 0xAE, CHR 0xA2, CHR 0xE5, CHR 0x8E, CHR 0x85, CHR 0xE7, CHR 0xAA, CHR 0x97,
    CHR 0xE5, CHR 0xB8, CHR 0x98, CHR 0xE5, CHR 0xBC, CHR 0x80, CHR 0xE5, CHR 0x85,
    CHR 0xB3] @ ''1''"

definition n_xmkg_cl_keting2 :: string where
  "n_xmkg_cl_keting2 =
   [CHR 0xE5, CHR 0xAE, CHR 0xA2, CHR 0xE5, CHR 0x8E, CHR 0x85, CHR 0xE7, CHR 0xAA, CHR 0x97,
    CHR 0xE5, CHR 0xB8, CHR 0x98, CHR 0xE5, CHR 0xBC, CHR 0x80, CHR 0xE5, CHR 0x85,
    CHR 0xB3] @ ''2''"

definition help_text :: string where
  "help_text =
   ''eg'' @ [CHR 0xEF, CHR 0xBC, CHR 0x9A, CHR 0xE5, CHR 0xBC, CHR 0x80, CHR 0xE5, CHR 0xAE,
    CHR 0xA2, CHR 0xE5, CHR 0x8E, CHR 0x85, CHR 0xE3, CHR 0x80, CHR 0x81, CHR 0xE5, CHR 0x85,
    CHR 0xB3, CHR 0xE5, CHR 0xAE, CHR 0xA2, CHR 0xE5, CHR 0x8E, CHR 0x85, CHR 0xE3, CHR 0x80,
    CHR 0x81, CHR 0xE5, CHR 0xBC, CHR 0x80, CHR 0xE6, CHR 0xAC, CHR 0xA1, CHR 0xE5, CHR 0x8D,
    CHR 0xA7, CHR 0xE3, CHR 0x80, CHR 0x81, CHR 0xE5, CHR 0xBC, CHR 0x80, CHR 0xE8, CHR 0xBF,
    CHR 0x87, CHR 0xE9, CHR 0x81, CHR 0x93, CHR 0xE3, CHR 0x80, CHR 0x81, CHR 0xE5, CHR 0xBC,
    CHR 0x80, CHR 0xE9, CHR 0x97, CHR 0xA8, CHR 0xE5, CHR 0x8E, CHR 0x85, CHR 0xE3, CHR 0x80,
    CHR 0x81, CHR 0xE5, CHR 0xBC, CHR 0x80, CHR 0xE5, CHR 0x8E, CHR 0xA8, CHR 0xE6, CHR 0x88,
    CHR 0xBF, CHR 0xE3, CHR 0x80, CHR 0x81, CHR 0xE5, CHR 0xBC, CHR 0x80, CHR 0xE9, CHR 0xA4,
    CHR 0x90, CHR 0xE5, CHR 0x8E, CHR 0x85, CHR 0xE3, CHR 0x80, CHR 0x81, CHR 0xE5, CHR 0xBC,
    CHR 0x80, CHR 0xE5, CHR 0x8E, CHR 0x95, CHR 0xE6, CHR 0x89, CHR 0x80, CHR 0xE3, CHR 0x80,
    CHR 0x81, CHR 0xE5, CHR 0xBC, CHR 0x80, CHR 0xE6, CHR 0xAC, CHR 0xA1, CHR 0xE5, CHR 0x8D,
    CHR 0xA7, CHR 0xE6, CHR 0x8F, CHR 0x92, CHR 0xE5, CHR 0xBA, CHR 0xA7, CHR 0xE3, CHR 0x80,
    CHR 0x81, CHR 0xE5, CHR 0x85, CHR 0xB3, CHR 0xE6, CHR 0xAC, CHR 0xA1, CHR 0xE5, CHR 0x8D,
    CHR 0xA7, CHR 0xE6, CHR 0x8F, CHR 0x92, CHR 0xE5, CHR 0xBA, CHR 0xA7, CHR 0xE3, CHR 0x80,
    CHR 0x81, CHR 0xE5, CHR 0xBC, CHR 0x80, CHR 0xE4, CHR 0xB8, CHR 0xBB, CHR 0xE5, CHR 0x8D,
    CHR 0xA7, CHR 0xE7, CHR 0xAA, CHR 0x97, CHR 0xE5, CHR 0xB8, CHR 0x98, CHR 0xE3, CHR 0x80,
    CHR 0x81, CHR 0xE5, CHR 0x85, CHR 0xB3, CHR 0xE4, CHR 0xB8, CHR 0xBB, CHR 0xE5, CHR 0x8D,
    CHR 0xA7, CHR 0xE7, CHR 0xAA, CHR 0x97, CHR 0xE5, CHR 0xB8, CHR 0x98, CHR 0xE3, CHR 0x80,
    CHR 0x81, CHR 0xE5, CHR 0xBC, CHR 0x80, CHR 0xE5, CHR 0xAE, CHR 0xA2, CHR 0xE5, CHR 0x8E,
    CHR 0x85, CHR 0xE7, CHR 0xBA, CHR 0xB1, CHR 0xE5, CHR 0xB8, CHR 0x98, CHR 0xE3, CHR 0x80,
    CHR 0x81, CHR 0xE5, CHR 0x85, CHR 0xB3, CHR 0xE5, CHR 0xAE, CHR 0xA2, CHR 0xE5, CHR 0x8E,
    CHR 0x85, CHR 0xE7, CHR 0xBA, CHR 0xB1, CHR 0xE5, CHR 0xB8, CHR 0x98, CHR 0xE3, CHR 0x80,
    CHR 0x81, CHR 0xE5, CHR 0xBC, CHR 0x80, CHR 0xE5, CHR 0xAE, CHR 0xA2, CHR 0xE5, CHR 0x8E,
    CHR 0x85, CHR 0xE5, CHR 0xB8, CHR 0x83, CHR 0xE5, CHR 0xB8, CHR 0x98, CHR 0xE3, CHR 0x80,
    CHR 0x81, CHR 0xE5, CHR 0x85, CHR 0xB3, CHR 0xE5, CHR 0xAE, CHR 0xA2, CHR 0xE5, CHR 0x8E,
    CHR 0x85, CHR 0xE5, CHR 0xB8, CHR 0x83, CHR 0xE5, CHR 0xB8, CHR 0x98]"

definition t_kaimen :: string where
  "t_kaimen =
   [CHR 0xE5, CHR 0xBC, CHR 0x80, CHR 0xE9, CHR 0x97, CHR 0xA8, CHR 0xEF, CHR 0xBC, CHR 0x81]"

definition t_guanmen :: string where
  "t_guanmen =
   [CHR 0xE5, CHR 0x85, CHR 0xB3, CHR 0xE9, CHR 0x97, CHR 0xA8, CHR 0xEF, CHR 0xBC, CHR 0x81]"

definition t_ciwo_loushui :: string where
  "t_ciwo_loushui =
   [CHR 0xE6, CHR 0xAC, CHR 0xA1, CHR 0xE5, CHR 0x8D, CHR 0xA7, CHR 0xE6, CHR 0xBC, CHR 0x8F,
    CHR 0xE6, CHR 0xB0, CHR 0xB4]"

definition t_ciwo_jiechu :: string where
  "t_ciwo_jiechu =
   [CHR 0xE6, CHR 0xAC, CHR 0xA1, CHR 0xE5, CHR 0x8D, CHR 0xA7, CHR 0xE6, CHR 0xBC, CHR 0x8F,
    CHR 0xE6, CHR 0xB0, CHR 0xB4, CHR 0xE8, CHR 0xA7, CHR 0xA3, CHR 0xE9, CHR 0x99, CHR 0xA4]"

definition t_chufang_loushui :: string where
  "t_chufang_loushui =
   [CHR 0xE5, CHR 0x8E, CHR 0xA8, CHR 0xE6, CHR 0x88, CHR 0xBF, CHR 0xE6, CHR 0xBC, CHR 0x8F,
    CHR 0xE6, CHR 0xB0, CHR 0xB4]"

definition t_chufang_jiechu :: string where
  "t_chufang_jiechu =
   [CHR 0xE5, CHR 0x8E, CHR 0xA8, CHR 0xE6, CHR 0x88, CHR 0xBF, CHR 0xE6, CHR 0xBC, CHR 0x8F,
    CHR 0xE6, CHR 0xB0, CHR 0xB4, CHR 0xE8, CHR 0xA7, CHR 0xA3, CHR 0xE9, CHR 0x99, CHR 0xA4]"

definition t_qidong :: string where
  "t_qidong =
   [CHR 0xE7, CHR 0xB3, CHR 0xBB, CHR 0xE7, CHR 0xBB, CHR 0x9F, CHR 0xE5, CHR 0x90, CHR 0xAF,
    CHR 0xE5, CHR 0x8A, CHR 0xA8]"

definition t_shebei :: string where
  "t_shebei =
   [CHR 0xE8, CHR 0xAE, CHR 0xBE, CHR 0xE5, CHR 0xA4, CHR 0x87] @ '':''"

definition t_lixian :: string where
  "t_lixian =
   '' '' @ [CHR 0xE7, CHR 0xA6, CHR 0xBB, CHR 0xE7, CHR 0xBA, CHR 0xBF, CHR 0xEF, CHR 0xBC,
    CHR 0x81]"

definition u_nian :: string where
  "u_nian =
   [CHR 0xE5, CHR 0xB9, CHR 0xB4]"

definition u_yue :: string where
  "u_yue =
   [CHR 0xE6, CHR 0x9C, CHR 0x88]"

definition u_ri :: string where
  "u_ri =
   [CHR 0xE6, CHR 0x97, CHR 0xA5]"

definition u_dian :: string where
  "u_dian =
   [CHR 0xE7, CHR 0x82, CHR 0xB9]"

definition u_fen :: string where
  "u_fen =
   [CHR 0xE5, CHR 0x88, CHR 0x86]"

definition u_miao :: string where
  "u_miao =
   [CHR 0xE7, CHR 0xA7, CHR 0x92]"

lemmas word_texts =
  w_kai_keting_def w_guan_keting_def w_kai_canting_def w_guan_canting_def w_kai_chufang_def
  w_guan_chufang_def w_kai_menting_def w_guan_menting_def w_kai_zhuwo_def w_guan_zhuwo_def
  w_kai_ciwo_def w_guan_ciwo_def w_kai_guodao_def w_guan_guodao_def w_kai_cesuo_def
  w_guan_cesuo_def w_kai_chazuo_def w_guan_chazuo_def w_guan_zhuwo_chuanglian_def
  w_kai_zhuwo_chuanglian_def w_guan_keting_shalian_def w_kai_keting_shalian_def
  w_guan_keting_bulian_def w_kai_keting_bulian_def

lemmas unit_texts = u_nian_def u_yue_def u_ri_def u_dian_def u_fen_def u_miao_def

lemmas alarm_texts =
  t_kaimen_def t_guanmen_def t_ciwo_loushui_def t_ciwo_jiechu_def t_chufang_loushui_def
  t_chufang_jiechu_def t_qidong_def t_shebei_def t_lixian_def

lemmas name_texts =
  n_keting_def n_canting_def n_chufang_def n_menting_def n_guodao_def n_zhuwo_def n_ciwo_def
  n_xmkg_zhu_def n_xmkg_ci_def n_xmmenci_def n_xiaomirenti_def n_xmkg_wai_def n_loushui_ciwo_def
  n_loushui_chufang_def n_power_ciwo_def n_chuanglian_zhuwo_def n_chuanglian_keting1_def
  n_xmkg_cl_keting1_def n_xmkg_cl_keting2_def

section \<open>Time stamps\<close>

text \<open>
  The fields of \<^verbatim>\<open>struct tm\<close> the texts print, and the \<^verbatim>\<open>time_t\<close> value they were computed from.
\<close>

record tm =
  tm_year :: int
  tm_mon :: int
  tm_mday :: int
  tm_hour :: int
  tm_min :: int
  tm_sec :: int
  tm_time :: int

definition stamp_text :: "tm \<Rightarrow> string" where
  "stamp_text t =
     dec (tm_year t + 1900) @ u_nian @ dec (tm_mon t + 1) @ u_yue @ dec (tm_mday t) @ u_ri @ '' '' @
     dec (tm_hour t) @ u_dian @ dec (tm_min t) @ u_fen @ dec (tm_sec t) @ u_miao"

text \<open>A notification: \<^verbatim>\<open>text=\<close>, what happened, an underscore and the time.\<close>

definition alarm_text :: "string \<Rightarrow> tm \<Rightarrow> string" where
  "alarm_text what t = ''text='' @ what @ ''_'' @ stamp_text t"

definition tm_int32 :: "tm \<Rightarrow> bool" where
  "tm_int32 t \<longleftrightarrow>
     (\<forall>i \<in> {tm_year t + 1900, tm_mon t + 1, tm_mday t, tm_hour t, tm_min t, tm_sec t, tm_time t}.
        - (2 ^ 31) \<le> i \<and> i < 2 ^ 31)"

lemma tm_int32_dec:
  assumes "tm_int32 t"
  shows "length (dec (tm_year t + 1900)) \<le> 11" "length (dec (tm_mon t + 1)) \<le> 11"
    "length (dec (tm_mday t)) \<le> 11" "length (dec (tm_hour t)) \<le> 11"
    "length (dec (tm_min t)) \<le> 11" "length (dec (tm_sec t)) \<le> 11" "length (dec (tm_time t)) \<le> 11"
  using assms by (auto simp: tm_int32_def intro!: length_dec_int32)

lemma length_stamp_text: "tm_int32 t \<Longrightarrow> length (stamp_text t) \<le> 85"
  using tm_int32_dec [of t] by (simp add: stamp_text_def unit_texts)

lemma length_alarm_text: "tm_int32 t \<Longrightarrow> length (alarm_text what t) \<le> length what + 91"
  using length_stamp_text [of t] by (simp add: alarm_text_def)

end
