(* ===== verification/Zb_State.thy ===== *)
theory Zb_State
  imports Zb_Text
begin

text \<open>
  The data of \<^verbatim>\<open>zbclient.c\<close>: the network addresses of the devices and the other constants, the
  device table entry, the global variables as one record, and what the program does to the outside
  world as a list of events. Text written by \<^verbatim>\<open>printf\<close> and to the log file is not part of the state.
\<close>

unbundle bit_operations_syntax

section \<open>Constants\<close>

definition XMKG_CL_KETING1_ID :: u16 where [simp]: "XMKG_CL_KETING1_ID = 0xea86"
definition XMKG_CL_KETING2_ID :: u16 where [simp]: "XMKG_CL_KETING2_ID = 0xe855"
definition CHUANGLIAN_KETING1_ID :: u16 where [simp]: "CHUANGLIAN_KETING1_ID = 0xd692"
definition XMKG_ZHU_ID :: u16 where [simp]: "XMKG_ZHU_ID = 0xba9d"
definition XMKG_CI_ID :: u16 where [simp]: "XMKG_CI_ID = 0x55f6"
definition XMMENCI_ID :: u16 where [simp]: "XMMENCI_ID = 0x535e"
definition KETING_ID :: u16 where [simp]: "KETING_ID = 0x4c35"
definition CANTING_ID :: u16 where [simp]: "CANTING_ID = 0x028C"
definition CHUFANG_ID :: u16 where [simp]: "CHUFANG_ID = 0x8DC0"
definition MENTING_ID :: u16 where [simp]: "MENTING_ID = 0x242D"
definition GUODAO_ID :: u16 where [simp]: "GUODAO_ID = 0x3865"
definition CIWO_ID :: u16 where [simp]: "CIWO_ID = 0xE6A4"
definition ZHUWO_ID :: u16 where [simp]: "ZHUWO_ID = 0x0C55"
definition XIAOMIRENTI_ID :: u16 where [simp]: "XIAOMIRENTI_ID = 0x3b6b"
definition XMKG_WAI_ID :: u16 where [simp]: "XMKG_WAI_ID = 0x0000"
definition POWER_CIWO_ID :: u16 where [simp]: "POWER_CIWO_ID = 0x0c41"
definition CHUANGLIAN_ZHUWO_ID :: u16 where [simp]: "CHUANGLIAN_ZHUWO_ID = 0x631f"
definition XMKG_CL_ZHUWO_ID :: u16 where [simp]: "XMKG_CL_ZHUWO_ID = 0x2349"
definition XMLOUSHUI_CIWO_ID :: u16 where [simp]: "XMLOUSHUI_CIWO_ID = 0xe320"
definition XMLOUSHUI_CHUFANG_ID :: u16 where [simp]: "XMLOUSHUI_CHUFANG_ID = 0xab13"

definition LINKQUALITY_ENABLE :: nat where [simp]: "LINKQUALITY_ENABLE = 1"

definition WW_STATE :: byte where [simp]: "WW_STATE = 0x55"
definition AA_STATE :: byte where [simp]: "AA_STATE = 0xaa"
definition CMD_STATE1 :: byte where [simp]: "CMD_STATE1 = 0x02"
definition LEN_STATE :: byte where [simp]: "LEN_STATE = 0x03"
definition DATA_STATE :: byte where [simp]: "DATA_STATE = 0x04"
definition FCS_STATE :: byte where [simp]: "FCS_STATE = 0x05"

definition MXJ_CTRL_UP :: byte where [simp]: "MXJ_CTRL_UP = 0x01"
definition MXJ_REGISTER_REQUEST :: byte where [simp]: "MXJ_REGISTER_REQUEST = 0x02"
definition MXJ_REGISTER_OK :: byte where [simp]: "MXJ_REGISTER_OK = 0x03"
definition MXJ_REGISTER_FAILED :: byte where [simp]: "MXJ_REGISTER_FAILED = 0x04"
definition MXJ_GET_STATE :: byte where [simp]: "MXJ_GET_STATE = 0x05"
definition MXJ_SEND_STATE :: byte where [simp]: "MXJ_SEND_STATE = 0x06"
definition MXJ_SENSOR_DATA :: byte where [simp]: "MXJ_SENSOR_DATA = 0x07"
definition MXJ_SEND_RESPONSE :: byte where [simp]: "MXJ_SEND_RESPONSE = 0x0D"
definition MXJ_XIAOMI18 :: byte where [simp]: "MXJ_XIAOMI18 = 0x18"
definition MXJ_XIAOMI1C :: byte where [simp]: "MXJ_XIAOMI1C = 0x1C"

definition DEV_SIZE :: nat where [simp]: "DEV_SIZE = 200"
definition RXBUF_SIZE :: nat where [simp]: "RXBUF_SIZE = 200"
definition JSON_SIZE :: nat where [simp]: "JSON_SIZE = 2000"
definition STRXML_SIZE :: nat where [simp]: "STRXML_SIZE = 500"
definition ALARM_SIZE :: nat where [simp]: "ALARM_SIZE = 200"

section \<open>Devices, global variables, events\<close>

text \<open>
  \<^verbatim>\<open>MXJ_DEVICE\<close>. The \<^verbatim>\<open>char *name\<close> is \<open>None\<close> while it is the null pointer static storage starts with.
\<close>

record mxj_device_t =
  d_id :: u16
  d_type :: byte
  d_heart :: byte
  d_devid :: u16
  d_idx :: byte
  d_name :: "string option"
  d_light :: "byte list"
  d_state :: "byte list"
  d_registered :: byte

definition no_device :: mxj_device_t where
  "no_device = \<lparr>d_id = 0, d_type = 0, d_heart = 0, d_devid = 0, d_idx = 0, d_name = None,
     d_light = [0, 0, 0], d_state = [0, 0, 0], d_registered = 0\<rparr>"

text \<open>
  The global variables. \<open>clock\<close> is the wall clock: the value of its \<open>n\<close>-th reading, for any course
  of time; \<open>reads\<close> counts the readings made.
\<close>

record gateway =
  mxj_device :: "mxj_device_t list"
  devsize :: byte
  rx_state :: byte
  LEN_Token :: byte
  FSC_Token :: byte
  tempDataLen :: byte
  rxbuf :: "byte list"
  rx_len :: byte
  humand :: int
  permitjoin :: int
  post_type :: int
  strxml :: string
  json_str :: "string option"
  tblock :: tm
  clock :: "nat \<Rightarrow> tm"
  reads :: nat
  out :: "event list"

text \<open>\<^verbatim>\<open>time (&now); tblock = localtime (&now);\<close>\<close>

definition read_clock :: "gateway \<Rightarrow> gateway" where
  "read_clock s = s\<lparr>tblock := clock s (reads s), reads := Suc (reads s)\<rparr>"

definition emit :: "event list \<Rightarrow> gateway \<Rightarrow> gateway" where
  "emit es s = s\<lparr>out := out s @ es\<rparr>"

definition usleep :: "nat \<Rightarrow> gateway cmd" where
  "usleep n = modify (emit [USleep n])"

text \<open>\<^verbatim>\<open>sprintf\<close> of a notification into \<^verbatim>\<open>char str[200]\<close>, then the two curl calls that post it.\<close>

definition post_alarm :: "string \<Rightarrow> gateway cmd" where
  "post_alarm str = (if length str < ALARM_SIZE then modify (emit [Post str]) else fault BufferOverflow)"

definition dev_ok :: "mxj_device_t \<Rightarrow> bool" where
  "dev_ok d \<longleftrightarrow> length (d_light d) = 3 \<and> length (d_state d) = 3"

text \<open>The types the C declarations give the globals, where the HOL types are wider.\<close>

definition gateway_typed :: "gateway \<Rightarrow> bool" where
  "gateway_typed s \<longleftrightarrow>
     length (mxj_device s) = DEV_SIZE \<and> list_all dev_ok (mxj_device s) \<and>
     length (rxbuf s) = RXBUF_SIZE \<and>
     length (strxml s) < STRXML_SIZE \<and>
     (case json_str s of None \<Rightarrow> True | Some j \<Rightarrow> length j < JSON_SIZE)"

lemma no_device_ok [simp]: "dev_ok no_device"
  by (simp add: dev_ok_def no_device_def)

lemma gateway_typedD:
  assumes "gateway_typed s"
  shows "length (mxj_device s) = 200" "length (rxbuf s) = 200" "length (strxml s) < 500"
    "\<And>d. d \<in> set (mxj_device s) \<Longrightarrow> dev_ok d"
  using assms by (auto simp: gateway_typed_def list_all_iff)

lemma read_clock_sel [simp]:
  "mxj_device (read_clock s) = mxj_device s" "devsize (read_clock s) = devsize s"
  "rx_state (read_clock s) = rx_state s" "LEN_Token (read_clock s) = LEN_Token s"
  "tempDataLen (read_clock s) = tempDataLen s" "rxbuf (read_clock s) = rxbuf s"
  "humand (read_clock s) = humand s" "permitjoin (read_clock s) = permitjoin s"
  "post_type (read_clock s) = post_type s" "strxml (read_clock s) = strxml s"
  "json_str (read_clock s) = json_str s" "out (read_clock s) = out s" "clock (read_clock s) = clock s"
  "tblock (read_clock s) = clock s (reads s)" "FSC_Token (read_clock s) = FSC_Token s"
  "rx_len (read_clock s) = rx_len s"
  by (simp_all add: read_clock_def)

lemma emit_sel [simp]:
  "mxj_device (emit es s) = mxj_device s" "devsize (emit es s) = devsize s"
  "rx_state (emit es s) = rx_state s" "LEN_Token (emit es s) = LEN_Token s"
  "tempDataLen (emit es s) = tempDataLen s" "rxbuf (emit es s) = rxbuf s"
  "humand (emit es s) = humand s" "permitjoin (emit es s) = permitjoin s"
  "post_type (emit es s) = post_type s" "strxml (emit es s) = strxml s"
  "json_str (emit es s) = json_str s" "out (emit es s) = out s @ es" "clock (emit es s) = clock s"
  "tblock (emit es s) = tblock s" "reads (emit es s) = reads s" "FSC_Token (emit es s) = FSC_Token s"
  "rx_len (emit es s) = rx_len s"
  by (simp_all add: emit_def)

end
