(* ===== verification/Serial_Link.thy ===== *)
theory Serial_Link
  imports Idol_Prelude
begin

text \<open>
  The serial protocol between the gateway and the Zigbee coordinator, as the programs share it: a
  frame is the sync bytes \<^verbatim>\<open>55 AA\<close>, the message, and the sum of its bytes modulo 256. A message is a
  command byte, a length byte \<open>n\<close>, and \<open>n - 1\<close> bytes. The interface locale says what a receiver of
  such frames promises; its lemma extends the promise from one frame to a stream of frames with noise
  between them.
\<close>

definition frame :: "byte list \<Rightarrow> byte list" where
  "frame m = [0x55, 0xaa] @ m @ [sum_list m]"

text \<open>A message the receivers can hold: the length byte counts what follows the command byte.\<close>

definition msg_ok :: "nat \<Rightarrow> byte list \<Rightarrow> bool" where
  "msg_ok limit m \<longleftrightarrow>
     3 \<le> length m \<and> unat (m ! 1) + 1 = length m \<and> length m + 1 \<le> limit"

definition hi :: "u16 \<Rightarrow> byte" where
  "hi x = ucast (drop_bit 8 x)"

definition lo :: "u16 \<Rightarrow> byte" where
  "lo x = ucast x"

fun feed :: "(byte \<Rightarrow> 's cmd) \<Rightarrow> byte list \<Rightarrow> 's cmd" where
  "feed rx [] s = Inr s"
| "feed rx (b # bs) s = (case rx b s of Inl f \<Rightarrow> Inl f | Inr t \<Rightarrow> feed rx bs t)"

lemma feed_append: "feed rx (as @ bs) s = (case feed rx as s of Inl f \<Rightarrow> Inl f | Inr t \<Rightarrow> feed rx bs t)"
  by (induction as arbitrary: s) (auto split: sum.splits)

lemma feed_snoc: "feed rx as s = Inr t \<Longrightarrow> feed rx (as @ [b]) s = rx b t"
  by (simp add: feed_append split: sum.split)

lemma feed_block: "feed rx bs = block (map rx bs)"
proof (rule ext)
  show "feed rx bs s = block (map rx bs) s" for s
    by (induction bs arbitrary: s) (auto split: sum.splits)
qed

lemma length_frame [simp]: "length (frame m) = length m + 3"
  by (simp add: frame_def)

lemma frame_nth_checksum: "frame m ! (length m + 2) = sum_list m"
  by (simp add: frame_def nth_append)

lemma frame_inject [simp]: "frame m = frame n \<longleftrightarrow> m = n"
  by (auto simp: frame_def)

section \<open>Building a frame\<close>

definition TXBUF_SIZE :: nat where [simp]: "TXBUF_SIZE = 100"

text \<open>
  \<^verbatim>\<open>for(i=0;i<len;i++) { txbuf[i+2] = data[i]; crc += data[i]; }\<close>
\<close>

function fill_txbuf :: "nat \<Rightarrow> nat \<Rightarrow> byte list \<Rightarrow> byte list \<Rightarrow> byte \<Rightarrow> c_error + byte list \<times> byte" where
  "fill_txbuf i len data txbuf crc =
     (if i < len then
        if i < length data \<and> i + 2 < length txbuf
        then fill_txbuf (Suc i) len data (txbuf[i + 2 := data ! i]) (crc + data ! i)
        else Inl OutOfBounds
      else Inr (txbuf, crc))"
  by pat_completeness auto
termination
  by (relation "measure (\<lambda>(i, len, _). len - i)") auto

declare fill_txbuf.simps [simp del]

text \<open>
  The bytes that \<^verbatim>\<open>send_usart\<close> hands to the serial line: \<^verbatim>\<open>txbuf\<close> with the sync bytes, the data and the sum,
  up to its position \<^verbatim>\<open>len + 2\<close>.
\<close>

definition txbuf_bytes :: "byte list \<Rightarrow> byte \<Rightarrow> c_error + byte list" where
  "txbuf_bytes data len =
     (let txbuf = (replicate TXBUF_SIZE 0)[0 := 0x55, 1 := 0xaa]
      in case fill_txbuf 0 (unat len) data txbuf 0 of
           Inl e \<Rightarrow> Inl e
         | Inr (txbuf, crc) \<Rightarrow>
             if unat len + 2 < TXBUF_SIZE
             then (let txbuf = txbuf[unat len + 2 := crc] in Inr (map (\<lambda>i. txbuf ! i) [0..<unat len + 3]))
             else Inl OutOfBounds)"

text \<open>The loop copies the data behind the sync bytes and sums it, whatever the buffer held.\<close>

lemma fill_txbuf_ok:
  assumes "i \<le> n" and "n \<le> length data" and "n + 2 \<le> length buf"
  shows "fill_txbuf i n data buf crc =
    Inr (take (i + 2) buf @ drop i (take n data) @ drop (n + 2) buf, crc + sum_list (drop i (take n data)))"
  using assms
proof (induction i n data buf crc rule: fill_txbuf.induct)
  case (1 i n data buf crc)
  show ?case
  proof (cases "i < n")
    case True
    have d: "drop i (take n data) = data ! i # drop (Suc i) (take n data)"
      using True "1.prems" by (simp add: Cons_nth_drop_Suc [symmetric])
    have b: "take (Suc i + 2) (buf[i + 2 := data ! i]) = take (i + 2) buf @ [data ! i]"
      using True "1.prems" by (simp add: take_Suc_conv_app_nth)
    have e: "drop (n + 2) (buf[i + 2 := data ! i]) = drop (n + 2) buf"
      using True by simp
    have "fill_txbuf i n data buf crc = fill_txbuf (Suc i) n data (buf[i + 2 := data ! i]) (crc + data ! i)"
      using True "1.prems" by (simp add: fill_txbuf.simps [of i])
    also have "\<dots> = Inr (take (Suc i + 2) (buf[i + 2 := data ! i]) @ drop (Suc i) (take n data) @
        drop (n + 2) (buf[i + 2 := data ! i]), (crc + data ! i) + sum_list (drop (Suc i) (take n data)))"
      using True "1.prems" by (intro "1.IH") auto
    finally show ?thesis unfolding b e d by (simp add: add.assoc)
  next
    case False
    with "1.prems" show ?thesis by (subst fill_txbuf.simps) auto
  qed
qed

text \<open>Past the end of the data the loop leaves the array it reads.\<close>

lemma fill_txbuf_short:
  "i \<le> length data \<Longrightarrow> length data < n \<Longrightarrow> fill_txbuf i n data buf crc = Inl OutOfBounds"
proof (induction i n data buf crc rule: fill_txbuf.induct)
  case (1 i n data buf crc)
  then show ?case by (subst fill_txbuf.simps) auto
qed

text \<open>A length within the data and within \<^verbatim>\<open>txbuf\<close> gives one frame.\<close>

lemma txbuf_bytes_frame:
  assumes len: "unat len \<le> length data" "unat len + 2 < TXBUF_SIZE"
  shows "txbuf_bytes data len = Inr (frame (take (unat len) data))"
proof -
  let ?m = "take (unat len) data"
  let ?buf = "(replicate TXBUF_SIZE (0::byte))[0 := 0x55, 1 := 0xaa]"
  have buf: "take (Suc (Suc 0)) ?buf = [0x55, 0xaa]" "length ?buf = 100"
    by (simp_all add: take_Suc_conv_app_nth)
  have fill: "fill_txbuf 0 (unat len) data ?buf 0 =
      Inr ([0x55, 0xaa] @ ?m @ drop (unat len + 2) ?buf, sum_list ?m)"
    using len buf by (simp add: fill_txbuf_ok)
  have len_m: "length ?m = unat len" using len by simp
  have drop: "drop (unat len + 2) ?buf = drop (unat len + 2) ?buf ! 0 # drop (unat len + 3) ?buf"
    using len by (simp add: Cons_nth_drop_Suc [symmetric] numeral_3_eq_3)
  have upd: "([0x55, 0xaa] @ ?m @ drop (unat len + 2) ?buf)[unat len + 2 := sum_list ?m] =
      frame ?m @ drop (unat len + 3) ?buf"
    using len_m by (subst drop) (simp add: frame_def list_update_append)
  have "map (\<lambda>i. (frame ?m @ drop (unat len + 3) ?buf) ! i) [0..<unat len + 3] = frame ?m"
    using len_m by (intro nth_equalityI) (auto simp: nth_append)
  with len upd show ?thesis
    by (simp only: txbuf_bytes_def Let_def fill sum.case prod.case if_True)
qed

lemma txbuf_bytes_short: "length data < unat len \<Longrightarrow> txbuf_bytes data len = Inl OutOfBounds"
  by (simp add: txbuf_bytes_def fill_txbuf_short)

section \<open>Reading a frame\<close>

text \<open>
  \<^verbatim>\<open>for(ii=0;ii<1 + LEN_Token;ii++) crcout += rxbuf[ii];\<close> The \<^verbatim>\<open>uint8_t\<close> counter could wrap only after
  256 rounds, and the array ends before that.
\<close>

function crc_loop :: "nat \<Rightarrow> nat \<Rightarrow> byte list \<Rightarrow> byte \<Rightarrow> c_error + byte" where
  "crc_loop ii n buf crc =
     (if ii < n then
        if ii < length buf then crc_loop (Suc ii) n buf (crc + buf ! ii) else Inl OutOfBounds
      else Inr crc)"
  by pat_completeness auto
termination
  by (relation "measure (\<lambda>(ii, n, _). n - ii)") auto

declare crc_loop.simps [simp del]

lemma crc_loop_ok:
  "ii \<le> n \<Longrightarrow> n \<le> length buf \<Longrightarrow> crc_loop ii n buf crc = Inr (crc + sum_list (drop ii (take n buf)))"
proof (induction ii n buf crc rule: crc_loop.induct)
  case (1 ii n buf crc)
  show ?case
  proof (cases "ii < n")
    case True
    then have "drop ii (take n buf) = buf ! ii # drop (Suc ii) (take n buf)"
      using "1.prems" by (simp add: Cons_nth_drop_Suc [symmetric])
    moreover have "crc_loop (Suc ii) n buf (crc + buf ! ii) =
        Inr ((crc + buf ! ii) + sum_list (drop (Suc ii) (take n buf)))"
      using True "1.prems" by (intro "1.IH") auto
    ultimately show ?thesis
      using True "1.prems" by (subst crc_loop.simps) (simp add: add.assoc)
  next
    case False
    with "1.prems" show ?thesis by (subst crc_loop.simps) simp
  qed
qed

text \<open>The buffer with a prefix of it overwritten.\<close>

definition fill :: "byte list \<Rightarrow> byte list \<Rightarrow> byte list" where
  "fill m buf = m @ drop (length m) buf"

lemma length_fill: "length m \<le> length buf \<Longrightarrow> length (fill m buf) = length buf"
  by (simp add: fill_def)

lemma take_fill: "take (length m) (fill m buf) = m"
  by (simp add: fill_def)

lemma fill_snoc: "length m < length buf \<Longrightarrow> (fill m buf)[length m := b] = fill (m @ [b]) buf"
  by (simp add: fill_def list_update_append Cons_nth_drop_Suc [symmetric])

lemma fill_Nil [simp]: "fill [] buf = buf"
  by (simp add: fill_def)

section \<open>Addresses\<close>

text \<open>
  \<^verbatim>\<open>id = rx[2]; id <<= 8; id |= rx[3];\<close> on an \<^verbatim>\<open>int\<close>.
\<close>

definition join16 :: "byte \<Rightarrow> byte \<Rightarrow> int" where
  "join16 h l = or (push_bit 8 (uint h)) (uint l)"

lemma join16_sum: "join16 h l = 256 * uint h + uint l"
proof -
  have l: "0 \<le> uint l" "uint l < 2 ^ 8"
    using uint_lt2p [of l] by auto
  have "and (push_bit 8 (uint h)) (uint l) = 0"
  proof (rule bit_eqI)
    fix n
    show "bit (and (push_bit 8 (uint h)) (uint l)) n \<longleftrightarrow> bit (0 :: int) n"
    proof (cases "n < 8")
      case True
      then show ?thesis by (simp add: bit_and_iff bit_push_bit_iff)
    next
      case False
      then have "\<not> bit (uint l) n"
        using bit_uint_iff [of l n] by simp
      then show ?thesis by (simp add: bit_and_iff)
    qed
  qed
  then have "or (push_bit 8 (uint h)) (uint l) = push_bit 8 (uint h) + uint l"
    using plus_and_or [of "push_bit 8 (uint h)" "uint l"] by simp
  then show ?thesis by (simp add: join16_def push_bit_eq_mult)
qed

lemma join16_range: "0 \<le> join16 h l" "join16 h l < 65536"
  using uint_lt2p [of h] uint_lt2p [of l] by (auto simp: join16_sum)

lemma uint_hi: "uint (hi x) = uint x div 256"
proof -
  have "uint x < 2 ^ 16" using uint_lt2p [of x] by simp
  then have "uint x div 256 < 256" by simp
  then have "uint x div 256 mod 256 = uint x div 256"
    by (intro mod_pos_pos_trivial) (simp_all add: pos_imp_zdiv_nonneg_iff)
  then show ?thesis
    by (simp add: hi_def unsigned_ucast_eq take_bit_eq_mod drop_bit_eq_div uint_div)
qed

lemma uint_lo: "uint (lo x) = uint x mod 256"
  by (simp add: lo_def unsigned_ucast_eq take_bit_eq_mod)

text \<open>Splitting an address into two bytes and joining them again gives the address.\<close>

lemma join16_hi_lo: "join16 (hi x) (lo x) = uint x"
  by (simp add: join16_sum uint_hi uint_lo)

lemma word_join16: "word_of_int (join16 (hi x) (lo x)) = x"
  by (simp add: join16_hi_lo)

section \<open>Fields of a message\<close>

definition rx_id :: "byte list \<Rightarrow> byte \<Rightarrow> int" where
  "rx_id rx len = (if 4 \<le> unat len then join16 (rx ! 2) (rx ! 3) else 0)"

definition rx_cid :: "byte list \<Rightarrow> byte \<Rightarrow> int" where
  "rx_cid rx len = (if 6 \<le> unat len then join16 (rx ! 4) (rx ! 5) else 0)"

definition rx_text :: "byte list \<Rightarrow> string" where
  "rx_text bs = map (\<lambda>b. char_of (unat b)) bs"

text \<open>
  \<^verbatim>\<open>calloc (rx[12]); strncpy (temp_str, &rx[13], rx[12])\<close>: the buffer has no room for a terminating
  zero, so \<^verbatim>\<open>printf ("%s")\<close> and \<^verbatim>\<open>strcmp\<close> read on behind it when the name has \<^verbatim>\<open>rx[12]\<close> characters.
\<close>

definition xiaomi_name :: "string \<Rightarrow> byte list \<Rightarrow> c_error + string" where
  "xiaomi_name after rx =
     (let n = unat (rx ! 12); mem = strncpy n (rx_text (drop 13 rx)) @ after
      in if cstr_ends mem then Inr (cstr mem) else Inl OverRead)"

lemma rx_id_range: "0 \<le> rx_id rx len" "rx_id rx len < 65536"
  using join16_range by (auto simp: rx_id_def)

section \<open>The contract of a receiver\<close>

text \<open>
  A receiver of frames of some protocol: \<open>encode\<close> gives the frame of a message, which begins with the byte
  \<open>start\<close>; \<open>valid\<close> are the messages the receiver can take.
\<close>

locale frame_receiver =
  fixes rx :: "byte \<Rightarrow> 's cmd"
    and idle :: "'s \<Rightarrow> bool"
    and deliver :: "'m \<Rightarrow> 's cmd"
    and start :: byte
    and encode :: "'m \<Rightarrow> byte list"
    and valid :: "'m \<Rightarrow> bool"
  assumes noise: "idle s \<Longrightarrow> b \<noteq> start \<Longrightarrow> rx b s = Inr s"
    and one_frame: "idle s \<Longrightarrow> valid m \<Longrightarrow> feed rx (encode m) s = deliver m s"
    and deliver_idle: "idle s \<Longrightarrow> valid m \<Longrightarrow> deliver m s = Inr t \<Longrightarrow> idle t"
begin

lemma noise_ignored: "idle s \<Longrightarrow> start \<notin> set bs \<Longrightarrow> feed rx bs s = Inr s"
  by (induction bs) (auto simp: noise)

text \<open>
  A stream is a list of messages, each frame preceded by bytes other than the start byte. Reading it
  delivers the messages one after the other, each once and in order, up to the first fault.
\<close>

lemma stream_of_frames:
  "idle s \<Longrightarrow> list_all (\<lambda>(n, m). start \<notin> set n \<and> valid m) ps \<Longrightarrow>
   feed rx (concat (map (\<lambda>(n, m). n @ encode m) ps)) s = block (map (\<lambda>(n, m). deliver m) ps) s"
proof (induction ps arbitrary: s)
  case Nil
  then show ?case by simp
next
  case (Cons p ps)
  obtain n m where p: "p = (n, m)" by (cases p)
  with Cons.prems have nm: "start \<notin> set n" "valid m" by auto
  have head: "feed rx (n @ encode m) s = deliver m s"
    using Cons.prems(1) nm by (simp add: feed_append noise_ignored one_frame)
  have step: "feed rx (concat (map (\<lambda>(n, m). n @ encode m) (p # ps))) s =
      (case deliver m s of Inl f \<Rightarrow> Inl f
       | Inr t \<Rightarrow> feed rx (concat (map (\<lambda>(n, m). n @ encode m) ps)) t)"
    using p head feed_append [of rx "n @ encode m"] by simp
  show ?case
  proof (cases "deliver m s")
    case (Inl f)
    with step p show ?thesis by simp
  next
    case (Inr t)
    with Cons.prems nm have t: "idle t" by (auto intro: deliver_idle)
    have "feed rx (concat (map (\<lambda>(n, m). n @ encode m) ps)) t = block (map (\<lambda>(n, m). deliver m) ps) t"
      using Cons.prems(2) by (intro Cons.IH [OF t]) simp
    with step Inr p show ?thesis by simp
  qed
qed

end

end
