(* ===== verification/Zb_Usart.thy ===== *)
theory Zb_Usart
  imports Zb_State Serial_Link
begin

text \<open>
  The sending side of \<^verbatim>\<open>zbclient.c\<close>: \<^verbatim>\<open>send_usart\<close> with its two loops, and the functions that build one
  kind of message each. The main result is that a message of suitable length leaves the program as
  exactly one frame, and that every message the program builds is well formed for a receiver.
\<close>

section \<open>send\_usart\<close>

definition send_usart :: "byte list \<Rightarrow> byte \<Rightarrow> gateway cmd" where
  "send_usart data len s =
     (case txbuf_bytes data len of
        Inl e \<Rightarrow> Inl (e, s)
      | Inr bs \<Rightarrow> Inr (emit (map TxByte bs) (read_clock s)))"

definition MXJ_SendCtrlMessage :: "u16 \<Rightarrow> byte \<Rightarrow> byte \<Rightarrow> byte \<Rightarrow> byte \<Rightarrow> gateway cmd" where
  "MXJ_SendCtrlMessage nid len msg1 msg2 msg3 =
     send_usart [0, len + 3, hi nid, lo nid, msg1, msg2, msg3] (4 + len)"

definition MXJ_SendRegisterMessage :: "u16 \<Rightarrow> byte \<Rightarrow> gateway cmd" where
  "MXJ_SendRegisterMessage nid state =
     (let data = [0, 4, hi nid, lo nid, 1]
      in if state = MXJ_REGISTER_OK then send_usart (data[0 := 3, 4 := 1]) 5
         else if state = MXJ_REGISTER_FAILED then send_usart (data[0 := 4, 4 := 0]) 5
         else skip)"

definition MXJ_SendPingMessage :: "u16 \<Rightarrow> gateway cmd" where
  "MXJ_SendPingMessage nid = send_usart [0x0f, 3, hi nid, lo nid] 4"

definition MXJ_GetIdxMessage :: "u16 \<Rightarrow> gateway cmd" where
  "MXJ_GetIdxMessage nid = send_usart [0x0b, 3, hi nid, lo nid] 4"

definition MXJ_GetStateMessage :: "u16 \<Rightarrow> gateway cmd" where
  "MXJ_GetStateMessage nid = send_usart [5, 3, hi nid, lo nid] 4"

section \<open>What is sent\<close>

text \<open>The state after one frame: the bytes are out and the clock was read once.\<close>

definition sent :: "byte list \<Rightarrow> gateway \<Rightarrow> gateway" where
  "sent m s = emit (map TxByte (frame m)) (read_clock s)"

lemma sent_sel [simp]:
  "mxj_device (sent m s) = mxj_device s" "devsize (sent m s) = devsize s"
  "rx_state (sent m s) = rx_state s" "LEN_Token (sent m s) = LEN_Token s"
  "tempDataLen (sent m s) = tempDataLen s" "rxbuf (sent m s) = rxbuf s"
  "humand (sent m s) = humand s" "permitjoin (sent m s) = permitjoin s"
  "post_type (sent m s) = post_type s" "strxml (sent m s) = strxml s"
  "json_str (sent m s) = json_str s" "out (sent m s) = out s @ map TxByte (frame m)"
  "clock (sent m s) = clock s" "FSC_Token (sent m s) = FSC_Token s" "rx_len (sent m s) = rx_len s"
  by (simp_all add: sent_def)

text \<open>
  The contract of \<open>send_usart\<close>: a length within the data and within \<^verbatim>\<open>txbuf\<close> sends one frame.
\<close>

lemma send_usart_frame:
  "unat len \<le> length data \<Longrightarrow> unat len + 2 < TXBUF_SIZE \<Longrightarrow>
   send_usart data len s = Inr (sent (take (unat len) data) s)"
  by (simp add: send_usart_def txbuf_bytes_frame sent_def)

lemma send_usart_short: "length data < unat len \<Longrightarrow> send_usart data len s = Inl (OutOfBounds, s)"
  by (simp add: send_usart_def txbuf_bytes_short)

section \<open>The messages\<close>

definition ctrl_msg :: "u16 \<Rightarrow> byte \<Rightarrow> byte \<Rightarrow> byte \<Rightarrow> byte \<Rightarrow> byte list" where
  "ctrl_msg nid len m1 m2 m3 = take (4 + unat len) [0, len + 3, hi nid, lo nid, m1, m2, m3]"

definition register_msg :: "u16 \<Rightarrow> byte \<Rightarrow> byte list" where
  "register_msg nid st = [st, 4, hi nid, lo nid, if st = MXJ_REGISTER_OK then 1 else 0]"

definition query_msg :: "byte \<Rightarrow> u16 \<Rightarrow> byte list" where
  "query_msg c nid = [c, 3, hi nid, lo nid]"

lemma unat_add_small: "unat a + unat b < 256 \<Longrightarrow> unat (a + b :: byte) = unat a + unat b"
  by (simp add: unat_add_lem [symmetric])

lemma SendCtrl_sent [tx_simps]:
  "unat len \<le> 3 \<Longrightarrow> MXJ_SendCtrlMessage nid len m1 m2 m3 s = Inr (sent (ctrl_msg nid len m1 m2 m3) s)"
  using unat_add_small [of 4 len]
  by (simp add: MXJ_SendCtrlMessage_def send_usart_frame ctrl_msg_def)

lemma SendCtrl_too_long:
  "3 < unat len \<Longrightarrow> unat len < 252 \<Longrightarrow> MXJ_SendCtrlMessage nid len m1 m2 m3 s = Inl (OutOfBounds, s)"
  using unat_add_small [of 4 len] by (simp add: MXJ_SendCtrlMessage_def send_usart_short)

lemma SendRegister_sent [tx_simps]:
  "MXJ_SendRegisterMessage nid MXJ_REGISTER_OK s = Inr (sent (register_msg nid MXJ_REGISTER_OK) s)"
  "MXJ_SendRegisterMessage nid MXJ_REGISTER_FAILED s = Inr (sent (register_msg nid MXJ_REGISTER_FAILED) s)"
  by (simp_all add: MXJ_SendRegisterMessage_def send_usart_frame register_msg_def)

lemma Query_sent [tx_simps]:
  "MXJ_SendPingMessage nid s = Inr (sent (query_msg 0x0f nid) s)"
  "MXJ_GetIdxMessage nid s = Inr (sent (query_msg 0x0b nid) s)"
  "MXJ_GetStateMessage nid s = Inr (sent (query_msg 5 nid) s)"
  by (simp_all add: MXJ_SendPingMessage_def MXJ_GetIdxMessage_def MXJ_GetStateMessage_def
      send_usart_frame query_msg_def)

lemma ctrl_msg_3 [simp]: "ctrl_msg nid 3 m1 m2 m3 = [0, 6, hi nid, lo nid, m1, m2, m3]"
  by (simp add: ctrl_msg_def)

lemma ctrl_msg_1 [simp]: "ctrl_msg nid 1 m1 m2 m3 = [0, 4, hi nid, lo nid, m1]"
  by (simp add: ctrl_msg_def)

lemma msg_ok_ctrl: "unat len \<le> 3 \<Longrightarrow> msg_ok 200 (ctrl_msg nid len m1 m2 m3)"
  using unat_add_small [of len 3] by (simp add: ctrl_msg_def msg_ok_def)

lemma msg_ok_register: "msg_ok 200 (register_msg nid st)"
  by (simp add: register_msg_def msg_ok_def)

lemma msg_ok_query: "msg_ok 200 (query_msg c nid)"
  by (simp add: query_msg_def msg_ok_def)

text \<open>Commands that only transmit keep everything but the events and the clock.\<close>

definition same_data :: "gateway \<Rightarrow> gateway \<Rightarrow> bool" where
  "same_data s t \<longleftrightarrow>
     mxj_device t = mxj_device s \<and> devsize t = devsize s \<and> rx_state t = rx_state s \<and>
     LEN_Token t = LEN_Token s \<and> FSC_Token t = FSC_Token s \<and> tempDataLen t = tempDataLen s \<and>
     rxbuf t = rxbuf s \<and> rx_len t = rx_len s \<and> humand t = humand s \<and>
     permitjoin t = permitjoin s \<and> post_type t = post_type s \<and> strxml t = strxml s \<and>
     json_str t = json_str s \<and> clock t = clock s"

lemma same_data_refl [simp, intro]: "same_data s s"
  by (simp add: same_data_def)

lemma same_data_sent [simp, intro]: "same_data s (sent m s)"
  by (simp add: same_data_def)

lemma same_data_emit [simp, intro]: "same_data s (emit es s)"
  by (simp add: same_data_def)

lemma same_data_trans: "same_data s t \<Longrightarrow> same_data t u \<Longrightarrow> same_data s u"
  by (simp add: same_data_def)

end
