(* ===== verification/Device_Table.thy ===== *)
theory Device_Table
  imports Idol_Prelude
begin

text \<open>
  The contract of a device table, as the programs of the repository use theirs: a search for a network
  address and an append of a new entry. The client-side lemmas are proved once here: a table that only
  appends addresses it did not find has every address once, and a search finds what was appended.
\<close>

text \<open>The result of a linear search: the least position of \<open>a\<close>, or \<open>-1\<close>.\<close>

fun first_index :: "'a \<Rightarrow> 'a list \<Rightarrow> int" where
  "first_index a [] = -1"
| "first_index a (x # xs) =
     (if x = a then 0 else let i = first_index a xs in if i = -1 then -1 else i + 1)"

lemma first_index_cases:
  "first_index a xs = -1 \<and> a \<notin> set xs \<or>
   (\<exists>n < length xs. first_index a xs = int n \<and> xs ! n = a \<and> (\<forall>m < n. xs ! m \<noteq> a))"
proof (induction xs)
  case Nil
  then show ?case by simp
next
  case (Cons x xs)
  show ?case
  proof (cases "x = a")
    case True
    then show ?thesis by (intro disjI2 exI [of _ 0]) simp
  next
    case False
    from Cons.IH show ?thesis
    proof
      assume "first_index a xs = -1 \<and> a \<notin> set xs"
      with False show ?thesis by (simp add: Let_def)
    next
      assume "\<exists>n < length xs. first_index a xs = int n \<and> xs ! n = a \<and> (\<forall>m < n. xs ! m \<noteq> a)"
      then obtain n where "n < length xs" "first_index a xs = int n" "xs ! n = a" "\<forall>m < n. xs ! m \<noteq> a"
        by blast
      with False show ?thesis
        by (intro disjI2 exI [of _ "Suc n"]) (auto simp: Let_def less_Suc_eq_0_disj)
    qed
  qed
qed

lemma first_index_miss [simp]: "first_index a xs = -1 \<longleftrightarrow> a \<notin> set xs"
  using first_index_cases [of a xs] by auto

lemma first_index_nonneg: "a \<in> set xs \<Longrightarrow> 0 \<le> first_index a xs \<and> nat (first_index a xs) < length xs"
  using first_index_cases [of a xs] by auto

lemma first_index_nth: "a \<in> set xs \<Longrightarrow> xs ! nat (first_index a xs) = a"
  using first_index_cases [of a xs] by auto

lemma first_index_append:
  "first_index a (xs @ ys) =
     (if a \<in> set xs then first_index a xs
      else if a \<in> set ys then int (length xs) + first_index a ys else -1)"
  using first_index_nonneg [of a ys] by (induction xs) (auto simp: Let_def)

lemma first_index_distinct: "distinct xs \<Longrightarrow> n < length xs \<Longrightarrow> first_index (xs ! n) xs = int n"
  using first_index_cases [of "xs ! n" xs] by (auto simp: nth_eq_iff_index_eq)

text \<open>A loop over the positions of a list that stops at the first hit is \<open>first_index\<close>.\<close>

lemma search_from:
  fixes f :: "nat \<Rightarrow> int"
  assumes rec: "\<And>i. f i = (if i < length xs then (if xs ! i = a then int i else f (Suc i)) else -1)"
  shows "i \<le> length xs \<Longrightarrow>
    f i = (if a \<in> set (drop i xs) then int i + first_index a (drop i xs) else -1)"
proof (induction "length xs - i" arbitrary: i)
  case 0
  then show ?case by (subst rec) simp
next
  case (Suc n)
  then have i: "i < length xs" by simp
  then have d: "drop i xs = xs ! i # drop (Suc i) xs" by (simp add: Cons_nth_drop_Suc)
  have "f (Suc i) = (if a \<in> set (drop (Suc i) xs) then int (Suc i) + first_index a (drop (Suc i) xs) else -1)"
    using Suc by (intro Suc.hyps(1)) simp_all
  with i d show ?case
    using first_index_nonneg [of a "drop (Suc i) xs"] by (subst rec) (auto simp: Let_def)
qed

lemma search_first_index:
  fixes f :: "nat \<Rightarrow> int"
  assumes "\<And>i. f i = (if i < length xs then (if xs ! i = a then int i else f (Suc i)) else -1)"
  shows "f 0 = first_index a xs"
proof (cases "a \<in> set xs")
  case True
  with search_from [of f xs a 0, OF assms] show ?thesis by simp
next
  case False
  then have "f 0 = -1" using search_from [of f xs a 0, OF assms] by simp
  moreover have "first_index a xs = -1" using False by simp
  ultimately show ?thesis by (rule trans [OF _ sym])
qed

locale device_table =
  fixes ids :: "'s \<Rightarrow> int list"
    and find :: "int \<Rightarrow> 's \<Rightarrow> int \<times> 's"
    and add :: "int \<Rightarrow> 'x \<Rightarrow> 's cmd"
    and wf :: "'s \<Rightarrow> bool"
  assumes find_index: "wf s \<Longrightarrow> fst (find a s) = first_index a (ids s)"
    and find_ids: "wf s \<Longrightarrow> ids (snd (find a s)) = ids s"
    and find_wf: "wf s \<Longrightarrow> wf (snd (find a s))"
    and add_ids: "wf s \<Longrightarrow> 0 \<le> a \<Longrightarrow> a < 65536 \<Longrightarrow> add a x s = Inr t \<Longrightarrow> ids t = ids s @ [a]"
    and add_wf: "wf s \<Longrightarrow> add a x s = Inr t \<Longrightarrow> wf t"
begin

text \<open>Search, then append when the address is new.\<close>

lemma register_distinct:
  assumes "wf s" "distinct (ids s)" "0 \<le> a" "a < 65536"
    and "fst (find a s) = -1" and "add a x (snd (find a s)) = Inr t"
  shows "wf t" "distinct (ids t)" "ids t = ids s @ [a]"
proof -
  have wf: "wf (snd (find a s))" using assms(1) by (rule find_wf)
  then show "wf t" using assms(6) by (rule add_wf)
  show eq: "ids t = ids s @ [a]"
    using add_ids [OF wf assms(3,4,6)] assms(1) by (simp add: find_ids)
  have "a \<notin> set (ids s)" using assms(1,5) by (simp add: find_index)
  with assms(2) eq show "distinct (ids t)" by simp
qed

lemma find_after_register:
  assumes "wf s" "0 \<le> a" "a < 65536"
    and "fst (find a s) = -1" and "add a x (snd (find a s)) = Inr t"
  shows "fst (find a t) = int (length (ids s))"
proof -
  have wf: "wf (snd (find a s))" using assms(1) by (rule find_wf)
  then have "wf t" using assms(5) by (rule add_wf)
  moreover have "ids t = ids s @ [a]"
    using add_ids [OF wf assms(2,3,5)] assms(1) by (simp add: find_ids)
  moreover have "a \<notin> set (ids s)" using assms(1,4) by (simp add: find_index)
  ultimately show ?thesis by (simp add: find_index first_index_append)
qed

text \<open>An address that was there is found at the same place after another one is appended.\<close>

lemma find_stable:
  assumes "wf s" "0 \<le> a" "a < 65536" and "add a x s = Inr t" and "fst (find b s) \<noteq> -1"
  shows "fst (find b t) = fst (find b s)"
proof -
  have "wf t" using assms(1,4) by (rule add_wf)
  moreover have "ids t = ids s @ [a]" using assms(1,2,3,4) by (rule add_ids)
  ultimately show ?thesis using assms(1,5) by (simp add: find_index first_index_append)
qed

end

end
