(* ===== verification/Web_Common.thy ===== *)
theory Web_Common
  imports Idol_Prelude
begin

text \<open>
  What the web servers of the repository have in common: the results libmicrohttpd expects from a
  callback, and the life of a connection in the programs that use a post processor
  (\<^verbatim>\<open>zbserver-brower.c\<close>, \<^verbatim>\<open>httpserver.c\<close>, \<^verbatim>\<open>zbserver.c\<close>, \<^verbatim>\<open>httpservertest.c\<close>). The calls libmicrohttpd
  makes for the keys and values in the data of a request are a list here; the theories \<open>Mhd_Post\<close> and
  \<open>Mhd_Encode\<close> have its parser, which makes them.
\<close>

datatype mhd_ret =
    MHD_YES
  | MHD_NO
  | NoValue          \<comment> \<open>\<^verbatim>\<open>return;\<close> in a function of type \<^verbatim>\<open>int\<close>: the caller reads an indeterminate value\<close>

section \<open>JSON\<close>

text \<open>The objects \<^verbatim>\<open>build_json\<close> makes.\<close>

datatype json =
    JObject "(string \<times> json) list"
  | JArray "json list"
  | JInt int
  | JString string

text \<open>
  json-c over an unknown type of objects, with \<open>None\<close> for the null pointer: \<^verbatim>\<open>json_tokener_parse\<close>,
  \<^verbatim>\<open>json_object_to_json_string\<close>, \<^verbatim>\<open>json_object_object_get_ex\<close> and \<^verbatim>\<open>json_object_get_int\<close>.
\<close>

record 'j json_lib =
  tokener_parse :: "string \<Rightarrow> 'j option"
  to_json_string :: "'j option \<Rightarrow> string option"
  object_get_ex :: "'j option \<Rightarrow> string \<Rightarrow> 'j option"
  get_int :: "'j option \<Rightarrow> int"

text \<open>The array functions of json-c: \<^verbatim>\<open>json_object_array_length\<close> of what is no array is a fault.\<close>

record 'j json_array_lib = "'j json_lib" +
  array_length :: "'j option \<Rightarrow> nat option"
  array_get_idx :: "'j option \<Rightarrow> nat \<Rightarrow> 'j option"

section \<open>Connections with a post processor\<close>

definition errorpage :: string where
  "errorpage = ''<html><body>This doesn'' @ [CHR 0x27] @ ''t seem to be right.</body></html>''"

text \<open>
  \<^verbatim>\<open>struct connection_info_struct\<close>: the kind, the answer, and whether \<^verbatim>\<open>postprocessor\<close> was set. The answer
  has a type of its own in each program.
\<close>

record 'a post_con =
  pc_type :: int
  pc_answer :: "'a option"
  pc_processor :: bool

text \<open>What the C library and libmicrohttpd decide during a call.\<close>

record web_env =
  we_malloc :: bool
  we_word :: int              \<comment> \<open>what the memory of \<^verbatim>\<open>connectiontype\<close> holds before it is set\<close>
  we_processor :: bool        \<comment> \<open>\<^verbatim>\<open>MHD_create_post_processor\<close> returns a processor\<close>
  we_create :: bool           \<comment> \<open>\<^verbatim>\<open>MHD_create_response_from_buffer\<close> returns a response\<close>
  we_queue :: mhd_ret

definition GET_KIND :: int where [simp]: "GET_KIND = 0"
definition POST_KIND :: int where [simp]: "POST_KIND = 1"

text \<open>The first call for a request: \<open>None\<close> is \<^verbatim>\<open>MHD_NO\<close>.\<close>

definition open_connection :: "web_env \<Rightarrow> string \<Rightarrow> 'a post_con option" where
  "open_connection env method =
     (if \<not> we_malloc env then None
      else if method = ''POST''
      then (if \<not> we_processor env then None
            else Some \<lparr>pc_type = POST_KIND, pc_answer = None, pc_processor = True\<rparr>)
      else Some \<lparr>pc_type = GET_KIND, pc_answer = None, pc_processor = False\<rparr>)"

text \<open>\<^verbatim>\<open>request_completed\<close>: destroying a post processor that was never set is a wild pointer.\<close>

definition close_connection :: "'a post_con option \<Rightarrow> c_error + 'a post_con option" where
  "close_connection con =
     (case con of
        None \<Rightarrow> Inr None
      | Some c \<Rightarrow>
          if pc_type c = POST_KIND \<and> \<not> pc_processor c then Inl WildPointer else Inr None)"

text \<open>A connection as the first call makes it and the later calls keep it.\<close>

definition con_ok :: "'a post_con \<Rightarrow> bool" where
  "con_ok c \<longleftrightarrow> (pc_type c = POST_KIND \<longrightarrow> pc_processor c)"

lemma open_connection_ok: "open_connection env method = Some c \<Longrightarrow> con_ok c"
  by (auto simp: open_connection_def con_ok_def split: if_splits)

lemma con_ok_answer [simp]: "con_ok (c\<lparr>pc_answer := a\<rparr>) \<longleftrightarrow> con_ok c"
  by (simp add: con_ok_def)

lemma close_connection_ok: "con_ok c \<Longrightarrow> close_connection (Some c) = Inr None"
  by (simp add: close_connection_def con_ok_def)

section \<open>The calls of a post processor\<close>

text \<open>
  \<^verbatim>\<open>MHD_post_process\<close> calls \<^verbatim>\<open>iterate_post\<close> for one key and value after the other, until a call returns
  \<^verbatim>\<open>MHD_NO\<close>. A call carries the key, the data and its size.
\<close>

type_synonym item = "string \<times> string \<times> nat"

fun post_process ::
    "(item \<Rightarrow> 's \<Rightarrow> (c_error \<times> 's) + mhd_ret \<times> 's) \<Rightarrow> item list \<Rightarrow> 's \<Rightarrow> (c_error \<times> 's) + 's" where
  "post_process it [] s = Inr s"
| "post_process it (x # xs) s =
     (case it x s of
        Inl f \<Rightarrow> Inl f
      | Inr (r, t) \<Rightarrow> if r = MHD_NO then Inr t else post_process it xs t)"

lemma post_process_inv:
  assumes "\<And>x s r t. I s \<Longrightarrow> it x s = Inr (r, t) \<Longrightarrow> I t"
  shows "I s \<Longrightarrow> post_process it xs s = Inr t \<Longrightarrow> I t"
proof (induction xs arbitrary: s)
  case (Cons x xs)
  then show ?case using assms [of s x] by (auto split: sum.splits if_splits)
qed simp

lemma post_process_total:
  assumes "\<And>s x. I s \<Longrightarrow> x \<in> set xs \<Longrightarrow> \<exists>r t. it x s = Inr (r, t) \<and> I t"
  shows "I s \<Longrightarrow> \<exists>t. post_process it xs s = Inr t"
  using assms
proof (induction xs arbitrary: s)
  case (Cons x xs)
  from Cons.prems(2) [OF Cons.prems(1), of x] obtain r t where t: "it x s = Inr (r, t)" "I t" by auto
  moreover have "\<exists>u. post_process it xs t = Inr u" using t(2) Cons.prems(2) by (intro Cons.IH) auto
  ultimately show ?case by simp
qed simp

text \<open>
  \<^verbatim>\<open>MHD_destroy_post_processor\<close> as the first thing \<^verbatim>\<open>request_completed\<close> does for a post: for a value that
  was not delivered to its end it calls \<^verbatim>\<open>iterate_post\<close> again, with these items.
\<close>

definition end_post ::
    "(item \<Rightarrow> 's \<Rightarrow> (c_error \<times> 's) + mhd_ret \<times> 's) \<Rightarrow> item list \<Rightarrow> 'a post_con \<Rightarrow> 's \<Rightarrow> (c_error \<times> 's) + 's" where
  "end_post it items c s = (if pc_type c = POST_KIND then post_process it items s else Inr s)"

lemma end_post_inv:
  assumes "\<And>x s r t. I s \<Longrightarrow> it x s = Inr (r, t) \<Longrightarrow> I t"
  shows "I s \<Longrightarrow> end_post it items c s = Inr t \<Longrightarrow> I t"
  using post_process_inv [of I it s items t] assms by (auto simp: end_post_def split: if_splits)

end
