(* ===== verification/Zb_Devices.thy ===== *)
theory Zb_Devices
  imports Zb_Usart Device_Table Web_Common
begin

text \<open>
  The device table of \<^verbatim>\<open>zbclient.c\<close> (\<^verbatim>\<open>find_dev\<close>, \<^verbatim>\<open>del_dev\<close>, the code that appends an entry) and
  \<^verbatim>\<open>build_json\<close>, which renders the table into \<^verbatim>\<open>json_str\<close>. How json-c turns an object into text is a
  parameter: the function \<open>dump\<close>.
\<close>

section \<open>Searching, appending, deleting\<close>

text \<open>\<^verbatim>\<open>for(i=0;i<devsize;i++) if(mxj_device[i].id == id) { mxj_device[i].heart++; return i; }\<close>\<close>

function find_dev_from :: "nat \<Rightarrow> int \<Rightarrow> gateway \<Rightarrow> int \<times> gateway" where
  "find_dev_from i nid s =
     (if i < unat (devsize s) then
        if uint (d_id (mxj_device s ! i)) = nid
        then (int i, s\<lparr>mxj_device := (mxj_device s)[i := (mxj_device s ! i)
                         \<lparr>d_heart := d_heart (mxj_device s ! i) + 1\<rparr>]\<rparr>)
        else find_dev_from (Suc i) nid s
      else (-1, s))"
  by pat_completeness auto
termination
  by (relation "measure (\<lambda>(i, _, s). unat (devsize s) - i)") auto

declare find_dev_from.simps [simp del]

definition find_dev :: "int \<Rightarrow> gateway \<Rightarrow> int \<times> gateway" where
  "find_dev nid s = find_dev_from 0 nid s"

text \<open>
  The code that appends an entry: the assignments to the fields of \<^verbatim>\<open>mxj_device[devsize]\<close>, then
  \<^verbatim>\<open>if(devsize<DEV_SIZE) devsize ++;\<close>. The write comes before the test.
\<close>

definition append_dev :: "(mxj_device_t \<Rightarrow> mxj_device_t) \<Rightarrow> gateway cmd" where
  "append_dev f s =
     (let n = unat (devsize s)
      in if n < length (mxj_device s)
         then Inr (s\<lparr>mxj_device := (mxj_device s)[n := f (mxj_device s ! n)],
                     devsize := (if n < DEV_SIZE then devsize s + 1 else devsize s)\<rparr>)
         else Inl (OutOfBounds, s))"

definition del_dev :: "gateway cmd" where
  "del_dev s =
     (let i = uint (devsize s) - 1
      in if 0 \<le> i \<and> nat i < length (mxj_device s)
         then Inr (s\<lparr>mxj_device := (mxj_device s)[nat i := (mxj_device s ! nat i)
                       \<lparr>d_id := 0, d_type := 0, d_idx := 0, d_registered := 0, d_name := Some []\<rparr>],
                     devsize := devsize s - 1\<rparr>)
         else Inl (OutOfBounds, s))"

section \<open>build\_json\<close>

text \<open>
  The text it makes. The objects it makes on the way live in the memory of json-c; who owns them, and the
  \<^verbatim>\<open>json_object_put\<close> calls that end a round, are in \<open>Json_Refs\<close>.
\<close>

definition name_field :: "u16 \<Rightarrow> (string \<times> json) list" where
  "name_field nid =
     (if nid = KETING_ID then [(''name'', JString ''KETING_ID'')] else []) @
     (if nid = CANTING_ID then [(''name'', JString ''CANTING_ID'')] else []) @
     (if nid = CHUFANG_ID then [(''name'', JString ''CHUFANG_ID'')] else []) @
     (if nid = MENTING_ID then [(''name'', JString ''MENTING_ID'')] else []) @
     (if nid = GUODAO_ID then [(''name'', JString ''GUODAO_ID'')] else []) @
     (if nid = ZHUWO_ID then [(''name'', JString ''ZHUWO_ID'')] else []) @
     (if nid = CIWO_ID then [(''name'', JString ''CIWO_ID'')] else [])"

text \<open>
  The object of one device. \<^verbatim>\<open>json_object_new_string\<close> copies the name, so the null name of an entry
  that was never named is a null dereference.
\<close>

definition dev_obj :: "string \<Rightarrow> mxj_device_t \<Rightarrow> json" where
  "dev_obj nm d = JObject
     ([(''id'', JInt (uint (d_id d))), (''nameChinese'', JString nm),
       (''type'', JInt (uint (d_type d))),
       (''status'', JArray [JInt (uint (d_state d ! 0)), JInt (uint (d_state d ! 1)),
                            JInt (uint (d_state d ! 2))])] @ name_field (d_id d))"

definition dev_json :: "mxj_device_t \<Rightarrow> c_error + json" where
  "dev_json d = (case d_name d of None \<Rightarrow> Inl NullDeref | Some nm \<Rightarrow> Inr (dev_obj nm d))"

text \<open>\<^verbatim>\<open>strcat (str2, t)\<close> with \<^verbatim>\<open>char str2[2000]\<close>.\<close>

definition strcat_str2 :: "string \<Rightarrow> string \<Rightarrow> c_error + string" where
  "strcat_str2 str2 t = (if length (str2 @ t) < JSON_SIZE then Inr (str2 @ t) else Inl BufferOverflow)"

text \<open>The loop over the devices from the \<open>i\<close>-th on, \<open>n\<close> of them in all.\<close>

fun build_loop :: "(json \<Rightarrow> string) \<Rightarrow> nat \<Rightarrow> nat \<Rightarrow> mxj_device_t list \<Rightarrow> string \<Rightarrow> c_error + string" where
  "build_loop dump i n [] str2 = Inr str2"
| "build_loop dump i n (d # ds) str2 =
     (case dev_json d of
        Inl e \<Rightarrow> Inl e
      | Inr j \<Rightarrow>
          (case strcat_str2 str2 (dump j) of
             Inl e \<Rightarrow> Inl e
           | Inr str2 \<Rightarrow>
               (case strcat_str2 str2 (if i + 1 < n then '','' else '']}'') of
                  Inl e \<Rightarrow> Inl e
                | Inr str2 \<Rightarrow> build_loop dump (Suc i) n ds str2)))"

definition json_head :: string where
  "json_head = CHR 0x7B # CHR 0x22 # ''devices'' @ [CHR 0x22, CHR 0x3A, CHR 0x5B]"

definition build_json :: "(json \<Rightarrow> string) \<Rightarrow> gateway cmd" where
  "build_json dump s =
     (case build_loop dump 0 (unat (devsize s)) (take (unat (devsize s)) (mxj_device s)) json_head of
        Inl e \<Rightarrow> Inl (e, s)
      | Inr str2 \<Rightarrow>
          (case json_str s of
             None \<Rightarrow> Inl (NullDeref, s)
           | Some _ \<Rightarrow> Inr (s\<lparr>json_str := Some str2\<rparr>)))"

section \<open>The table as a device table\<close>

definition dev_ids :: "gateway \<Rightarrow> int list" where
  "dev_ids s = map (\<lambda>d. uint (d_id d)) (take (unat (devsize s)) (mxj_device s))"

definition table_wf :: "gateway \<Rightarrow> bool" where
  "table_wf s \<longleftrightarrow> length (mxj_device s) = DEV_SIZE \<and> unat (devsize s) \<le> DEV_SIZE"

text \<open>What a successful search does to the entry: one more sign of life, modulo 256.\<close>

definition bump_heart :: "nat \<Rightarrow> gateway \<Rightarrow> gateway" where
  "bump_heart i s = s\<lparr>mxj_device := (mxj_device s)[i := (mxj_device s ! i)
     \<lparr>d_heart := d_heart (mxj_device s ! i) + 1\<rparr>]\<rparr>"

lemma bump_heart_sel [simp]:
  "devsize (bump_heart i s) = devsize s" "rxbuf (bump_heart i s) = rxbuf s"
  "rx_state (bump_heart i s) = rx_state s" "LEN_Token (bump_heart i s) = LEN_Token s"
  "FSC_Token (bump_heart i s) = FSC_Token s" "tempDataLen (bump_heart i s) = tempDataLen s"
  "rx_len (bump_heart i s) = rx_len s" "humand (bump_heart i s) = humand s"
  "permitjoin (bump_heart i s) = permitjoin s" "post_type (bump_heart i s) = post_type s"
  "strxml (bump_heart i s) = strxml s" "json_str (bump_heart i s) = json_str s"
  "tblock (bump_heart i s) = tblock s" "clock (bump_heart i s) = clock s"
  "reads (bump_heart i s) = reads s" "out (bump_heart i s) = out s"
  "length (mxj_device (bump_heart i s)) = length (mxj_device s)"
  by (simp_all add: bump_heart_def)

lemma bump_heart_nth:
  "j < length (mxj_device s) \<Longrightarrow>
   mxj_device (bump_heart i s) ! j =
     (if j = i then (mxj_device s ! i)\<lparr>d_heart := d_heart (mxj_device s ! i) + 1\<rparr> else mxj_device s ! j)"
  by (simp add: bump_heart_def nth_list_update)

lemma dev_ids_bump_heart [simp]: "dev_ids (bump_heart i s) = dev_ids s"
proof (cases "i < length (mxj_device s)")
  case True
  then show ?thesis
    by (auto simp: dev_ids_def bump_heart_nth intro!: nth_equalityI)
next
  case False
  then show ?thesis by (simp add: dev_ids_def bump_heart_def list_update_beyond)
qed

lemma length_dev_ids: "table_wf s \<Longrightarrow> length (dev_ids s) = unat (devsize s)"
  by (simp add: dev_ids_def table_wf_def)

lemma find_dev_from_eq:
  "table_wf s \<Longrightarrow> i \<le> unat (devsize s) \<Longrightarrow>
   find_dev_from i nid s =
     (let r = first_index nid (drop i (dev_ids s))
      in if r = -1 then (-1, s) else (int i + r, bump_heart (i + nat r) s))"
proof (induction i nid s rule: find_dev_from.induct)
  case (1 i nid s)
  show ?case
  proof (cases "i < unat (devsize s)")
    case True
    then have d: "drop i (dev_ids s) = uint (d_id (mxj_device s ! i)) # drop (Suc i) (dev_ids s)"
      using "1.prems" by (simp add: length_dev_ids Cons_nth_drop_Suc [symmetric])
         (simp add: dev_ids_def table_wf_def)
    show ?thesis
    proof (cases "uint (d_id (mxj_device s ! i)) = nid")
      case hit: True
      then show ?thesis
        using True by (subst find_dev_from.simps) (simp add: d bump_heart_def)
    next
      case miss: False
      then have IH: "find_dev_from (Suc i) nid s =
          (let r = first_index nid (drop (Suc i) (dev_ids s))
           in if r = -1 then (-1, s) else (int (Suc i) + r, bump_heart (Suc i + nat r) s))"
        using True "1.prems" by (intro "1.IH") auto
      show ?thesis
        using True miss first_index_nonneg [of nid "drop (Suc i) (dev_ids s)"]
        by (subst find_dev_from.simps) (auto simp: d IH Let_def nat_add_distrib)
    qed
  next
    case False
    with "1.prems" have "drop i (dev_ids s) = []" by (simp add: length_dev_ids)
    with False show ?thesis by (subst find_dev_from.simps) simp
  qed
qed

lemma find_dev_eq:
  "table_wf s \<Longrightarrow>
   find_dev nid s =
     (if nid \<in> set (dev_ids s)
      then (first_index nid (dev_ids s), bump_heart (nat (first_index nid (dev_ids s))) s)
      else (-1, s))"
  by (simp add: find_dev_def find_dev_from_eq Let_def)

lemma find_dev_miss: "table_wf s \<Longrightarrow> nid \<notin> set (dev_ids s) \<Longrightarrow> find_dev nid s = (-1, s)"
  by (simp add: find_dev_eq)

lemma find_dev_hitE:
  assumes "table_wf s" and "nid \<in> set (dev_ids s)"
  obtains i where "i < unat (devsize s)" "uint (d_id (mxj_device s ! i)) = nid"
    "find_dev nid s = (int i, bump_heart i s)"
proof -
  let ?i = "nat (first_index nid (dev_ids s))"
  have i: "?i < length (dev_ids s)" "dev_ids s ! ?i = nid" "0 \<le> first_index nid (dev_ids s)"
    using first_index_nonneg [OF assms(2)] first_index_nth [OF assms(2)] by auto
  show thesis
  proof
    show "?i < unat (devsize s)" using i(1) assms(1) by (simp add: length_dev_ids)
    show "uint (d_id (mxj_device s ! ?i)) = nid"
      using i assms(1) by (simp add: dev_ids_def)
    show "find_dev nid s = (int ?i, bump_heart ?i s)"
      using i(3) assms by (simp add: find_dev_eq)
  qed
qed

text \<open>The block that registers a Xiaomi sensor, as \<^verbatim>\<open>recieve_usart\<close> repeats it for each model.\<close>

definition add_xiaomi :: "int \<Rightarrow> byte \<Rightarrow> gateway cmd" where
  "add_xiaomi nid ty =
     append_dev (\<lambda>d. d\<lparr>d_id := word_of_int nid, d_type := ty, d_idx := 1, d_registered := 1\<rparr>)"

lemma unat_Suc_byte: "unat (n :: byte) < 255 \<Longrightarrow> unat (n + 1) = unat n + 1"
  using unat_add_small [of n 1] by simp

lemma append_dev_ok:
  assumes "table_wf s" and "append_dev f s = Inr t"
  shows "unat (devsize s) < 200" "unat (devsize t) = unat (devsize s) + 1"
    "mxj_device t = (mxj_device s)[unat (devsize s) := f (mxj_device s ! unat (devsize s))]"
  using assms unat_Suc_byte [of "devsize s"]
  by (auto simp: append_dev_def table_wf_def Let_def split: if_splits)

lemma append_dev_frame:
  "append_dev f s = Inr t \<Longrightarrow>
   rxbuf t = rxbuf s \<and> rx_state t = rx_state s \<and> LEN_Token t = LEN_Token s \<and>
   tempDataLen t = tempDataLen s \<and> humand t = humand s \<and> strxml t = strxml s \<and>
   json_str t = json_str s \<and> clock t = clock s \<and> out t = out s \<and> post_type t = post_type s \<and>
   tblock t = tblock s \<and> FSC_Token t = FSC_Token s \<and> rx_len t = rx_len s"
  by (auto simp: append_dev_def Let_def split: if_splits)

lemma append_dev_wf: "table_wf s \<Longrightarrow> append_dev f s = Inr t \<Longrightarrow> table_wf t"
  using append_dev_ok [of s f t] by (simp add: table_wf_def)

lemma append_dev_ids:
  assumes "table_wf s" and "append_dev f s = Inr t"
  shows "dev_ids t = dev_ids s @ [uint (d_id (f (mxj_device s ! unat (devsize s))))]"
proof -
  note ok = append_dev_ok [OF assms]
  have "take (Suc (unat (devsize s))) (mxj_device t) =
      take (unat (devsize s)) (mxj_device s) @ [f (mxj_device s ! unat (devsize s))]"
    using assms(1) ok by (simp add: take_Suc_conv_app_nth table_wf_def)
  with ok show ?thesis by (simp add: dev_ids_def)
qed

text \<open>The table is full: the entry is written behind the end of the array.\<close>

lemma append_dev_full:
  "table_wf s \<Longrightarrow> unat (devsize s) = 200 \<Longrightarrow> append_dev f s = Inl (OutOfBounds, s)"
  by (simp add: append_dev_def table_wf_def)

lemma append_dev_room: "table_wf s \<Longrightarrow> unat (devsize s) < 200 \<Longrightarrow> \<exists>t. append_dev f s = Inr t"
  by (simp add: append_dev_def table_wf_def Let_def)

interpretation zb_table: device_table dev_ids find_dev add_xiaomi table_wf
proof unfold_locales
  fix s a
  assume wf: "table_wf s"
  show "fst (find_dev a s) = first_index a (dev_ids s)"
    using wf by (simp add: find_dev_eq) (metis first_index_miss)
  show "dev_ids (snd (find_dev a s)) = dev_ids s" "table_wf (snd (find_dev a s))"
    using wf by (auto simp: find_dev_eq table_wf_def)
next
  fix s a x t
  assume wf: "table_wf s" and a: "0 \<le> a" "a < 65536" and t: "add_xiaomi a x s = Inr t"
  from a have "uint (word_of_int a :: u16) = a"
    by (simp add: uint_word_of_int)
  then show "dev_ids t = dev_ids s @ [a]"
    using append_dev_ids [OF wf t [unfolded add_xiaomi_def]] by simp
next
  fix s a x t
  assume "table_wf s" and "add_xiaomi a x s = Inr t"
  then show "table_wf t" by (auto simp: add_xiaomi_def intro: append_dev_wf)
qed

section \<open>What build\_json renders\<close>

definition named :: "mxj_device_t \<Rightarrow> bool" where
  "named d \<longleftrightarrow> d_name d \<noteq> None"

definition dev_text :: "(json \<Rightarrow> string) \<Rightarrow> mxj_device_t \<Rightarrow> string" where
  "dev_text dump d = dump (dev_obj (the (d_name d)) d)"

fun devs_text :: "(json \<Rightarrow> string) \<Rightarrow> mxj_device_t list \<Rightarrow> string" where
  "devs_text dump [] = []"
| "devs_text dump [d] = dev_text dump d @ '']}''"
| "devs_text dump (d # e # ds) = dev_text dump d @ '','' @ devs_text dump (e # ds)"

definition live_devs :: "gateway \<Rightarrow> mxj_device_t list" where
  "live_devs s = take (unat (devsize s)) (mxj_device s)"

text \<open>The whole text: the head, the devices separated by commas, the closing brackets.\<close>

definition json_text :: "(json \<Rightarrow> string) \<Rightarrow> gateway \<Rightarrow> string" where
  "json_text dump s = json_head @ devs_text dump (live_devs s)"

lemma length_json_head [simp]: "length json_head = 12"
  by (simp add: json_head_def)

lemma build_loop_eq:
  "list_all named ds \<Longrightarrow> length str2 < JSON_SIZE \<Longrightarrow> n = i + length ds \<Longrightarrow>
   build_loop dump i n ds str2 =
     (if length str2 + length (devs_text dump ds) < JSON_SIZE then Inr (str2 @ devs_text dump ds)
      else Inl BufferOverflow)"
proof (induction dump i n ds str2 rule: build_loop.induct)
  case (1 dump i n str2)
  then show ?case by simp
next
  case (2 dump i n d ds str2)
  from "2.prems" obtain nm where nm: "d_name d = Some nm" by (auto simp: named_def)
  let ?j = "dev_obj nm d"
  have j: "dev_json d = Inr ?j" and t: "dev_text dump d = dump ?j"
    using nm by (simp_all add: dev_json_def dev_text_def)
  let ?sep = "if i + 1 < n then '','' else '']}''"
  have "devs_text dump (d # ds) = dump ?j @ ?sep @ devs_text dump ds"
    using "2.prems"(3) t by (cases ds) auto
  moreover have "build_loop dump (Suc i) n ds ((str2 @ dump ?j) @ ?sep) =
      (if length ((str2 @ dump ?j) @ ?sep) + length (devs_text dump ds) < JSON_SIZE
       then Inr (((str2 @ dump ?j) @ ?sep) @ devs_text dump ds) else Inl BufferOverflow)"
    if "length (str2 @ dump ?j) < JSON_SIZE" and "length ((str2 @ dump ?j) @ ?sep) < JSON_SIZE"
    using "2.prems" j that by (intro "2.IH") (auto simp: strcat_str2_def)
  ultimately show ?case
    using j by (auto simp: strcat_str2_def)
qed

lemma build_json_eq:
  assumes "list_all named (live_devs s)" and "json_str s = Some j" and "table_wf s"
  shows "build_json dump s =
    (if length (json_text dump s) < JSON_SIZE then Inr (s\<lparr>json_str := Some (json_text dump s)\<rparr>)
     else Inl (BufferOverflow, s))"
proof -
  have "length (live_devs s) = unat (devsize s)"
    using assms(3) by (simp add: live_devs_def table_wf_def)
  then have "build_loop dump 0 (unat (devsize s)) (live_devs s) json_head =
      (if length json_head + length (devs_text dump (live_devs s)) < JSON_SIZE
       then Inr (json_head @ devs_text dump (live_devs s)) else Inl BufferOverflow)"
    using assms(1) by (intro build_loop_eq) simp_all
  then show ?thesis
    using assms(2) by (simp add: build_json_def live_devs_def json_text_def)
qed

text \<open>The first entry without a name stops the rendering.\<close>

lemma build_loop_unnamed:
  "\<not> list_all named ds \<Longrightarrow> \<exists>e. build_loop dump i n ds str2 = Inl e"
proof (induction dump i n ds str2 rule: build_loop.induct)
  case (2 dump i n d ds str2)
  show ?case
  proof (cases "named d")
    case True
    with "2.prems" have "\<not> list_all named ds" by simp
    with "2.IH" show ?thesis by (fastforce split: sum.split)
  next
    case False
    then show ?thesis by (simp add: named_def dev_json_def)
  qed
qed simp

lemma build_json_unnamed:
  "\<not> list_all named (live_devs s) \<Longrightarrow> \<exists>e. build_json dump s = Inl (e, s)"
  using build_loop_unnamed [of "live_devs s" dump 0 "unat (devsize s)" json_head]
  by (auto simp: build_json_def live_devs_def)

lemma build_json_frame:
  "build_json dump s = Inr t \<Longrightarrow> \<exists>j. t = s\<lparr>json_str := Some j\<rparr>"
  by (auto simp: build_json_def split: sum.splits option.splits)

lemma build_loop_length:
  "build_loop dump i n ds str2 = Inr r \<Longrightarrow> length str2 < JSON_SIZE \<Longrightarrow> length r < JSON_SIZE"
  by (induction dump i n ds str2 rule: build_loop.induct)
    (auto simp: strcat_str2_def split: sum.splits if_splits)

text \<open>Whatever the table and the rendering: the text that \<^verbatim>\<open>build_json\<close> stores fits \<^verbatim>\<open>json_str\<close>.\<close>

lemma build_json_length:
  "build_json dump s = Inr t \<Longrightarrow> \<exists>j. t = s\<lparr>json_str := Some j\<rparr> \<and> length j < JSON_SIZE"
  by (auto simp: build_json_def dest!: build_loop_length split: sum.splits option.splits)

section \<open>Deleting\<close>

lemma del_dev_empty: "devsize s = 0 \<Longrightarrow> del_dev s = Inl (OutOfBounds, s)"
  by (simp add: del_dev_def)

lemma nat_int_pred: "nat (int n - 1) = n - 1"
  by arith

lemma del_dev_ids:
  assumes wf: "table_wf s" and n: "devsize s \<noteq> 0"
  obtains t where "del_dev s = Inr t" "table_wf t" "dev_ids t = butlast (dev_ids s)"
proof -
  let ?n = "unat (devsize s)"
  have pos: "0 < ?n" using n by (simp add: unat_gt_0)
  have "uint (devsize s) = int ?n" by simp
  then have u: "nat (uint (devsize s) - 1) = ?n - 1" "0 < uint (devsize s)"
    using pos by (simp_all only: nat_int_pred of_nat_0_less_iff)
  have dec: "unat (devsize s - 1) = ?n - 1"
    using pos unat_minus_one [OF n] by simp
  from wf have len: "?n - 1 < length (mxj_device s)" "?n \<le> length (mxj_device s)"
    using pos by (auto simp: table_wf_def)
  let ?d = "(mxj_device s ! (?n - 1))\<lparr>d_id := 0, d_type := 0, d_idx := 0, d_registered := 0, d_name := Some []\<rparr>"
  let ?t = "s\<lparr>mxj_device := (mxj_device s)[?n - 1 := ?d], devsize := devsize s - 1\<rparr>"
  show thesis
  proof
    show "del_dev s = Inr ?t" using u pos len by (simp add: del_dev_def Let_def)
    show "table_wf ?t" using wf dec by (auto simp: table_wf_def)
    show "dev_ids ?t = butlast (dev_ids s)"
      using dec len by (simp add: dev_ids_def butlast_conv_take min_def take_map)
  qed
qed

end
