(* ===== verification/Zb_Receive.thy ===== *)
theory Zb_Receive
  imports Zb_Devices
begin

text \<open>
  \<^verbatim>\<open>recieve_usart\<close> of \<^verbatim>\<open>zbclient.c\<close>: what the gateway does with a message from the Zigbee network. One
  definition per case of the \<^verbatim>\<open>switch\<close> and, for the Xiaomi reports, one per cluster. The argument \<open>rx\<close>
  is the whole receive buffer and \<open>len\<close> the length of the message in it, as in the source: several
  cases read positions behind the message, that is what an earlier message left there.

  \<open>after\<close> is what follows a heap block in memory; the program prints and compares a string it did not
  terminate, so what it sees can depend on it.
\<close>

section \<open>MXJ\_CTRL\_UP, MXJ\_SEND\_STATE and the short cases\<close>

definition set_state :: "nat \<Rightarrow> nat \<Rightarrow> byte \<Rightarrow> gateway \<Rightarrow> gateway" where
  "set_state i k b s = s\<lparr>mxj_device := (mxj_device s)[i := (mxj_device s ! i)
     \<lparr>d_state := (d_state (mxj_device s ! i))[k := b]\<rparr>]\<rparr>"

text \<open>\<^verbatim>\<open>i = find_dev (nid);\<close> and what follows with this \<^verbatim>\<open>i\<close>.\<close>

definition finding :: "int \<Rightarrow> (int \<Rightarrow> gateway cmd) \<Rightarrow> gateway cmd" where
  "finding nid f s = (case find_dev nid s of (i, t) \<Rightarrow> f i t)"

definition rx_ctrl_up :: "(json \<Rightarrow> string) \<Rightarrow> int \<Rightarrow> byte list \<Rightarrow> gateway cmd" where
  "rx_ctrl_up dump nid rx = finding nid (\<lambda>i.
     if i = -1 then skip
     else block
       [reading (\<lambda>s.
          if d_type (mxj_device s ! nat i) = 4
          then block
            [if rx ! 5 = 1 then modify (set_state (nat i) 0 (rx ! 6)) else skip,
             if rx ! 5 = 2 then modify (set_state (nat i) 1 (rx ! 6)) else skip,
             if rx ! 5 = 3 then modify (set_state (nat i) 2 (rx ! 6)) else skip,
             if nid = uint CHUFANG_ID then modify (\<lambda>s. s\<lparr>humand := 0\<rparr>) else skip,
             build_json dump]
          else skip),
        if nid = uint POWER_CIWO_ID
        then block
          [reading (\<lambda>s. MXJ_SendCtrlMessage POWER_CIWO_ID 1 (1 - d_state (mxj_device s ! nat i) ! 0) 0 0),
           modify (\<lambda>s. set_state (nat i) 0 (1 - d_state (mxj_device s ! nat i) ! 0) s)]
        else skip])"

definition rx_send_state :: "(json \<Rightarrow> string) \<Rightarrow> int \<Rightarrow> byte list \<Rightarrow> byte \<Rightarrow> gateway cmd" where
  "rx_send_state dump nid rx len = finding nid (\<lambda>i.
     if i \<ge> 0
     then block
       [if 5 + LINKQUALITY_ENABLE \<le> unat len then modify (set_state (nat i) 0 (rx ! 8)) else skip,
        if 6 \<le> unat len then modify (set_state (nat i) 1 (rx ! 9)) else skip,
        if 7 \<le> unat len then modify (set_state (nat i) 2 (rx ! 10)) else skip,
        build_json dump]
     else skip)"

section \<open>MXJ\_XIAOMI18: a new sensor announces itself\<close>

definition rx_xiaomi_register ::
    "(json \<Rightarrow> string) \<Rightarrow> string \<Rightarrow> int \<Rightarrow> byte list \<Rightarrow> gateway cmd" where
  "rx_xiaomi_register dump after nid rx =
     (case xiaomi_name after rx of
        Inl e \<Rightarrow> fault e
      | Inr temp_str \<Rightarrow>
          if temp_str = ''lumi.sensor_switch'' then block [add_xiaomi nid 0x0b, build_json dump]
          else if temp_str = ''lumi.sensor_magnet'' then block [add_xiaomi nid 0x0a, build_json dump]
          else if temp_str = ''lumi.sensor_motion'' then block [add_xiaomi nid 0x03, build_json dump]
          else if temp_str = ''lumi.sensor_ht'' then block [add_xiaomi nid 0x09, build_json dump]
          else skip)"

section \<open>MXJ\_XIAOMI18, cluster 6: buttons, door and leak sensors\<close>

text \<open>The two messages that move a curtain of the living room: start, and 0.1 s later release.\<close>

definition keting_curtain :: "byte \<Rightarrow> byte \<Rightarrow> byte \<Rightarrow> byte \<Rightarrow> byte \<Rightarrow> byte \<Rightarrow> byte \<Rightarrow> byte \<Rightarrow> gateway cmd" where
  "keting_curtain a b c d a' b' c' d' = block
     [send_usart [0, 4 + 3, hi CHUANGLIAN_KETING1_ID, lo CHUANGLIAN_KETING1_ID, a, b, c, d] (4 + 4),
      usleep 100000,
      send_usart [0, 4 + 3, hi CHUANGLIAN_KETING1_ID, lo CHUANGLIAN_KETING1_ID, a', b', c', d'] (4 + 4)]"

definition zhuwo_curtain :: "byte \<Rightarrow> byte \<Rightarrow> byte \<Rightarrow> gateway cmd" where
  "zhuwo_curtain a b c = block
     [MXJ_SendCtrlMessage CHUANGLIAN_ZHUWO_ID 3 a b c,
      usleep 100000,
      MXJ_SendCtrlMessage CHUANGLIAN_ZHUWO_ID 3 0 0 0]"

definition rx_double_kick :: "int \<Rightarrow> gateway cmd" where
  "rx_double_kick nid = block
     [if nid = uint XMKG_ZHU_ID then MXJ_SendCtrlMessage ZHUWO_ID 3 3 3 3 else skip,
      if nid = uint XMKG_CI_ID
      then block
        [MXJ_SendCtrlMessage ZHUWO_ID 3 0 0 0,
         MXJ_SendCtrlMessage CIWO_ID 3 0 0 0,
         MXJ_SendCtrlMessage CHUFANG_ID 3 0 0 0,
         MXJ_SendCtrlMessage CANTING_ID 3 0 0 0,
         MXJ_SendCtrlMessage KETING_ID 3 0 0 0,
         MXJ_SendCtrlMessage MENTING_ID 3 0 0 0,
         MXJ_SendCtrlMessage GUODAO_ID 3 0 0 0]
      else skip,
      if nid = uint XMKG_CL_ZHUWO_ID then zhuwo_curtain 0 0 1 else skip,
      if nid = uint XMKG_CL_KETING1_ID then keting_curtain 1 0 2 2 0 0 2 2 else skip,
      if nid = uint XMKG_CL_KETING2_ID then keting_curtain 2 2 1 0 2 2 0 0 else skip]"

definition rx_single_kick :: "int \<Rightarrow> byte \<Rightarrow> gateway cmd" where
  "rx_single_kick nid act = block
     [if nid = uint XMKG_ZHU_ID \<and> act = 1 then MXJ_SendCtrlMessage GUODAO_ID 3 3 3 3 else skip,
      if nid = uint XMKG_CI_ID \<and> act = 1 then MXJ_SendCtrlMessage CIWO_ID 3 3 3 3 else skip,
      if nid = uint XMKG_CL_ZHUWO_ID \<and> act = 1 then zhuwo_curtain 1 0 0 else skip,
      if nid = uint XMKG_CL_KETING1_ID \<and> act = 1 then keting_curtain 0 1 2 2 0 0 2 2 else skip,
      if nid = uint XMKG_CL_KETING2_ID \<and> act = 1 then keting_curtain 2 2 0 1 2 2 0 0 else skip]"

definition rx_door :: "byte \<Rightarrow> gateway cmd" where
  "rx_door act = reading (\<lambda>s. post_alarm
     (if act = 1 then alarm_text t_kaimen (tblock s)
      else if act = 0 then alarm_text t_guanmen (tblock s) else []))"

definition rx_leak_ciwo :: "byte \<Rightarrow> gateway cmd" where
  "rx_leak_ciwo act =
     (if act = 0
      then block
        [reading (\<lambda>s. post_alarm (alarm_text t_ciwo_loushui (tblock s))),
         MXJ_SendCtrlMessage ZHUWO_ID 3 1 0 0,
         MXJ_SendCtrlMessage CIWO_ID 3 1 0 0]
      else if act = 1 then reading (\<lambda>s. post_alarm (alarm_text t_ciwo_jiechu (tblock s)))
      else skip)"

definition rx_leak_chufang :: "byte \<Rightarrow> gateway cmd" where
  "rx_leak_chufang act =
     (if act = 0
      then block
        [reading (\<lambda>s. post_alarm (alarm_text t_chufang_loushui (tblock s))),
         MXJ_SendCtrlMessage ZHUWO_ID 3 1 0 0,
         MXJ_SendCtrlMessage CHUFANG_ID 3 1 0 0]
      else if act = 1 then reading (\<lambda>s. post_alarm (alarm_text t_chufang_jiechu (tblock s)))
      else skip)"

definition rx_onoff :: "int \<Rightarrow> byte list \<Rightarrow> gateway cmd" where
  "rx_onoff nid rx =
     (if rx ! 11 = 0x20 then rx_double_kick nid
      else block
        [rx_single_kick nid (rx ! 12),
         if nid = uint XMMENCI_ID then rx_door (rx ! 12) else skip,
         if nid = uint XMLOUSHUI_CIWO_ID then rx_leak_ciwo (rx ! 12) else skip,
         if nid = uint XMLOUSHUI_CHUFANG_ID then rx_leak_chufang (rx ! 12) else skip])"

section \<open>MXJ\_XIAOMI18, cluster 0x406: motion in the kitchen\<close>

definition rx_motion :: "int \<Rightarrow> gateway cmd" where
  "rx_motion nid =
     (if nid = uint XIAOMIRENTI_ID
      then finding (uint CHUFANG_ID) (\<lambda>j. block
        [reading (\<lambda>s.
           if j \<noteq> -1 \<and> d_state (mxj_device s ! nat j) ! 0 = 0
           then (if humand s \<le> 1
                 then block [MXJ_SendCtrlMessage CHUFANG_ID 3 1 1 1, modify (\<lambda>s. s\<lparr>humand := 120\<rparr>)]
                 else skip)
           else skip),
         reading (\<lambda>s. if humand s > 1 then modify (\<lambda>s. s\<lparr>humand := 120\<rparr>) else skip)])
      else skip)"

section \<open>The whole function\<close>

text \<open>
  The clusters 0x402 (temperature) and 0x405 (humidity) only print the value.
\<close>

definition rx_xiaomi18 ::
    "(json \<Rightarrow> string) \<Rightarrow> string \<Rightarrow> int \<Rightarrow> int \<Rightarrow> byte list \<Rightarrow> byte \<Rightarrow> gateway cmd" where
  "rx_xiaomi18 dump after nid cid rx len = finding nid (\<lambda>i. block
     [if 27 \<le> unat len \<and> cid = 0 \<and> uint (rx ! 12) \<le> uint len - 13 \<and> i = -1
      then rx_xiaomi_register dump after nid rx else skip,
      if cid = 6 then (if len \<noteq> 14 then skip else rx_onoff nid rx)
      else if cid = 0x406 then (if len \<noteq> 14 then skip else rx_motion nid)
      else skip])"

definition recieve_usart :: "(json \<Rightarrow> string) \<Rightarrow> string \<Rightarrow> byte list \<Rightarrow> byte \<Rightarrow> gateway cmd" where
  "recieve_usart dump after rx len =
     (let nid = rx_id rx len; cid = rx_cid rx len; c = rx ! 0
      in block
        [modify read_clock,
         if c = MXJ_CTRL_UP then rx_ctrl_up dump nid rx
         else if c = MXJ_REGISTER_REQUEST
           then MXJ_SendRegisterMessage (word_of_int nid) MXJ_REGISTER_OK
         else if c = MXJ_SEND_STATE then rx_send_state dump nid rx len
         else if c = MXJ_SENSOR_DATA then skip
         else if c = MXJ_GET_STATE then MXJ_SendCtrlMessage (word_of_int nid) 1 2 2 2
         else if c = MXJ_SEND_RESPONSE then skip
         else if c = MXJ_XIAOMI18 then rx_xiaomi18 dump after nid cid rx len
         else if c = MXJ_XIAOMI1C then finding nid (\<lambda>i. skip)
         else skip])"

section \<open>What every message keeps\<close>

text \<open>
  The invariant of the data: the C types of the globals, a table without duplicate addresses and with
  at most \<open>DEV_SIZE\<close> entries, the countdown of the kitchen light within 0..120, and clock readings
  whose fields are \<^verbatim>\<open>int\<close>s.
\<close>

definition clock_ok :: "gateway \<Rightarrow> bool" where
  "clock_ok s \<longleftrightarrow> (\<forall>n. tm_int32 (clock s n)) \<and> tm_int32 (tblock s)"

definition data_inv :: "gateway \<Rightarrow> bool" where
  "data_inv s \<longleftrightarrow> gateway_typed s \<and> table_wf s \<and> distinct (dev_ids s) \<and>
     0 \<le> humand s \<and> humand s \<le> 120 \<and> clock_ok s"

lemma data_inv_cong:
  "data_inv s \<Longrightarrow> mxj_device t = mxj_device s \<Longrightarrow> devsize t = devsize s \<Longrightarrow> rxbuf t = rxbuf s \<Longrightarrow>
   strxml t = strxml s \<Longrightarrow> json_str t = json_str s \<Longrightarrow> humand t = humand s \<Longrightarrow> clock t = clock s \<Longrightarrow>
   tblock t = tblock s \<or> (\<exists>n. tblock t = clock s n) \<Longrightarrow> data_inv t"
  by (auto simp: data_inv_def gateway_typed_def table_wf_def dev_ids_def clock_ok_def)

lemma data_inv_read_clock: "data_inv s \<Longrightarrow> data_inv (read_clock s)"
  by (erule data_inv_cong) auto

lemma data_inv_emit: "data_inv s \<Longrightarrow> data_inv (emit es s)"
  by (erule data_inv_cong) auto

lemma data_inv_sent: "data_inv s \<Longrightarrow> data_inv (sent m s)"
  by (simp add: sent_def data_inv_emit data_inv_read_clock)

lemma data_inv_humand: "data_inv s \<Longrightarrow> 0 \<le> h \<Longrightarrow> h \<le> 120 \<Longrightarrow> data_inv (s\<lparr>humand := h\<rparr>)"
  by (simp add: data_inv_def gateway_typed_def table_wf_def dev_ids_def clock_ok_def)

text \<open>Changes to an entry that leave its address alone.\<close>

lemma data_inv_entry:
  assumes inv: "data_inv s" and f: "\<And>d. d_id (f d) = d_id d" "\<And>d. dev_ok d \<Longrightarrow> dev_ok (f d)"
  shows "data_inv (s\<lparr>mxj_device := (mxj_device s)[i := f (mxj_device s ! i)]\<rparr>)"
proof (cases "i < length (mxj_device s)")
  case True
  let ?t = "s\<lparr>mxj_device := (mxj_device s)[i := f (mxj_device s ! i)]\<rparr>"
  have "dev_ids ?t = dev_ids s"
    using f(1) True by (auto simp: dev_ids_def nth_list_update intro!: nth_equalityI)
  moreover have "list_all dev_ok (mxj_device ?t)"
    using inv True f(2) by (simp add: data_inv_def gateway_typed_def list_all_length nth_list_update)
  ultimately show ?thesis
    using inv by (simp add: data_inv_def gateway_typed_def table_wf_def clock_ok_def)
next
  case False
  then show ?thesis using inv by (simp add: list_update_beyond)
qed

lemma data_inv_set_state: "data_inv s \<Longrightarrow> data_inv (set_state i k b s)"
  unfolding set_state_def by (rule data_inv_entry) (auto simp: dev_ok_def)

lemma data_inv_bump_heart: "data_inv s \<Longrightarrow> data_inv (bump_heart i s)"
  unfolding bump_heart_def by (rule data_inv_entry) (auto simp: dev_ok_def)

lemma data_inv_wf: "data_inv s \<Longrightarrow> table_wf s"
  by (simp add: data_inv_def)

lemma data_inv_find_dev: "data_inv s \<Longrightarrow> data_inv (snd (find_dev nid s))"
  by (simp add: find_dev_eq data_inv_wf data_inv_bump_heart)

lemma data_inv_json: "data_inv s \<Longrightarrow> length j < JSON_SIZE \<Longrightarrow> data_inv (s\<lparr>json_str := Some j\<rparr>)"
  by (simp add: data_inv_def gateway_typed_def table_wf_def dev_ids_def clock_ok_def)

lemma set_state_sel [simp]:
  "devsize (set_state i k b s) = devsize s" "rxbuf (set_state i k b s) = rxbuf s"
  "rx_state (set_state i k b s) = rx_state s" "LEN_Token (set_state i k b s) = LEN_Token s"
  "FSC_Token (set_state i k b s) = FSC_Token s" "tempDataLen (set_state i k b s) = tempDataLen s"
  "rx_len (set_state i k b s) = rx_len s" "humand (set_state i k b s) = humand s"
  "permitjoin (set_state i k b s) = permitjoin s" "post_type (set_state i k b s) = post_type s"
  "strxml (set_state i k b s) = strxml s" "json_str (set_state i k b s) = json_str s"
  "tblock (set_state i k b s) = tblock s" "clock (set_state i k b s) = clock s"
  "reads (set_state i k b s) = reads s" "out (set_state i k b s) = out s"
  "length (mxj_device (set_state i k b s)) = length (mxj_device s)"
  by (simp_all add: set_state_def)

lemma add_xiaomi_frame:
  assumes "add_xiaomi nid ty s = Inr t"
  shows "rx_state t = rx_state s" "rxbuf t = rxbuf s" "LEN_Token t = LEN_Token s"
    "tempDataLen t = tempDataLen s" "FSC_Token t = FSC_Token s" "rx_len t = rx_len s"
    "out t = out s" "humand t = humand s"
  using append_dev_frame [OF assms [unfolded add_xiaomi_def]] by auto

lemma data_inv_add_xiaomi:
  assumes inv: "data_inv s" and new: "nid \<notin> set (dev_ids s)" "0 \<le> nid" "nid < 65536"
    and t: "add_xiaomi nid ty s = Inr t"
  shows "data_inv t"
proof -
  have wf: "table_wf s" using inv by (rule data_inv_wf)
  have tab: "table_wf t" "dev_ids t = dev_ids s @ [nid]"
    using zb_table.add_wf [OF wf t] zb_table.add_ids [OF wf new(2,3) t] by auto
  have len: "unat (devsize s) < length (mxj_device s)"
    using append_dev_ok(1) [OF wf t [unfolded add_xiaomi_def]] wf by (simp add: table_wf_def)
  have dev: "mxj_device t = (mxj_device s)[unat (devsize s) := (mxj_device s ! unat (devsize s))
      \<lparr>d_id := word_of_int nid, d_type := ty, d_idx := 1, d_registered := 1\<rparr>]"
    using append_dev_ok(3) [OF wf t [unfolded add_xiaomi_def]] .
  have "list_all dev_ok (mxj_device t)"
    using inv len
    by (simp add: dev data_inv_def gateway_typed_def list_all_length nth_list_update)
       (simp add: dev_ok_def)
  with inv tab new append_dev_frame [OF t [unfolded add_xiaomi_def]] show ?thesis
    by (simp add: data_inv_def gateway_typed_def table_wf_def clock_ok_def)
qed

section \<open>What is known of the position that find\_dev returned\<close>

definition found :: "int \<Rightarrow> int \<Rightarrow> gateway \<Rightarrow> bool" where
  "found nid i s \<longleftrightarrow>
     (if i = -1 then nid \<notin> set (dev_ids s)
      else 0 \<le> i \<and> nat i < unat (devsize s) \<and> uint (d_id (mxj_device s ! nat i)) = nid)"

lemma find_dev_found: "table_wf s \<Longrightarrow> found nid (fst (find_dev nid s)) (snd (find_dev nid s))"
proof (cases "nid \<in> set (dev_ids s)")
  case True
  assume wf: "table_wf s"
  then obtain i where i: "i < unat (devsize s)" "uint (d_id (mxj_device s ! i)) = nid"
      "find_dev nid s = (int i, bump_heart i s)"
    using True by (rule find_dev_hitE)
  with wf show ?thesis by (simp add: found_def bump_heart_nth table_wf_def)
next
  case False
  assume "table_wf s"
  with False show ?thesis by (simp add: find_dev_miss found_def)
qed

section \<open>Invariants of the handlers\<close>

text \<open>
  The interface between the message handlers and a property of the state: what the property has to be
  closed under so that every handler keeps it. It is the list of all things a handler does to the
  state. \<open>E\<close> says which faults \<^verbatim>\<open>build_json\<close> may run into from a state with the property; the block that
  registers a new sensor may always fault. The handlers are then proved to keep such a property once
  and for all.
\<close>

definition new_sensor_report :: "byte list \<Rightarrow> byte \<Rightarrow> bool" where
  "new_sensor_report rx len \<longleftrightarrow> rx ! 0 = MXJ_XIAOMI18 \<and> 27 \<le> unat len \<and> rx_cid rx len = 0 \<and>
     uint (rx ! 12) \<le> uint len - 13"

locale handler_inv =
  fixes I :: "gateway \<Rightarrow> bool"
    and dump :: "json \<Rightarrow> string"
    and E :: "c_error \<Rightarrow> gateway \<Rightarrow> bool"
  assumes I_data: "I s \<Longrightarrow> data_inv s"
    and I_read_clock: "I s \<Longrightarrow> I (read_clock s)"
    and I_emit: "I s \<Longrightarrow> I (emit es s)"
    and I_set_state: "I s \<Longrightarrow> I (set_state i k b s)"
    and I_humand: "I s \<Longrightarrow> 0 \<le> h \<Longrightarrow> h \<le> 120 \<Longrightarrow> I (s\<lparr>humand := h\<rparr>)"
    and I_bump: "I s \<Longrightarrow> I (bump_heart i s)"
    and I_build: "triple I (build_json dump) I E"
    and I_register: "0 \<le> nid \<Longrightarrow> nid < 65536 \<Longrightarrow>
      triple (\<lambda>s. I s \<and> nid \<notin> set (dev_ids s)) (block [add_xiaomi nid ty, build_json dump]) I any_fault"
begin

lemma triple_sent: "(\<And>s. c s = Inr (sent m s)) \<Longrightarrow> triple I c I E"
  by (simp add: triple_def sent_def I_emit I_read_clock)

lemma SendCtrl_inv: "unat len \<le> 3 \<Longrightarrow> triple I (MXJ_SendCtrlMessage nid len m1 m2 m3) I E"
  by (rule triple_sent) (rule SendCtrl_sent)

lemma SendRegister_inv:
  "triple I (MXJ_SendRegisterMessage nid MXJ_REGISTER_OK) I E"
  "triple I (MXJ_SendRegisterMessage nid MXJ_REGISTER_FAILED) I E"
  by (rule triple_sent, rule SendRegister_sent)+

lemma GetState_inv: "triple I (MXJ_GetStateMessage nid) I E"
  by (rule triple_sent) (rule Query_sent)

lemma send_usart_inv:
  "unat len \<le> length data \<Longrightarrow> unat len + 2 < TXBUF_SIZE \<Longrightarrow> triple I (send_usart data len) I E"
  by (rule triple_sent) (rule send_usart_frame)

lemma usleep_inv: "triple I (usleep n) I E"
  unfolding usleep_def by (intro triple_modify I_emit)

lemma set_state_inv: "triple I (modify (set_state i k b)) I E"
  by (intro triple_modify I_set_state)

lemma set_state_cur_inv: "triple I (modify (\<lambda>s. set_state i k (g s) s)) I E"
  by (intro triple_modify I_set_state)

lemma humand_inv: "0 \<le> h \<Longrightarrow> h \<le> 120 \<Longrightarrow> triple I (modify (\<lambda>s. s\<lparr>humand := h\<rparr>)) I E"
  by (intro triple_modify I_humand)

lemma read_clock_inv: "triple I (modify read_clock) I E"
  by (intro triple_modify I_read_clock)

text \<open>Whatever the time, a notification about a known event fits its buffer.\<close>

lemma post_alarm_inv:
  "length what \<le> 100 \<Longrightarrow> triple I (reading (\<lambda>s. post_alarm (alarm_text what (tblock s)))) I E"
proof (rule triple_reading)
  fix r
  assume len: "length what \<le> 100"
  have "length (alarm_text what (tblock r)) < ALARM_SIZE" if "I r"
    using len length_alarm_text [of "tblock r" what] I_data [OF that]
    by (simp add: data_inv_def clock_ok_def)
  then show "triple (\<lambda>s. I s \<and> s = r) (post_alarm (alarm_text what (tblock r))) I E"
    by (auto simp: triple_def post_alarm_def I_emit)
qed

lemma finding_triple:
  assumes "\<And>i. triple (\<lambda>s. I s \<and> found nid i s) (f i) I F"
  shows "triple I (finding nid f) I F"
  unfolding triple_def
proof (intro allI impI)
  fix s
  assume inv: "I s"
  obtain i t where f: "find_dev nid s = (i, t)" by (cases "find_dev nid s")
  have wf: "table_wf s" using I_data [OF inv] by (rule data_inv_wf)
  with f inv have "I t" by (auto simp: find_dev_eq I_bump split: if_splits)
  moreover have "found nid i t" using find_dev_found [OF wf, of nid] f by simp
  ultimately show "case finding nid f s of Inl (e, t) \<Rightarrow> F e t | Inr t \<Rightarrow> I t"
    using assms [of i] by (simp add: finding_def f triple_def)
qed

lemma finding_inv: "(\<And>i. triple I (f i) I E) \<Longrightarrow> triple I (finding nid f) I E"
  by (rule finding_triple, rule triple_conseq [where P' = I and Q' = I]) auto

lemmas prim_rules =
  SendCtrl_inv SendRegister_inv GetState_inv send_usart_inv usleep_inv set_state_inv
  set_state_cur_inv humand_inv read_clock_inv post_alarm_inv I_build finding_inv

lemma curtain_inv:
  "triple I (zhuwo_curtain a b c) I E"
  "triple I (keting_curtain x1 x2 x3 x4 y1 y2 y3 y4) I E"
  unfolding zhuwo_curtain_def keting_curtain_def by (intro inv_rules prim_rules; simp)+

lemma double_kick_inv: "triple I (rx_double_kick nid) I E"
  unfolding rx_double_kick_def by (intro inv_rules curtain_inv prim_rules; simp)

lemma single_kick_inv: "triple I (rx_single_kick nid act) I E"
  unfolding rx_single_kick_def by (intro inv_rules curtain_inv prim_rules; simp)

lemma leak_inv: "triple I (rx_leak_ciwo act) I E" "triple I (rx_leak_chufang act) I E"
  unfolding rx_leak_ciwo_def rx_leak_chufang_def
  by (intro inv_rules prim_rules; simp add: alarm_texts)+

lemma door_inv: "triple I (rx_door act) I E"
proof -
  have "triple I (reading (\<lambda>s. post_alarm (alarm_text t_kaimen (tblock s)))) I E"
    "triple I (reading (\<lambda>s. post_alarm (alarm_text t_guanmen (tblock s)))) I E"
    by (intro prim_rules; simp add: alarm_texts)+
  moreover have "triple I (reading (\<lambda>s. post_alarm [])) I E"
    by (simp add: triple_def post_alarm_def I_emit)
  ultimately show ?thesis
    by (cases "act = 1"; cases "act = 0") (simp_all add: rx_door_def)
qed

lemma onoff_inv: "triple I (rx_onoff nid rx) I E"
  unfolding rx_onoff_def by (intro inv_rules double_kick_inv single_kick_inv leak_inv door_inv)

lemma motion_inv: "triple I (rx_motion nid) I E"
  unfolding rx_motion_def by (intro inv_rules prim_rules; simp)

lemma ctrl_up_inv: "triple I (rx_ctrl_up dump nid rx) I E"
  unfolding rx_ctrl_up_def by (intro inv_rules prim_rules; simp)

lemma send_state_inv: "triple I (rx_send_state dump nid rx len) I E"
  unfolding rx_send_state_def by (intro inv_rules prim_rules)

lemma xiaomi_register_inv:
  assumes "0 \<le> nid" "nid < 65536"
  shows "triple (\<lambda>s. I s \<and> nid \<notin> set (dev_ids s)) (rx_xiaomi_register dump after nid rx) I any_fault"
proof (cases "xiaomi_name after rx")
  case (Inl e)
  then show ?thesis by (simp add: rx_xiaomi_register_def triple_fault_any)
next
  case (Inr temp_str)
  have "triple (\<lambda>s. I s \<and> nid \<notin> set (dev_ids s)) skip I any_fault"
    by (simp add: triple_def)
  with Inr I_register [OF assms] show ?thesis
    by (auto simp: rx_xiaomi_register_def)
qed

lemma clusters_inv:
  "triple I (block
      [if cid = 6 then (if len \<noteq> 14 then skip else rx_onoff nid rx)
       else if cid = 0x406 then (if len \<noteq> 14 then skip else rx_motion nid)
       else skip]) I E"
  by (intro inv_rules onoff_inv motion_inv)

lemma xiaomi18_inv:
  assumes "0 \<le> nid" "nid < 65536"
  shows "triple I (rx_xiaomi18 dump after nid cid rx len) I any_fault"
  unfolding rx_xiaomi18_def
proof (rule finding_triple, rule triple_block_Cons)
  fix i
  show "triple (\<lambda>s. I s \<and> found nid i s)
     (if 27 \<le> unat len \<and> cid = 0 \<and> uint (rx ! 12) \<le> uint len - 13 \<and> i = -1
      then rx_xiaomi_register dump after nid rx else skip) I any_fault" (is "triple ?P (if ?c then _ else _) _ _")
  proof (rule triple_if)
    assume "?c"
    then show "triple ?P (rx_xiaomi_register dump after nid rx) I any_fault"
      by (intro triple_conseq [OF xiaomi_register_inv [OF assms]]) (auto simp: found_def)
  next
    show "triple ?P skip I any_fault" by (simp add: triple_def)
  qed
qed (rule triple_any_fault [OF clusters_inv])

text \<open>A report of a sensor that is in the table registers nothing.\<close>

lemma xiaomi18_known_inv:
  assumes "\<not> (27 \<le> unat len \<and> cid = 0 \<and> uint (rx ! 12) \<le> uint len - 13) \<or>
    (\<forall>s. I s \<longrightarrow> nid \<in> set (dev_ids s))"
  shows "triple I (rx_xiaomi18 dump after nid cid rx len) I E"
  unfolding rx_xiaomi18_def
proof (rule finding_triple, rule triple_block_Cons)
  fix i
  show "triple (\<lambda>s. I s \<and> found nid i s)
     (if 27 \<le> unat len \<and> cid = 0 \<and> uint (rx ! 12) \<le> uint len - 13 \<and> i = -1
      then rx_xiaomi_register dump after nid rx else skip) I E"
    using assms by (auto simp: triple_def found_def)
qed (rule clusters_inv)

lemmas message_rules = inv_rules ctrl_up_inv send_state_inv prim_rules

lemma recieve_known_inv:
  assumes "\<not> new_sensor_report rx len \<or> (\<forall>s. I s \<longrightarrow> rx_id rx len \<in> set (dev_ids s))"
  shows "triple I (recieve_usart dump after rx len) I E"
proof (cases "rx ! 0 = MXJ_XIAOMI18")
  case True
  have "triple I (rx_xiaomi18 dump after (rx_id rx len) (rx_cid rx len) rx len) I E"
    using assms True by (intro xiaomi18_known_inv) (auto simp: new_sensor_report_def)
  then have "triple I (block [modify read_clock,
      rx_xiaomi18 dump after (rx_id rx len) (rx_cid rx len) rx len]) I E"
    by (intro inv_rules read_clock_inv)
  with True show ?thesis by (simp add: recieve_usart_def Let_def)
next
  case False
  have skip_if: "triple I (if rx ! 0 = MXJ_XIAOMI18 then c else d) I E" if "triple I d I E" for c d
    using False that by simp
  show ?thesis
    unfolding recieve_usart_def Let_def by (intro skip_if message_rules; simp)
qed

lemma recieve_inv: "triple I (recieve_usart dump after rx len) I any_fault"
proof (cases "rx ! 0 = MXJ_XIAOMI18")
  case True
  have "triple I (block [modify read_clock,
      rx_xiaomi18 dump after (rx_id rx len) (rx_cid rx len) rx len]) I any_fault"
    by (intro inv_rules xiaomi18_inv rx_id_range triple_any_fault [OF read_clock_inv])
  with True show ?thesis by (simp add: recieve_usart_def Let_def)
next
  case False
  then show ?thesis
    by (intro triple_any_fault [OF recieve_known_inv]) (simp add: new_sensor_report_def)
qed

end

section \<open>Two invariants\<close>

lemma build_json_triple: "(\<And>s j. I s \<Longrightarrow> length j < JSON_SIZE \<Longrightarrow> I (s\<lparr>json_str := Some j\<rparr>)) \<Longrightarrow>
  triple I (build_json dump) I any_fault"
  by (rule tripleI) (auto dest!: build_json_length)

lemma register_triple:
  assumes "\<And>s t. I s \<Longrightarrow> nid \<notin> set (dev_ids s) \<Longrightarrow> add_xiaomi nid ty s = Inr t \<Longrightarrow> I t"
    and "triple I (build_json dump) I any_fault"
  shows "triple (\<lambda>s. I s \<and> nid \<notin> set (dev_ids s)) (block [add_xiaomi nid ty, build_json dump]) I any_fault"
proof (rule triple_block_Cons)
  show "triple (\<lambda>s. I s \<and> nid \<notin> set (dev_ids s)) (add_xiaomi nid ty) I any_fault"
    using assms(1) by (intro tripleI) auto
  show "triple I (block [build_json dump]) I any_fault"
    by (intro inv_rules assms(2))
qed

lemma data_inv_build_json: "triple data_inv (build_json dump) data_inv any_fault"
  by (rule build_json_triple) (rule data_inv_json)

interpretation data: handler_inv data_inv dump any_fault for dump
  by unfold_locales
    (auto intro: data_inv_read_clock data_inv_emit data_inv_set_state data_inv_humand
      data_inv_bump_heart data_inv_build_json register_triple data_inv_add_xiaomi)

text \<open>The handlers leave the receiver alone.\<close>

definition rx_view :: "gateway \<Rightarrow> byte list \<times> byte \<times> byte \<times> byte \<times> byte \<times> byte" where
  "rx_view s = (rxbuf s, rx_state s, LEN_Token s, tempDataLen s, FSC_Token s, rx_len s)"

lemma rx_view_build_json:
  "triple (\<lambda>s. data_inv s \<and> rx_view s = v) (build_json dump) (\<lambda>s. data_inv s \<and> rx_view s = v) any_fault"
  by (rule build_json_triple) (auto simp: rx_view_def intro: data_inv_json)

lemma rx_view_same [simp]:
  "rx_view (read_clock s) = rx_view s" "rx_view (emit es s) = rx_view s"
  "rx_view (set_state i k b s) = rx_view s" "rx_view (s\<lparr>humand := h\<rparr>) = rx_view s"
  "rx_view (bump_heart i s) = rx_view s"
  by (simp_all add: rx_view_def)

lemma rx_view_register:
  assumes "0 \<le> nid" "nid < 65536"
  shows "triple (\<lambda>s. (data_inv s \<and> rx_view s = v) \<and> nid \<notin> set (dev_ids s))
    (block [add_xiaomi nid ty, build_json dump]) (\<lambda>s. data_inv s \<and> rx_view s = v) any_fault"
proof (rule register_triple [OF _ rx_view_build_json])
  fix s t
  assume s: "data_inv s \<and> rx_view s = v" "nid \<notin> set (dev_ids s)" and t: "add_xiaomi nid ty s = Inr t"
  with assms have "data_inv t" by (auto intro: data_inv_add_xiaomi)
  moreover have "rx_view t = v" using s(1) add_xiaomi_frame [OF t] by (simp add: rx_view_def)
  ultimately show "data_inv t \<and> rx_view t = v" by blast
qed

interpretation receiver: handler_inv "\<lambda>s. data_inv s \<and> rx_view s = v" dump any_fault for v dump
  by unfold_locales
    ((rule rx_view_register rx_view_build_json; assumption) |
     simp add: data_inv_read_clock data_inv_emit data_inv_set_state data_inv_humand data_inv_bump_heart
       rx_view_build_json)+

lemma recieve_usart_rx_view:
  "data_inv s \<Longrightarrow> recieve_usart dump after rx len s = Inr t \<Longrightarrow> rx_view t = rx_view s"
  using triple_Inr [OF receiver.recieve_inv [of "rx_view s"]] by blast

end
