(* ===== verification/Zb_Thread.thy ===== *)
theory Zb_Thread
  imports Zb_Receive
begin

text \<open>
  The serial thread of \<^verbatim>\<open>zbclient.c\<close>: the state machine that takes the bytes from the serial port,
  recognises frames, checks their sum and hands the message to \<^verbatim>\<open>recieve_usart\<close>. \<open>thread_byte\<close> is one
  round of its \<^verbatim>\<open>while (1)\<close> loop.
\<close>

section \<open>The state machine\<close>

definition write_rxbuf :: "nat \<Rightarrow> byte \<Rightarrow> gateway cmd" where
  "write_rxbuf i b s =
     (if i < length (rxbuf s) then Inr (s\<lparr>rxbuf := (rxbuf s)[i := b]\<rparr>) else Inl (OutOfBounds, s))"

definition goto_state :: "byte \<Rightarrow> gateway cmd" where
  "goto_state q = modify (\<lambda>s. s\<lparr>rx_state := q\<rparr>)"

definition st_cmd :: "byte \<Rightarrow> gateway cmd" where
  "st_cmd ch = block [write_rxbuf 0 ch, goto_state LEN_STATE]"

definition st_len :: "byte \<Rightarrow> gateway cmd" where
  "st_len ch = block
     [modify (\<lambda>s. s\<lparr>LEN_Token := ch, tempDataLen := 0\<rparr>),
      write_rxbuf 1 ch,
      goto_state DATA_STATE]"

definition st_data :: "byte \<Rightarrow> gateway cmd" where
  "st_data ch = block
     [reading (\<lambda>s. write_rxbuf (2 + unat (tempDataLen s)) ch),
      modify (\<lambda>s. s\<lparr>tempDataLen := tempDataLen s + 1\<rparr>),
      reading (\<lambda>s. if uint (tempDataLen s) = uint (LEN_Token s) - 1 then goto_state FCS_STATE else skip)]"

text \<open>
  The handler a checked message goes to: it gets the receive buffer and the length of the message.
\<close>

type_synonym handler = "byte list \<Rightarrow> byte \<Rightarrow> gateway cmd"

definition st_fcs :: "handler \<Rightarrow> byte \<Rightarrow> gateway cmd" where
  "st_fcs h ch = block
     [modify (\<lambda>s. s\<lparr>FSC_Token := ch\<rparr>),
      reading (\<lambda>s.
        case crc_loop 0 (1 + unat (LEN_Token s)) (rxbuf s) 0 of
          Inl e \<Rightarrow> fault e
        | Inr crcout \<Rightarrow> block
            [write_rxbuf (unat (LEN_Token s) + 1) crcout,
             if crcout = FSC_Token s
             then block
               [modify (\<lambda>s. s\<lparr>rx_len := LEN_Token s + 1\<rparr>),
                reading (\<lambda>s. h (rxbuf s) (LEN_Token s + 1))]
             else skip]),
      goto_state WW_STATE]"

definition thread_round :: "handler \<Rightarrow> byte \<Rightarrow> gateway cmd" where
  "thread_round h ch = reading (\<lambda>s.
     if rx_state s = WW_STATE then (if ch = 0x55 then goto_state AA_STATE else skip)
     else if rx_state s = AA_STATE
       then (if ch = 0xaa then goto_state CMD_STATE1 else goto_state WW_STATE)
     else if rx_state s = CMD_STATE1 then st_cmd ch
     else if rx_state s = LEN_STATE then st_len ch
     else if rx_state s = DATA_STATE then st_data ch
     else if rx_state s = FCS_STATE then st_fcs h ch
     else goto_state WW_STATE)"

definition thread_byte :: "(json \<Rightarrow> string) \<Rightarrow> string \<Rightarrow> byte \<Rightarrow> gateway cmd" where
  "thread_byte dump after = thread_round (recieve_usart dump after)"

section \<open>Reading one frame\<close>

text \<open>
  The state in which a message has arrived completely: it stands at the head of the buffer.
\<close>

definition loaded :: "byte list \<Rightarrow> byte list \<Rightarrow> gateway \<Rightarrow> gateway" where
  "loaded m rest s = s\<lparr>rx_state := (if rest = [] then FCS_STATE else DATA_STATE),
     LEN_Token := m ! 1, tempDataLen := of_nat (length m - 2), rxbuf := fill m (rxbuf s)\<rparr>"

text \<open>The data bytes of a message, one round of the loop each.\<close>

lemma feed_data:
  assumes "msg_ok RXBUF_SIZE (m @ rest)" and "2 \<le> length m" and "length (rxbuf s) = RXBUF_SIZE"
    and "rest \<noteq> []"
  shows "feed (thread_round h) rest (loaded m rest s) = Inr (loaded (m @ rest) [] s)"
  using assms
proof (induction rest arbitrary: m)
  case Nil
  then show ?case by simp
next
  case (Cons b rest)
  have len: "length m + length rest + 1 < 200" "unat (m ! 1) = length m + length rest"
    using Cons.prems(1,2) by (auto simp: msg_ok_def nth_append)
  let ?n = "length m - 2"
  have n: "2 + ?n = length m" "?n < 256" using Cons.prems(2) len(1) by auto
  have tdl: "unat (of_nat ?n :: byte) = ?n" using n(2) by (rule unat_of_nat_byte)
  have inc: "(of_nat ?n :: byte) + 1 = of_nat (length (m @ [b]) - 2)"
    using Cons.prems(2) by (simp add: Suc_diff_le)
  have cond: "uint (of_nat (length (m @ [b]) - 2) :: byte) = uint (m ! 1) - 1 \<longleftrightarrow> rest = []"
  proof -
    have "uint (of_nat (length (m @ [b]) - 2) :: byte) = int (length m - 1)"
      using Cons.prems(2) len(1) uint_of_nat_byte [of "length m - 1"] by (simp add: Suc_diff_le)
    moreover have "uint (m ! 1) = int (length m + length rest)"
      using len(2) by (metis uint_nat)
    ultimately show ?thesis using Cons.prems(2) by auto
  qed
  have m1: "(m @ [b]) ! 1 = m ! 1" using Cons.prems(2) by (simp add: nth_append)
  have buf: "length (fill m (rxbuf s)) = 200" "length m < length (rxbuf s)"
    using Cons.prems(3) len(1) by (simp_all add: length_fill)
  have step: "thread_round h b (loaded m (b # rest) s) = Inr (loaded (m @ [b]) rest s)"
    using cond inc m1 buf tdl n(1) len(1)
    by (simp add: thread_round_def loaded_def st_data_def write_rxbuf_def goto_state_def fill_snoc)
  show ?case
  proof (cases "rest = []")
    case True
    with step show ?thesis by simp
  next
    case False
    have "feed (thread_round h) rest (loaded (m @ [b]) rest s) = Inr (loaded ((m @ [b]) @ rest) [] s)"
      using Cons.prems False by (intro Cons.IH) auto
    with step show ?thesis by simp
  qed
qed

text \<open>
  What a complete message \<open>m\<close> does: it stands at the head of the buffer with its sum behind it, and
  \<^verbatim>\<open>recieve_usart\<close> gets it with its length; afterwards the receiver waits for the next frame.
\<close>

definition arrived :: "byte list \<Rightarrow> gateway \<Rightarrow> gateway" where
  "arrived m s = s\<lparr>rx_state := FCS_STATE, LEN_Token := m ! 1,
     tempDataLen := of_nat (length m - 2), FSC_Token := sum_list m,
     rxbuf := fill (m @ [sum_list m]) (rxbuf s), rx_len := m ! 1 + 1\<rparr>"

definition handing :: "handler \<Rightarrow> byte list \<Rightarrow> gateway cmd" where
  "handing h m s = block [h (rxbuf (arrived m s)) (m ! 1 + 1), goto_state WW_STATE] (arrived m s)"

definition deliver :: "(json \<Rightarrow> string) \<Rightarrow> string \<Rightarrow> byte list \<Rightarrow> gateway cmd" where
  "deliver dump after = handing (recieve_usart dump after)"

definition idle :: "gateway \<Rightarrow> bool" where
  "idle s \<longleftrightarrow> rx_state s = WW_STATE \<and> data_inv s"

lemma data_inv_rx:
  "data_inv s \<Longrightarrow> length buf = RXBUF_SIZE \<Longrightarrow>
   data_inv (s\<lparr>rx_state := q, LEN_Token := l, tempDataLen := n, FSC_Token := c, rxbuf := buf, rx_len := r\<rparr>)"
  by (simp add: data_inv_def gateway_typed_def table_wf_def dev_ids_def clock_ok_def)

lemma data_inv_goto: "data_inv s \<Longrightarrow> data_inv (s\<lparr>rx_state := q\<rparr>)"
  by (simp add: data_inv_def gateway_typed_def table_wf_def dev_ids_def clock_ok_def)

lemma data_inv_arrived: "data_inv s \<Longrightarrow> msg_ok RXBUF_SIZE m \<Longrightarrow> data_inv (arrived m s)"
  unfolding arrived_def
  by (rule data_inv_rx) (auto simp: data_inv_def gateway_typed_def msg_ok_def length_fill)

lemma feed_header:
  assumes "rx_state s = WW_STATE" and "2 \<le> length (rxbuf s)" and "rest \<noteq> []"
  shows "feed (thread_round h) [0x55, 0xaa, c, l] s = Inr (loaded [c, l] rest s)"
proof -
  obtain x y r where "rxbuf s = x # y # r"
    using assms(2) by (metis Suc_le_length_iff numeral_2_eq_2)
  with assms show ?thesis
    by (simp add: thread_round_def goto_state_def st_cmd_def st_len_def write_rxbuf_def loaded_def fill_def)
qed

lemma feed_checksum:
  assumes "msg_ok RXBUF_SIZE m" and "length (rxbuf s) = RXBUF_SIZE"
  shows "thread_round h (sum_list m) (loaded m [] s) = handing h m s"
proof -
  have n: "1 + unat (m ! 1) = length m" "Suc (unat (m ! 1)) = length m" "length m < 200"
    using assms(1) by (auto simp: msg_ok_def)
  have "crc_loop 0 (length m) (fill m (rxbuf s)) 0 = Inr (sum_list m)"
    using n(3) assms(2) by (simp add: crc_loop_ok length_fill take_fill)
  with n assms(2) show ?thesis
    by (simp add: thread_round_def loaded_def st_fcs_def write_rxbuf_def length_fill fill_snoc
        handing_def arrived_def split: sum.split)
qed

lemma feed_frame:
  assumes "idle s" and "msg_ok RXBUF_SIZE m"
  shows "feed (thread_round h) (frame m) s = handing h m s"
proof -
  have buf: "length (rxbuf s) = RXBUF_SIZE" and ww: "rx_state s = WW_STATE"
    using assms(1) by (auto simp: idle_def data_inv_def gateway_typed_def)
  obtain c l rest where m: "m = [c, l] @ rest" and rest: "rest \<noteq> []"
    using assms(2) by (auto simp: msg_ok_def Suc_le_length_iff eval_nat_numeral)
  have "feed (thread_round h) (frame m) s =
      feed (thread_round h) (([0x55, 0xaa, c, l] @ rest) @ [sum_list m]) s"
    by (simp add: frame_def m)
  also have "\<dots> = feed (thread_round h) [sum_list m] (loaded ([c, l] @ rest) [] s)"
  proof -
    have "feed (thread_round h) [0x55, 0xaa, c, l] s = Inr (loaded [c, l] rest s)"
      using ww buf rest by (intro feed_header) simp_all
    moreover have "feed (thread_round h) rest (loaded [c, l] rest s) = Inr (loaded ([c, l] @ rest) [] s)"
      using assms(2) buf rest m by (intro feed_data) simp_all
    ultimately show ?thesis by (simp only: feed_append sum.case)
  qed
  also have "\<dots> = handing h m s"
    using feed_checksum [OF assms(2) buf] m by (simp split: sum.split)
  finally show ?thesis .
qed

lemma handing_idle:
  assumes h: "\<And>rx len. triple data_inv (h rx len) data_inv any_fault"
    and "idle s" and "msg_ok RXBUF_SIZE m" and "handing h m s = Inr t"
  shows "idle t"
proof -
  have inv: "data_inv (arrived m s)"
    using assms(2,3) by (auto simp: idle_def intro: data_inv_arrived)
  have "triple data_inv (block [h (rxbuf (arrived m s)) (m ! 1 + 1), goto_state WW_STATE]) data_inv any_fault"
    by (intro inv_rules h) (auto simp: goto_state_def intro!: triple_modify data_inv_goto)
  from triple_Inr [OF this inv] assms(4) have "data_inv t" by (simp add: handing_def)
  moreover from assms(4) have "rx_state t = WW_STATE"
    by (auto simp: handing_def goto_state_def split: sum.splits)
  ultimately show ?thesis by (simp add: idle_def)
qed

text \<open>Every handler that keeps the data makes a receiver.\<close>

lemma round_receiver:
  assumes "\<And>rx len. triple data_inv (h rx len) data_inv any_fault"
  shows "frame_receiver (thread_round h) idle (handing h) 0x55 frame (msg_ok 200)"
proof unfold_locales
  show "idle s \<Longrightarrow> b \<noteq> 0x55 \<Longrightarrow> thread_round h b s = Inr s" for s b
    by (simp add: idle_def thread_round_def)
  show "idle s \<Longrightarrow> msg_ok 200 m \<Longrightarrow> feed (thread_round h) (frame m) s = handing h m s" for s m
    using feed_frame by simp
  show "idle s \<Longrightarrow> msg_ok 200 m \<Longrightarrow> handing h m s = Inr t \<Longrightarrow> idle t" for s m t
    using handing_idle [OF assms] by simp
qed

interpretation zb_link: frame_receiver "thread_byte dump after" idle "deliver dump after" "0x55" frame "msg_ok 200" for dump after
  unfolding thread_byte_def deliver_def by (rule round_receiver) (rule data.recieve_inv)

end
