(* ===== verification/Zb_Main.thy ===== *)
theory Zb_Main
  imports Zb_Thread
begin

text \<open>
  \<^verbatim>\<open>main\<close> of \<^verbatim>\<open>zbclient.c\<close>: the set-up calls and their early returns, the table of known devices, and one
  round of the endless loop, which runs once a second: the periodic check for silent leak sensors and the
  countdown that switches the kitchen light off.
\<close>

section \<open>Start\<close>

text \<open>What the set-up calls return; the wiringPi, pthread, curl and libmicrohttpd libraries decide it.\<close>

record setup_env =
  json_calloc :: bool         \<comment> \<open>\<^verbatim>\<open>calloc (2000, 1)\<close> succeeds\<close>
  wiringPiSetup_ret :: int
  serialOpen_ret :: int
  pthread_create_ret :: int
  curl_easy_init_ok :: bool   \<comment> \<open>\<^verbatim>\<open>curl_easy_init\<close> returns a handle\<close>
  MHD_start_ok :: bool        \<comment> \<open>\<^verbatim>\<open>MHD_start_daemon\<close> returns a daemon\<close>

text \<open>The value \<^verbatim>\<open>main\<close> returns when a set-up call fails, \<open>None\<close> when it goes on.\<close>

definition main_setup :: "setup_env \<Rightarrow> int option" where
  "main_setup e =
     (if wiringPiSetup_ret e < 0 then Some 1
      else if serialOpen_ret e < 0 then Some 1
      else if pthread_create_ret e \<noteq> 0 then Some 1
      else if \<not> curl_easy_init_ok e then Some 1
      else if \<not> MHD_start_ok e then Some 1
      else None)"

text \<open>The globals as static storage and the declarations initialise them, for a course of time.\<close>

definition initial :: "(nat \<Rightarrow> tm) \<Rightarrow> gateway" where
  "initial cl = \<lparr>mxj_device = replicate DEV_SIZE no_device, devsize = 0, rx_state = WW_STATE,
     LEN_Token = 0, FSC_Token = 0, tempDataLen = 0, rxbuf = replicate RXBUF_SIZE 0, rx_len = 0,
     humand = 0, permitjoin = 0, post_type = 0, strxml = [], json_str = None,
     tblock = cl 0, clock = cl, reads = 0, out = []\<rparr>"

definition reg_dev :: "u16 \<Rightarrow> byte \<Rightarrow> byte \<Rightarrow> string \<Rightarrow> gateway cmd" where
  "reg_dev nid ty ix nm = append_dev (\<lambda>d. d\<lparr>d_id := nid, d_type := ty, d_idx := ix,
     d_heart := 0, d_name := Some nm, d_registered := 1\<rparr>)"

definition boot_lights :: "gateway cmd" where
  "boot_lights = block
     [reg_dev KETING_ID 4 1 n_keting,
      reg_dev CANTING_ID 4 1 n_canting,
      reg_dev CHUFANG_ID 4 1 n_chufang,
      reg_dev MENTING_ID 4 1 n_menting,
      reg_dev GUODAO_ID 4 3 n_guodao,
      reg_dev ZHUWO_ID 4 1 n_zhuwo,
      reg_dev CIWO_ID 4 1 n_ciwo]"

definition boot_sensors :: "gateway cmd" where
  "boot_sensors = block
     [reg_dev XMKG_ZHU_ID 14 1 n_xmkg_zhu,
      reg_dev XMKG_CI_ID 14 1 n_xmkg_ci,
      reg_dev XMMENCI_ID 10 1 n_xmmenci,
      reg_dev XIAOMIRENTI_ID 3 1 n_xiaomirenti,
      reg_dev XMKG_WAI_ID 14 1 n_xmkg_wai,
      reg_dev XMLOUSHUI_CIWO_ID 10 1 n_loushui_ciwo,
      reg_dev XMLOUSHUI_CHUFANG_ID 10 1 n_loushui_chufang,
      reg_dev POWER_CIWO_ID 6 1 n_power_ciwo]"

definition boot_curtains :: "gateway cmd" where
  "boot_curtains = block
     [reg_dev CHUANGLIAN_ZHUWO_ID 4 3 n_chuanglian_zhuwo,
      reg_dev CHUANGLIAN_KETING1_ID 4 2 n_chuanglian_keting1,
      reg_dev XMKG_CL_KETING1_ID 4 2 n_xmkg_cl_keting1,
      reg_dev XMKG_CL_KETING2_ID 4 2 n_xmkg_cl_keting2]"

text \<open>From the set-up to the loop: the start notification, the table, a query for all states.\<close>

definition main_boot :: "(json \<Rightarrow> string) \<Rightarrow> gateway cmd" where
  "main_boot dump = block
     [modify read_clock,
      reading (\<lambda>s. post_alarm (alarm_text t_qidong (tblock s))),
      boot_lights, boot_sensors, boot_curtains,
      MXJ_GetStateMessage 0xffff,
      build_json dump]"

text \<open>
  \<^verbatim>\<open>main\<close> up to its loop: \<open>Some r\<close> when it returned \<open>r\<close> because a set-up call failed, \<open>None\<close> when the loop
  is reached.
\<close>

definition main_start ::
    "(json \<Rightarrow> string) \<Rightarrow> setup_env \<Rightarrow> gateway \<Rightarrow> (c_error \<times> gateway) + int option \<times> gateway" where
  "main_start dump e s =
     (let s = s\<lparr>json_str := (if json_calloc e then Some [] else None)\<rparr>
      in case main_setup e of
           Some r \<Rightarrow> Inr (Some r, s)
         | None \<Rightarrow> (case main_boot dump s of Inl f \<Rightarrow> Inl f | Inr t \<Rightarrow> Inr (None, t)))"

section \<open>The loop\<close>

record main_t =
  gw :: gateway
  flag_hour :: int
  jcount :: int

definition on_gw :: "gateway cmd \<Rightarrow> main_t cmd" where
  "on_gw c m = (case c (gw m) of Inl (e, s) \<Rightarrow> Inl (e, m\<lparr>gw := s\<rparr>) | Inr s \<Rightarrow> Inr (m\<lparr>gw := s\<rparr>))"

definition leak_sensor :: "u16 \<Rightarrow> bool" where
  "leak_sensor nid \<longleftrightarrow> nid = XMLOUSHUI_CHUFANG_ID \<or> nid = XMLOUSHUI_CIWO_ID"

definition offline_text :: "string \<Rightarrow> u16 \<Rightarrow> tm \<Rightarrow> string" where
  "offline_text nm nid t = alarm_text (t_shebei @ nm @ '' ID:'' @ dec (uint nid) @ t_lixian) t"

definition offline_dev :: "nat \<Rightarrow> gateway cmd" where
  "offline_dev i = reading (\<lambda>s.
     let d = mxj_device s ! i
     in if d_heart d = 0 \<and> leak_sensor (d_id d)
        then (case d_name d of
                None \<Rightarrow> fault NullDeref
              | Some nm \<Rightarrow> post_alarm (offline_text nm (d_id d) (tblock s)))
        else modify (\<lambda>s. s\<lparr>mxj_device := (mxj_device s)[i := d\<lparr>d_heart := 0\<rparr>]\<rparr>))"

definition offline_check :: "gateway cmd" where
  "offline_check = reading (\<lambda>s. block (map offline_dev [0..<unat (devsize s)]))"

definition countdown :: "gateway cmd" where
  "countdown = block
     [reading (\<lambda>s. if humand s = 1 then MXJ_SendCtrlMessage CHUFANG_ID 3 0 0 0 else skip),
      reading (\<lambda>s. if humand s > 0 then modify (\<lambda>s. s\<lparr>humand := humand s - 1\<rparr>) else skip)]"

definition main_tick :: "main_t cmd" where
  "main_tick = block
     [modify (\<lambda>m. m\<lparr>flag_hour := flag_hour m + 1\<rparr>),
      reading (\<lambda>m. if flag_hour m \<ge> 7500
                   then block [modify (\<lambda>m. m\<lparr>flag_hour := 0\<rparr>), on_gw offline_check]
                   else skip),
      modify (\<lambda>m. m\<lparr>jcount := jcount m + 1\<rparr>),
      reading (\<lambda>m. if jcount m > 20 then modify (\<lambda>m. m\<lparr>jcount := 0\<rparr>) else skip),
      on_gw (usleep 1000000),
      on_gw countdown]"

section \<open>The table after the start\<close>

definition mk_dev :: "u16 \<times> byte \<times> byte \<times> string \<Rightarrow> mxj_device_t" where
  "mk_dev p = (case p of (nid, ty, ix, nm) \<Rightarrow>
     no_device\<lparr>d_id := nid, d_type := ty, d_idx := ix, d_heart := 0, d_name := Some nm, d_registered := 1\<rparr>)"

definition boot_list :: "(u16 \<times> byte \<times> byte \<times> string) list" where
  "boot_list =
     [(KETING_ID, 4, 1, n_keting), (CANTING_ID, 4, 1, n_canting), (CHUFANG_ID, 4, 1, n_chufang),
      (MENTING_ID, 4, 1, n_menting), (GUODAO_ID, 4, 3, n_guodao), (ZHUWO_ID, 4, 1, n_zhuwo),
      (CIWO_ID, 4, 1, n_ciwo), (XMKG_ZHU_ID, 14, 1, n_xmkg_zhu), (XMKG_CI_ID, 14, 1, n_xmkg_ci),
      (XMMENCI_ID, 10, 1, n_xmmenci), (XIAOMIRENTI_ID, 3, 1, n_xiaomirenti),
      (XMKG_WAI_ID, 14, 1, n_xmkg_wai), (XMLOUSHUI_CIWO_ID, 10, 1, n_loushui_ciwo),
      (XMLOUSHUI_CHUFANG_ID, 10, 1, n_loushui_chufang), (POWER_CIWO_ID, 6, 1, n_power_ciwo),
      (CHUANGLIAN_ZHUWO_ID, 4, 3, n_chuanglian_zhuwo), (CHUANGLIAN_KETING1_ID, 4, 2, n_chuanglian_keting1),
      (XMKG_CL_KETING1_ID, 4, 2, n_xmkg_cl_keting1), (XMKG_CL_KETING2_ID, 4, 2, n_xmkg_cl_keting2)]"

text \<open>A table whose first \<open>n\<close> entries are in use and whose others were never written.\<close>

definition fresh_from :: "nat \<Rightarrow> gateway \<Rightarrow> bool" where
  "fresh_from n s \<longleftrightarrow> table_wf s \<and> unat (devsize s) = n \<and>
     (\<forall>i. n \<le> i \<and> i < DEV_SIZE \<longrightarrow> mxj_device s ! i = no_device)"

definition only_table :: "gateway \<Rightarrow> gateway \<Rightarrow> bool" where
  "only_table s t \<longleftrightarrow> (\<exists>ds n. t = s\<lparr>mxj_device := ds, devsize := n\<rparr>)"

lemma reg_dev_fresh:
  assumes fr: "fresh_from n s" and n: "n < DEV_SIZE"
  obtains t where "reg_dev nid ty ix nm s = Inr t" "only_table s t" "fresh_from (Suc n) t"
    "live_devs t = live_devs s @ [mk_dev (nid, ty, ix, nm)]"
proof -
  let ?d = "mk_dev (nid, ty, ix, nm)"
  let ?t = "s\<lparr>mxj_device := (mxj_device s)[n := ?d], devsize := devsize s + 1\<rparr>"
  have wf: "table_wf s" "unat (devsize s) = n" "length (mxj_device s) = 200" and nd: "mxj_device s ! n = no_device"
    using fr n by (auto simp: fresh_from_def table_wf_def)
  have inc: "unat (devsize s + 1) = Suc n" using wf(2) n unat_Suc_byte [of "devsize s"] by simp
  show thesis
  proof
    show "reg_dev nid ty ix nm s = Inr ?t"
      using wf n nd by (simp add: reg_dev_def append_dev_def mk_dev_def)
    show "only_table s ?t" unfolding only_table_def by blast
    show "fresh_from (Suc n) ?t"
      using fr inc n by (auto simp: fresh_from_def table_wf_def)
    show "live_devs ?t = live_devs s @ [?d]"
      using inc wf n by (simp add: live_devs_def take_Suc_conv_app_nth)
  qed
qed

lemma only_table_refl: "only_table s s"
  unfolding only_table_def by (intro exI [of _ "mxj_device s"] exI [of _ "devsize s"]) simp

lemma only_table_trans:
  assumes "only_table s t" and "only_table t u"
  shows "only_table s u"
proof -
  from assms obtain ds n ds' n' where "t = s\<lparr>mxj_device := ds, devsize := n\<rparr>"
    "u = t\<lparr>mxj_device := ds', devsize := n'\<rparr>"
    unfolding only_table_def by blast
  then have "u = s\<lparr>mxj_device := ds', devsize := n'\<rparr>" by simp
  then show ?thesis unfolding only_table_def by blast
qed

lemma reg_list_fresh:
  "fresh_from n s \<Longrightarrow> n + length ps \<le> DEV_SIZE \<Longrightarrow>
   \<exists>t. block (map (\<lambda>(nid, ty, ix, nm). reg_dev nid ty ix nm) ps) s = Inr t \<and> only_table s t \<and>
     fresh_from (n + length ps) t \<and> live_devs t = live_devs s @ map mk_dev ps"
proof (induction ps arbitrary: n s)
  case Nil
  then show ?case by (simp add: only_table_refl)
next
  case (Cons p ps)
  obtain nid ty ix nm where p: "p = (nid, ty, ix, nm)" by (cases p)
  have "n < DEV_SIZE" using Cons.prems(2) by simp
  with Cons.prems(1) obtain t where t: "reg_dev nid ty ix nm s = Inr t" "only_table s t"
      "fresh_from (Suc n) t" "live_devs t = live_devs s @ [mk_dev p]"
    unfolding p by (rule reg_dev_fresh)
  have "Suc n + length ps \<le> DEV_SIZE" using Cons.prems(2) by simp
  from Cons.IH [OF t(3) this] obtain u where
    u: "block (map (\<lambda>(nid, ty, ix, nm). reg_dev nid ty ix nm) ps) t = Inr u" "only_table t u"
      "fresh_from (Suc n + length ps) u" "live_devs u = live_devs t @ map mk_dev ps"
    by blast
  have "only_table s u" using t(2) u(2) by (rule only_table_trans)
  with t u p show ?case by auto
qed

definition reg_all :: "(u16 \<times> byte \<times> byte \<times> string) list \<Rightarrow> gateway cmd" where
  "reg_all ps = block (map (\<lambda>(nid, ty, ix, nm). reg_dev nid ty ix nm) ps)"

lemma boot_blocks: "block [boot_lights, boot_sensors, boot_curtains] s = reg_all boot_list s"
  by (simp add: reg_all_def boot_lights_def boot_sensors_def boot_curtains_def boot_list_def split: sum.split)

section \<open>Room for the rendered table\<close>

text \<open>
  What the size of the buffers relies on: json-c renders the object of a device (\<^verbatim>\<open>{ "id": 65535,
  "nameChinese": "...", "type": 255, "status": [ 255, 255, 255 ] }\<close>) with at most 76 characters besides
  the name, and 22 more for the name of a room, when the name has no character that JSON escapes.
\<close>

definition plain :: "string \<Rightarrow> bool" where
  "plain nm \<longleftrightarrow>
     list_all (\<lambda>c. 32 \<le> (of_char c :: nat) \<and> c \<noteq> CHR 0x22 \<and> c \<noteq> CHR 0x5C \<and> c \<noteq> CHR ''/'') nm"

definition dump_bound :: "(json \<Rightarrow> string) \<Rightarrow> bool" where
  "dump_bound dump \<longleftrightarrow>
     (\<forall>nm d. plain nm \<longrightarrow>
        length (dump (dev_obj nm d)) \<le> 76 + length nm + (if name_field (d_id d) = [] then 0 else 22))"

definition text_weight :: "u16 \<times> string option \<Rightarrow> nat" where
  "text_weight p = 77 + length (the (snd p)) + (if name_field (fst p) = [] then 0 else 22)"

definition id_name :: "mxj_device_t \<Rightarrow> u16 \<times> string option" where
  "id_name d = (d_id d, d_name d)"

definition plain_name :: "u16 \<times> string option \<Rightarrow> bool" where
  "plain_name p \<longleftrightarrow> (case snd p of None \<Rightarrow> False | Some nm \<Rightarrow> plain nm)"

lemma length_dev_text:
  assumes "dump_bound dump" and "plain_name (id_name d)"
  shows "length (dev_text dump d) + 1 \<le> text_weight (id_name d)"
proof -
  have "plain (the (d_name d))"
    using assms(2) by (auto simp: plain_name_def id_name_def split: option.splits)
  with assms(1) have "length (dump (dev_obj (the (d_name d)) d)) \<le>
      76 + length (the (d_name d)) + (if name_field (d_id d) = [] then 0 else 22)"
    unfolding dump_bound_def by blast
  then show ?thesis by (simp add: dev_text_def text_weight_def id_name_def)
qed

lemma length_devs_text:
  assumes "\<And>d. plain_name (id_name d) \<Longrightarrow> length (dev_text dump d) + 1 \<le> w (id_name d)"
  shows "list_all plain_name (map id_name ds) \<Longrightarrow>
    length (devs_text dump ds) \<le> 1 + sum_list (map w (map id_name ds))"
proof (induction ds rule: induct_list012)
  case (2 d)
  then show ?case using assms [of d] by simp
next
  case (3 d e ds)
  then show ?case using assms [of d] by simp
qed simp

lemma json_fits_weight:
  assumes "\<And>d. plain_name (id_name d) \<Longrightarrow> length (dev_text dump d) + 1 \<le> w (id_name d)"
    and "list_all plain_name (map id_name (live_devs s))"
    and "sum_list (map w (map id_name (live_devs s))) \<le> 1986"
  shows "length (json_text dump s) < JSON_SIZE"
  using length_devs_text [OF assms(1,2)] assms(3) by (simp add: json_text_def)

lemma json_fits:
  assumes "dump_bound dump" and "list_all plain_name (map id_name (live_devs s))"
    and "sum_list (map text_weight (map id_name (live_devs s))) \<le> 1986"
  shows "length (json_text dump s) < JSON_SIZE"
  by (rule json_fits_weight [OF length_dev_text [OF assms(1)] assms(2,3)])

definition boot_names :: "(u16 \<times> string option) list" where
  "boot_names = map (id_name \<circ> mk_dev) boot_list"

lemma boot_names_list: "boot_names = map (\<lambda>(nid, _, _, nm). (nid, Some nm)) boot_list"
  by (simp add: boot_names_def boot_list_def id_name_def mk_dev_def)

lemma boot_weight: "sum_list (map text_weight boot_names) \<le> 1986"
  by (simp add: boot_names_list boot_list_def text_weight_def name_field_def name_texts)

lemma boot_plain: "list_all plain_name boot_names"
  by (simp add: boot_names_list boot_list_def plain_name_def plain_def name_texts)

lemma boot_ids_distinct: "distinct (map (\<lambda>p. uint (fst p)) boot_names)"
  by (simp add: boot_names_list boot_list_def)

lemma named_by_id_name: "list_all plain_name (map id_name ds) \<Longrightarrow> list_all named ds"
  by (auto simp: list_all_iff named_def id_name_def plain_name_def split: option.splits)

text \<open>The table of the known devices is always rendered, whatever states the devices report.\<close>

lemma boot_json_ok:
  assumes "dump_bound dump" and "table_wf s" and "map id_name (live_devs s) = boot_names"
    and "json_str s = Some j"
  shows "build_json dump s = Inr (s\<lparr>json_str := Some (json_text dump s)\<rparr>)"
  using build_json_eq [OF named_by_id_name assms(4,2)] json_fits [OF assms(1), of s]
    boot_weight boot_plain assms(3) by simp

end
