(* ===== verification/Zb_Home.thy ===== *)
theory Zb_Home
  imports Zb_Main
begin

text \<open>
  The gateway from its start on: the table \<^verbatim>\<open>main\<close> fills, the invariant \<open>home_inv\<close> of the running program,
  which says that the table still lists exactly the known devices, and that the start, the messages,
  the bytes of the serial line and the rounds of the main loop establish and keep it without a fault.
\<close>

section \<open>The invariant of the running program\<close>

text \<open>
  \<open>home_inv\<close>: the data invariant, the table of \<^verbatim>\<open>main\<close> with its addresses and names (states and signs of
  life may change), and a buffer for the rendered table, for a renderer within the size json-c has.
\<close>

definition home_table :: "(u16 \<times> string option) list \<Rightarrow> gateway \<Rightarrow> bool" where
  "home_table names s \<longleftrightarrow> data_inv s \<and> json_str s \<noteq> None \<and> devsize s = 19 \<and>
     map id_name (mxj_device s) = names @ replicate 181 (0, None)"

definition home_inv :: "(json \<Rightarrow> string) \<Rightarrow> gateway \<Rightarrow> bool" where
  "home_inv dump s \<longleftrightarrow> dump_bound dump \<and> home_table boot_names s"

definition known_ids :: "int list" where
  "known_ids = map (\<lambda>p. uint (fst p)) boot_names"

lemma length_boot_names [simp]: "length boot_names = 19"
  by (simp add: boot_names_def boot_list_def)

lemma home_inv_live: "home_inv dump s \<Longrightarrow> map id_name (live_devs s) = boot_names"
  by (simp add: home_inv_def home_table_def live_devs_def take_map [symmetric])

lemma dev_ids_id_name: "dev_ids s = map (\<lambda>p. uint (fst p)) (map id_name (live_devs s))"
  by (simp add: dev_ids_def live_devs_def id_name_def)

lemma home_inv_ids: "home_inv dump s \<Longrightarrow> dev_ids s = known_ids"
  by (simp only: home_inv_live dev_ids_id_name known_ids_def)

lemma home_inv_data: "home_inv dump s \<Longrightarrow> data_inv s"
  by (simp add: home_inv_def home_table_def)

section \<open>A table that keeps its addresses and names\<close>

text \<open>
  The closure laws hold for the table of any household of 19 devices, so that a variant of the program
  with another table shares them.
\<close>

lemma home_table_spare:
  assumes s: "home_table names s" and n: "length names = 19"
  shows "d_name (mxj_device s ! 19) = None"
proof -
  have len: "19 < length (mxj_device s)" using s by (simp add: home_table_def data_inv_def table_wf_def)
  have "id_name (mxj_device s ! 19) = map id_name (mxj_device s) ! 19"
    by (rule nth_map [OF len, symmetric])
  also have "\<dots> = (0, None)" using s n by (simp add: home_table_def nth_append)
  finally show ?thesis by (simp add: id_name_def)
qed

lemma home_tableI:
  "home_table names s \<Longrightarrow> data_inv t \<Longrightarrow> devsize t = devsize s \<Longrightarrow>
   map id_name (mxj_device t) = map id_name (mxj_device s) \<Longrightarrow> json_str t = json_str s \<Longrightarrow> home_table names t"
  by (simp add: home_table_def)

lemma map_update_same: "f y = f (xs ! i) \<Longrightarrow> map f (xs[i := y]) = map f xs"
  by (cases "i < length xs") (simp_all add: map_update list_update_beyond list_update_same_conv)

lemma home_table_data: "home_table names s \<Longrightarrow> data_inv s"
  by (simp add: home_table_def)

lemma home_table_entry:
  assumes "home_table names s" and "\<And>d. id_name (f d) = id_name d" and "\<And>d. dev_ok d \<Longrightarrow> dev_ok (f d)"
  shows "home_table names (s\<lparr>mxj_device := (mxj_device s)[i := f (mxj_device s ! i)]\<rparr>)"
proof (rule home_tableI [OF assms(1)])
  have "d_id (f d) = d_id d" for d using assms(2) [of d] by (simp add: id_name_def)
  then show "data_inv (s\<lparr>mxj_device := (mxj_device s)[i := f (mxj_device s ! i)]\<rparr>)"
    using home_table_data [OF assms(1)] assms(3) by (intro data_inv_entry) auto
qed (simp_all add: map_update_same assms(2))

lemma home_table_set_state: "home_table names s \<Longrightarrow> home_table names (set_state i k b s)"
  unfolding set_state_def by (rule home_table_entry) (auto simp: id_name_def dev_ok_def)

lemma home_table_bump_heart: "home_table names s \<Longrightarrow> home_table names (bump_heart i s)"
  unfolding bump_heart_def by (rule home_table_entry) (auto simp: id_name_def dev_ok_def)

lemma home_table_read_clock: "home_table names s \<Longrightarrow> home_table names (read_clock s)"
  by (rule home_tableI) (simp_all add: home_table_data data_inv_read_clock)

lemma home_table_emit: "home_table names s \<Longrightarrow> home_table names (emit es s)"
  by (rule home_tableI) (simp_all add: home_table_data data_inv_emit)

lemma home_table_humand: "home_table names s \<Longrightarrow> 0 \<le> h \<Longrightarrow> h \<le> 120 \<Longrightarrow> home_table names (s\<lparr>humand := h\<rparr>)"
  by (rule home_tableI) (simp_all add: home_table_data data_inv_humand)

lemma home_table_build_json: "triple (home_table names) (build_json dump) (home_table names) any_fault"
  by (rule build_json_triple) (simp add: home_table_def data_inv_json)

text \<open>
  A new sensor is appended without a name, and the rendering that follows faults on it: the block never
  ends.
\<close>

lemma register_faults:
  assumes wf: "table_wf s" and fresh: "unat (devsize s) < 200 \<Longrightarrow> d_name (mxj_device s ! unat (devsize s)) = None"
  shows "\<exists>f. block [add_xiaomi nid ty, build_json dump] s = Inl f"
proof (cases "add_xiaomi nid ty s")
  case (Inl f)
  then show ?thesis by simp
next
  case (Inr t)
  let ?n = "unat (devsize s)"
  note ok = append_dev_ok [OF wf Inr [unfolded add_xiaomi_def]]
  have "live_devs t ! ?n = mxj_device t ! ?n" "?n < length (live_devs t)"
    using ok wf by (simp_all add: live_devs_def table_wf_def)
  moreover have "\<not> named (mxj_device t ! ?n)"
    using ok wf fresh by (simp add: named_def table_wf_def)
  ultimately have "\<not> list_all named (live_devs t)" by (auto simp: list_all_length)
  then obtain e where "build_json dump t = Inl (e, t)" using build_json_unnamed by blast
  with Inr show ?thesis by simp
qed

text \<open>So the registration keeps the invariant only in the sense that it crashes the program.\<close>

lemma home_table_register:
  assumes "length names = 19"
  shows "triple (\<lambda>s. home_table names s \<and> P s) (block [add_xiaomi nid ty, build_json dump]) Q any_fault"
proof (rule tripleI)
  fix s t
  assume s: "home_table names s \<and> P s" and t: "block [add_xiaomi nid ty, build_json dump] s = Inr t"
  have "table_wf s" "d_name (mxj_device s ! unat (devsize s)) = None"
    using s home_table_spare [OF _ assms] by (auto simp: home_table_def data_inv_def)
  then obtain f where "block [add_xiaomi nid ty, build_json dump] s = Inl f"
    using register_faults by blast
  with t show "Q t" by simp
qed simp

lemma home_table_handled: "length names = 19 \<Longrightarrow> handler_inv (home_table names) dump any_fault"
  by unfold_locales
    (auto intro: home_table_data home_table_read_clock home_table_emit home_table_set_state home_table_humand
      home_table_bump_heart home_table_build_json home_table_register)

section \<open>The table of this program\<close>

lemma home_inv_spare: "home_inv dump s \<Longrightarrow> d_name (mxj_device s ! 19) = None"
  by (auto simp: home_inv_def intro: home_table_spare)

lemma home_inv_read_clock: "home_inv dump s \<Longrightarrow> home_inv dump (read_clock s)"
  and home_inv_emit: "home_inv dump s \<Longrightarrow> home_inv dump (emit es s)"
  and home_inv_set_state: "home_inv dump s \<Longrightarrow> home_inv dump (set_state i k b s)"
  and home_inv_bump_heart: "home_inv dump s \<Longrightarrow> home_inv dump (bump_heart i s)"
  and home_inv_humand: "home_inv dump s \<Longrightarrow> 0 \<le> h \<Longrightarrow> h \<le> 120 \<Longrightarrow> home_inv dump (s\<lparr>humand := h\<rparr>)"
  by (simp_all add: home_inv_def home_table_read_clock home_table_emit home_table_set_state
      home_table_bump_heart home_table_humand)

lemma home_inv_sent: "home_inv dump s \<Longrightarrow> home_inv dump (sent m s)"
  by (simp add: sent_def home_inv_emit home_inv_read_clock)

lemma home_build_json:
  assumes "home_inv dump s"
  shows "build_json dump s = Inr (s\<lparr>json_str := Some (json_text dump s)\<rparr>)"
  using assms boot_json_ok [of dump s] data_inv_wf home_inv_live [OF assms] by (auto simp: home_inv_def home_table_def)

lemma home_inv_build_json: "triple (home_inv dump) (build_json dump) (home_inv dump) no_fault"
  unfolding triple_def
proof (intro allI impI)
  fix s
  assume s: "home_inv dump s"
  have "length (json_text dump s) < JSON_SIZE"
    using s boot_weight boot_plain home_inv_live [OF s] by (intro json_fits) (auto simp: home_inv_def)
  then have "home_inv dump (s\<lparr>json_str := Some (json_text dump s)\<rparr>)"
    using s data_inv_json [of s "json_text dump s"] by (simp add: home_inv_def home_table_def)
  then show "case build_json dump s of Inl (e, t) \<Rightarrow> no_fault e t | Inr t \<Rightarrow> home_inv dump t"
    using home_build_json [OF s] by simp
qed

lemma home_inv_register:
  "triple (\<lambda>s. home_inv dump s \<and> P s) (block [add_xiaomi nid ty, build_json dump]) (home_inv dump) any_fault"
  by (rule triple_conseq [OF home_table_register [of boot_names P nid ty dump]]) (auto simp: home_inv_def)

interpretation home: handler_inv "home_inv dump" dump no_fault for dump
  by unfold_locales
    (auto intro: home_inv_data home_inv_read_clock home_inv_emit home_inv_set_state home_inv_humand
      home_inv_bump_heart home_inv_build_json home_inv_register)

section \<open>The start\<close>

lemma data_inv_boot:
  assumes "table_wf s" and "list_all dev_ok (mxj_device s)" and "distinct (dev_ids s)" and "humand s = 0"
    and "length (rxbuf s) = 200" and "strxml s = []" and "json_str s = Some []" and "clock_ok s"
  shows "data_inv s"
  using assms by (simp add: data_inv_def gateway_typed_def table_wf_def)

lemma fresh_initial: "fresh_from 0 (s\<lparr>mxj_device := replicate DEV_SIZE no_device, devsize := 0\<rparr>)"
  by (simp add: fresh_from_def table_wf_def)

text \<open>The state in which the table of any 19 devices is filled.\<close>

lemma boot_devices:
  assumes "fresh_from 0 s" and n: "length ps = 19"
  obtains t where "reg_all ps s = Inr t" "only_table s t"
    "devsize t = 19" "table_wf t" "mxj_device t = map mk_dev ps @ replicate 181 no_device"
proof -
  have "live_devs s = []" using assms(1) by (simp add: fresh_from_def live_devs_def)
  with reg_list_fresh [OF assms(1), of ps] n obtain t where t: "reg_all ps s = Inr t"
      "only_table s t" "fresh_from 19 t" "live_devs t = map mk_dev ps"
    by (auto simp: reg_all_def)
  have wf: "table_wf t" "unat (devsize t) = 19" and len: "length (mxj_device t) = 200"
    using t(3) by (auto simp: fresh_from_def table_wf_def)
  have "drop 19 (mxj_device t) = replicate 181 no_device"
    using t(3) len by (intro nth_equalityI) (auto simp: fresh_from_def)
  then have dev: "mxj_device t = map mk_dev ps @ replicate 181 no_device"
    using append_take_drop_id [of 19 "mxj_device t"] t(4) wf(2) by (simp add: live_devs_def)
  have "unat (devsize t) = unat (19 :: byte)" using wf(2) by simp
  then have "devsize t = 19" by (simp only: word_unat_eq_iff)
  with t(1,2) wf(1) dev that show thesis by blast
qed

definition booting :: "gateway \<Rightarrow> bool" where
  "booting s \<longleftrightarrow> fresh_from 0 s \<and> humand s = 0 \<and> length (rxbuf s) = 200 \<and> strxml s = [] \<and>
     json_str s = Some [] \<and> clock_ok s"

lemma boot_home:
  assumes s: "booting s" and n: "length ps = 19" and d: "distinct (map (\<lambda>p. uint (fst p)) ps)"
  obtains t where "reg_all ps s = Inr t" "only_table s t" "home_table (map (id_name \<circ> mk_dev) ps) t"
    "mxj_device t = map mk_dev ps @ replicate 181 no_device"
proof -
  have fr: "fresh_from 0 s" using s by (simp add: booting_def)
  from boot_devices [OF fr n] obtain t where t: "reg_all ps s = Inr t" "only_table s t"
      "devsize t = 19" "table_wf t" "mxj_device t = map mk_dev ps @ replicate 181 no_device" .
  from t(2) obtain ds k where st: "t = s\<lparr>mxj_device := ds, devsize := k\<rparr>" unfolding only_table_def by blast
  have id: "d_id (mk_dev p) = fst p" for p by (cases p) (simp add: mk_dev_def)
  have "dev_ids t = map (\<lambda>p. uint (fst p)) ps" using t(3,5) n by (simp add: dev_ids_def id)
  moreover have "list_all dev_ok (mxj_device t)"
    unfolding t(5) by (auto simp: list_all_iff mk_dev_def no_device_def dev_ok_def)
  ultimately have "data_inv t"
    using t(4) s d by (intro data_inv_boot) (simp_all add: st booting_def clock_ok_def)
  moreover have "map id_name (mxj_device t) = map (id_name \<circ> mk_dev) ps @ replicate 181 (0, None)"
    by (simp add: t(5) id_name_def no_device_def)
  ultimately have "home_table (map (id_name \<circ> mk_dev) ps) t"
    using t(3) s by (simp add: home_table_def st booting_def)
  with t(1,2,5) that show thesis by blast
qed

text \<open>What the set-up of the globals and the post of the start leave.\<close>

definition posted :: "string \<Rightarrow> (nat \<Rightarrow> tm) \<Rightarrow> gateway" where
  "posted txt cl = emit [Post txt] (read_clock ((initial cl)\<lparr>json_str := Some []\<rparr>))"

lemma posted_booting: "(\<And>n. tm_int32 (cl n)) \<Longrightarrow> booting (posted txt cl)"
  by (simp add: posted_def booting_def initial_def fresh_from_def table_wf_def clock_ok_def)

text \<open>The loop is only reached when every set-up call succeeded.\<close>

lemma main_start_up: "main_start dump e s = Inr (None, t) \<Longrightarrow> main_setup e = None"
  by (auto simp: main_start_def Let_def split: option.splits sum.splits)

text \<open>The state at the start of the loop, for a calloc that gave memory.\<close>

lemma main_start_home:
  assumes e: "json_calloc e" "main_setup e = None" and cl: "\<And>n. tm_int32 (cl n)" and dump: "dump_bound dump"
  obtains t where "main_start dump e (initial cl) = Inr (None, t)" "home_inv dump t" "rx_state t = WW_STATE"
    "mxj_device t = map mk_dev boot_list @ replicate 181 no_device" "humand t = 0"
    "json_str t = Some (json_text dump t)"
    "out t = Post (alarm_text t_qidong (cl 0)) # map TxByte (frame (query_msg 5 0xffff))"
proof -
  let ?a = "posted (alarm_text t_qidong (cl 0)) cl"
  have len: "length (alarm_text t_qidong (cl 0)) < 200"
    using length_alarm_text [OF cl, of t_qidong 0] by (simp add: alarm_texts)
  have ps: "length boot_list = 19" "distinct (map (\<lambda>p. uint (fst p)) boot_list)"
    by (simp_all add: boot_list_def)
  obtain b where b: "reg_all boot_list ?a = Inr b" "only_table ?a b"
      "home_table (map (id_name \<circ> mk_dev) boot_list) b"
      "mxj_device b = map mk_dev boot_list @ replicate 181 no_device"
    by (rule boot_home [OF posted_booting [OF cl] ps])
  from b(2) obtain ds n where bt: "b = ?a\<lparr>mxj_device := ds, devsize := n\<rparr>" unfolding only_table_def by blast
  have home: "home_inv dump b" using b(3) dump by (simp add: home_inv_def boot_names_def)
  let ?c = "sent (query_msg 5 0xffff) b"
  let ?t = "?c\<lparr>json_str := Some (json_text dump ?c)\<rparr>"
  have build: "build_json dump ?c = Inr ?t" using home by (intro home_build_json home_inv_sent)
  have "main_boot dump ((initial cl)\<lparr>json_str := Some []\<rparr>) =
      block [MXJ_GetStateMessage 0xffff, build_json dump] b"
    using len b(1) boot_blocks [of ?a] block_append [of "[boot_lights, boot_sensors, boot_curtains]"
        "[MXJ_GetStateMessage 0xffff, build_json dump]" ?a]
    by (simp add: main_boot_def posted_def initial_def post_alarm_def)
  then have "main_start dump e (initial cl) = Inr (None, ?t)" using build e by (simp add: main_start_def tx_simps)
  moreover have "home_inv dump ?t"
    using triple_Inr [OF home_inv_build_json home_inv_sent [OF home] build] .
  ultimately show thesis
    using that [of ?t] b(4) by (simp add: bt posted_def initial_def json_text_def live_devs_def)
qed

section \<open>The check for silent leak sensors\<close>

definition silent :: "mxj_device_t \<Rightarrow> bool" where
  "silent d \<longleftrightarrow> d_heart d = 0 \<and> leak_sensor (d_id d)"

definition offline_posts :: "tm \<Rightarrow> mxj_device_t list \<Rightarrow> event list" where
  "offline_posts t ds = map (\<lambda>d. Post (offline_text (the (d_name d)) (d_id d) t)) (filter silent ds)"

definition still :: "mxj_device_t \<Rightarrow> mxj_device_t" where
  "still d = d\<lparr>d_heart := 0\<rparr>"

definition postable :: "tm \<Rightarrow> mxj_device_t \<Rightarrow> bool" where
  "postable t d \<longleftrightarrow> (case d_name d of None \<Rightarrow> False | Some nm \<Rightarrow> length (offline_text nm (d_id d) t) < ALARM_SIZE)"

lemma offline_posts_append: "offline_posts t (xs @ ys) = offline_posts t xs @ offline_posts t ys"
  by (simp add: offline_posts_def)

lemma offline_dev_step:
  assumes i: "i < length ds" and ok: "silent (ds ! i) \<Longrightarrow> postable t (ds ! i)"
    and s: "mxj_device s = map still (take i ds) @ drop i ds" "tblock s = t"
  shows "offline_dev i s = Inr (emit (offline_posts t [ds ! i])
    (s\<lparr>mxj_device := map still (take (Suc i) ds) @ drop (Suc i) ds\<rparr>))"
proof -
  have cur: "mxj_device s ! i = ds ! i" using i s(1) by (simp add: nth_append)
  have upd: "(mxj_device s)[i := still (ds ! i)] = map still (take (Suc i) ds) @ drop (Suc i) ds"
    using i s(1) by (simp add: list_update_append take_Suc_conv_app_nth Cons_nth_drop_Suc [symmetric])
  show ?thesis
  proof (cases "silent (ds ! i)")
    case True
    then have "still (ds ! i) = mxj_device s ! i" by (simp add: still_def silent_def cur)
    then have "(mxj_device s)[i := still (ds ! i)] = mxj_device s" by (simp only: list_update_id)
    with upd have same: "s\<lparr>mxj_device := map still (take (Suc i) ds) @ drop (Suc i) ds\<rparr> = s" by simp
    from ok [OF True] obtain nm where "d_name (ds ! i) = Some nm" "length (offline_text nm (d_id (ds ! i)) t) < 200"
      by (auto simp: postable_def split: option.splits)
    with True show ?thesis
      unfolding same by (simp add: offline_dev_def cur post_alarm_def s(2) offline_posts_def silent_def)
  next
    case False
    with upd show ?thesis
      by (auto simp: offline_dev_def cur still_def [symmetric] silent_def offline_posts_def emit_def Let_def)
  qed
qed

lemma emit_table: "(emit es s)\<lparr>mxj_device := ds\<rparr> = emit es (s\<lparr>mxj_device := ds\<rparr>)"
  by (simp add: emit_def)

lemma emit_emit: "emit fs (emit es s) = emit (es @ fs) s"
  by (simp add: emit_def)

lemma offline_prefix:
  assumes "n \<le> length (mxj_device s)" and "list_all (\<lambda>d. silent d \<longrightarrow> postable (tblock s) d) (take n (mxj_device s))"
  shows "block (map offline_dev [0..<n]) s =
    Inr (emit (offline_posts (tblock s) (take n (mxj_device s)))
      (s\<lparr>mxj_device := map still (take n (mxj_device s)) @ drop n (mxj_device s)\<rparr>))"
  using assms
proof (induction n)
  case 0
  then show ?case by (simp add: offline_posts_def emit_def)
next
  case (Suc n)
  let ?ds = "mxj_device s"
  let ?u = "emit (offline_posts (tblock s) (take n ?ds)) (s\<lparr>mxj_device := map still (take n ?ds) @ drop n ?ds\<rparr>)"
  have tk: "take (Suc n) ?ds = take n ?ds @ [?ds ! n]" using Suc.prems(1) by (simp add: take_Suc_conv_app_nth)
  have IH: "block (map offline_dev [0..<n]) s = Inr ?u" using Suc tk by simp
  have "offline_dev n ?u = Inr (emit (offline_posts (tblock s) [?ds ! n])
      (?u\<lparr>mxj_device := map still (take (Suc n) ?ds) @ drop (Suc n) ?ds\<rparr>))"
    using Suc.prems tk by (intro offline_dev_step) auto
  with IH show ?case
    by (simp add: block_append emit_table emit_emit tk offline_posts_append)
qed

lemma offline_check_eq:
  assumes "table_wf s" and "list_all (\<lambda>d. silent d \<longrightarrow> postable (tblock s) d) (live_devs s)"
  shows "offline_check s = Inr (emit (offline_posts (tblock s) (live_devs s))
    (s\<lparr>mxj_device := map still (live_devs s) @ drop (unat (devsize s)) (mxj_device s)\<rparr>))"
  using assms offline_prefix [of "unat (devsize s)" s]
  by (simp add: offline_check_def live_devs_def table_wf_def)

lemma length_offline_text:
  assumes "tm_int32 t"
  shows "length (offline_text nm nid t) \<le> length nm + 135"
proof -
  have "unat nid < 2 ^ LENGTH(16)" by (rule unsigned_less)
  then have "length (dec (uint nid)) \<le> 5"
    using length_dec_nat [of 5 "unat nid"] by (simp add: dec_def)
  then show ?thesis
    using length_alarm_text [OF assms, of "t_shebei @ nm @ '' ID:'' @ dec (uint nid) @ t_lixian"]
    by (simp add: offline_text_def alarm_texts)
qed

lemma boot_names_short: "list_all (\<lambda>p. case snd p of None \<Rightarrow> False | Some nm \<Rightarrow> length nm \<le> 30) boot_names"
  by (simp add: boot_names_list boot_list_def name_texts)

lemma home_postable: "home_inv dump s \<Longrightarrow> list_all (postable (tblock s)) (live_devs s)"
proof -
  assume s: "home_inv dump s"
  then have t: "tm_int32 (tblock s)" by (simp add: home_inv_def home_table_def data_inv_def clock_ok_def)
  have "list_all (\<lambda>p. case snd p of None \<Rightarrow> False | Some nm \<Rightarrow> length nm \<le> 30) (map id_name (live_devs s))"
    using boot_names_short by (simp only: home_inv_live [OF s])
  then have short: "case d_name d of None \<Rightarrow> False | Some nm \<Rightarrow> length nm \<le> 30" if "d \<in> set (live_devs s)" for d
    using that by (auto simp: list_all_iff id_name_def)
  show ?thesis
    unfolding list_all_iff
  proof
    fix d
    assume "d \<in> set (live_devs s)"
    from short [OF this] obtain nm where "d_name d = Some nm" "length nm \<le> 30"
      by (auto split: option.splits)
    then show "postable (tblock s) d"
      using length_offline_text [OF t, of nm "d_id d"] by (simp add: postable_def)
  qed
qed

lemma home_offline_check:
  assumes "home_inv dump s"
  shows "offline_check s = Inr (emit (offline_posts (tblock s) (live_devs s))
    (s\<lparr>mxj_device := map still (live_devs s) @ drop (unat (devsize s)) (mxj_device s)\<rparr>))"
  using assms home_postable [OF assms] data_inv_wf [of s]
  by (intro offline_check_eq) (auto simp: home_inv_def home_table_def list_all_iff)


lemma home_inv_offline_check: "triple (home_inv dump) offline_check (home_inv dump) no_fault"
  unfolding triple_def
proof (intro allI impI)
  fix s
  assume s: "home_inv dump s"
  let ?ds = "map still (live_devs s) @ drop (unat (devsize s)) (mxj_device s)"
  have len: "length ?ds = 200" and k: "unat (devsize s) \<le> length (mxj_device s)"
    using s by (auto simp: home_inv_def home_table_def data_inv_def table_wf_def live_devs_def)
  have still: "id_name \<circ> still = id_name" by (auto simp: still_def id_name_def)
  have names: "map id_name ?ds = map id_name (mxj_device s)"
    using map_append [of id_name "take (unat (devsize s)) (mxj_device s)" "drop (unat (devsize s)) (mxj_device s)"]
    by (simp add: live_devs_def still)
  have "dev_ids (s\<lparr>mxj_device := ?ds\<rparr>) = dev_ids s"
    using k by (simp add: dev_ids_def live_devs_def still_def)
  moreover have "list_all dev_ok ?ds"
    using s by (auto simp: home_inv_def home_table_def data_inv_def gateway_typed_def live_devs_def list_all_iff still_def
        dev_ok_def dest: in_set_takeD in_set_dropD)
  ultimately have "data_inv (s\<lparr>mxj_device := ?ds\<rparr>)"
    using home_inv_data [OF s] len by (simp add: data_inv_def gateway_typed_def table_wf_def clock_ok_def)
  with s names have "home_inv dump (s\<lparr>mxj_device := ?ds\<rparr>)" by (simp add: home_inv_def home_table_def)
  then show "case offline_check s of Inl (e, t) \<Rightarrow> no_fault e t | Inr t \<Rightarrow> home_inv dump t"
    by (simp add: home_offline_check [OF s] home_inv_emit)
qed

section \<open>The rounds of the loop\<close>

lemma home_inv_decrement:
  "triple (home_inv dump) (reading (\<lambda>s. if humand s > 0
     then modify (\<lambda>s. s\<lparr>humand := humand s - 1\<rparr>) else skip)) (home_inv dump) no_fault"
  using home_inv_humand by (auto simp: triple_def home_inv_def home_table_def data_inv_def)

lemma home_inv_countdown: "triple (home_inv dump) countdown (home_inv dump) no_fault"
  unfolding countdown_def
proof (intro triple_block_inv list_all_ConsI list_all_NilI home_inv_decrement)
  show "triple (home_inv dump) (reading (\<lambda>s. if humand s = 1 then MXJ_SendCtrlMessage CHUFANG_ID 3 0 0 0
      else skip)) (home_inv dump) no_fault"
    by (intro inv_rules home.SendCtrl_inv) simp
qed

definition main_inv :: "(json \<Rightarrow> string) \<Rightarrow> main_t \<Rightarrow> bool" where
  "main_inv dump m \<longleftrightarrow> home_inv dump (gw m) \<and> 0 \<le> flag_hour m \<and> flag_hour m < 7500 \<and> 0 \<le> jcount m \<and> jcount m \<le> 20"

lemma on_gw_Inr: "c (gw m) = Inr t \<Longrightarrow> on_gw c m = Inr (m\<lparr>gw := t\<rparr>)"
  by (simp add: on_gw_def)

lemma on_gw_home:
  assumes "triple (home_inv dump) c (home_inv dump) no_fault" and "home_inv dump (gw m)"
  obtains t where "on_gw c m = Inr (m\<lparr>gw := t\<rparr>)" "c (gw m) = Inr t" "home_inv dump t"
  using triple_total [OF assms] that by (auto simp: on_gw_def)

text \<open>One round: the counters, the check when the counter is full, the countdown.\<close>

lemma usleep_emit: "usleep n s = Inr (emit [USleep n] s)"
  by (simp add: usleep_def)

definition tick_gw :: "main_t \<Rightarrow> gateway cmd" where
  "tick_gw m = block [if flag_hour m = 7499 then offline_check else skip, usleep 1000000, countdown]"

lemma main_tick_eq:
  assumes "flag_hour m < 7500" and "jcount m \<le> 20" and "tick_gw m (gw m) = Inr t"
  shows "main_tick m = Inr (m\<lparr>gw := t, flag_hour := (if flag_hour m = 7499 then 0 else flag_hour m + 1),
    jcount := (if jcount m = 20 then 0 else jcount m + 1)\<rparr>)"
proof (cases "flag_hour m = 7499")
  case True
  with assms(3) obtain u where "offline_check (gw m) = Inr u" "countdown (emit [USleep 1000000] u) = Inr t"
    by (auto simp: tick_gw_def usleep_emit split: sum.splits)
  with True assms show ?thesis by (auto simp: main_tick_def on_gw_def usleep_emit)
next
  case False
  with assms(3) have "countdown (emit [USleep 1000000] (gw m)) = Inr t"
    by (auto simp: tick_gw_def usleep_emit split: sum.splits)
  with False assms show ?thesis by (auto simp: main_tick_def on_gw_def usleep_emit)
qed

lemma tick_gw_home: "triple (home_inv dump) (tick_gw m) (home_inv dump) no_fault"
  unfolding tick_gw_def by (intro inv_rules home_inv_offline_check home_inv_countdown home.usleep_inv)

lemma main_tick_inv: "main_inv dump m \<Longrightarrow> \<exists>n. main_tick m = Inr n \<and> main_inv dump n"
proof -
  assume m: "main_inv dump m"
  then obtain t where t: "tick_gw m (gw m) = Inr t" "home_inv dump t"
    using triple_total [OF tick_gw_home, of dump "gw m" m] by (auto simp: main_inv_def)
  show ?thesis
    using m t(2) main_tick_eq [OF _ _ t(1)] by (auto simp: main_inv_def)
qed

text \<open>The bytes that went to the serial line.\<close>

definition tx_bytes :: "event list \<Rightarrow> byte list" where
  "tx_bytes es = concat (map (\<lambda>e. case e of TxByte b \<Rightarrow> [b] | _ \<Rightarrow> []) es)"

lemma tx_bytes_append [simp]: "tx_bytes (xs @ ys) = tx_bytes xs @ tx_bytes ys"
  by (simp add: tx_bytes_def)

lemma tx_bytes_frame [simp]: "tx_bytes (map TxByte bs) = bs"
  by (induction bs) (simp_all add: tx_bytes_def)

lemma tx_bytes_Post [simp]: "tx_bytes (Post t # es) = tx_bytes es"
  by (simp add: tx_bytes_def)

lemma tx_bytes_USleep [simp]: "tx_bytes (USleep n # es) = tx_bytes es"
  by (simp add: tx_bytes_def)

lemma tx_bytes_Nil [simp]: "tx_bytes [] = []"
  by (simp add: tx_bytes_def)

lemma tx_bytes_offline [simp]: "tx_bytes (offline_posts t ds) = []"
  by (induction ds) (simp_all add: offline_posts_def)

definition light_off :: "byte list" where
  "light_off = frame (ctrl_msg CHUFANG_ID 3 0 0 0)"

lemma countdown_eq:
  "humand s = 1 \<Longrightarrow> countdown s = Inr ((sent (ctrl_msg CHUFANG_ID 3 0 0 0) s)\<lparr>humand := 0\<rparr>)"
  "humand s > 1 \<Longrightarrow> countdown s = Inr (s\<lparr>humand := humand s - 1\<rparr>)"
  "humand s \<le> 0 \<Longrightarrow> countdown s = Inr s"
  by (simp_all add: countdown_def tx_simps)

lemma countdown_tx:
  assumes t: "countdown s = Inr t" and h: "0 < humand s"
  shows "humand t = humand s - 1"
    "tx_bytes (out t) = tx_bytes (out s) @ (if humand s = 1 then light_off else [])"
proof -
  consider (one) "humand s = 1" | (more) "humand s > 1" using h by linarith
  then have "humand t = humand s - 1 \<and>
      tx_bytes (out t) = tx_bytes (out s) @ (if humand s = 1 then light_off else [])"
  proof cases
    case one
    with t have "t = (sent (ctrl_msg CHUFANG_ID 3 0 0 0) s)\<lparr>humand := 0\<rparr>"
      by (simp only: countdown_eq(1) sum.inject)
    with one show ?thesis by (simp add: light_off_def)
  next
    case more
    with t have "t = s\<lparr>humand := humand s - 1\<rparr>" by (simp only: countdown_eq(2) sum.inject)
    with more show ?thesis by simp
  qed
  then show "humand t = humand s - 1"
    "tx_bytes (out t) = tx_bytes (out s) @ (if humand s = 1 then light_off else [])" by blast+
qed

lemma tick_gw_tx:
  assumes "home_inv dump (gw m)" and "tick_gw m (gw m) = Inr t" and "0 < humand (gw m)"
  shows "humand t = humand (gw m) - 1"
    "tx_bytes (out t) = tx_bytes (out (gw m)) @ (if humand (gw m) = 1 then light_off else [])"
proof -
  obtain u where u: "countdown u = Inr t" "humand u = humand (gw m)" "tx_bytes (out u) = tx_bytes (out (gw m))"
  proof (cases "flag_hour m = 7499")
    case True
    then have "tick_gw m (gw m) = block [offline_check, usleep 1000000, countdown] (gw m)" by (simp add: tick_gw_def)
    with assms(2) that show thesis by (simp add: home_offline_check [OF assms(1)] usleep_emit split: sum.splits)
  next
    case False
    then have "tick_gw m (gw m) = countdown (emit [USleep 1000000] (gw m))"
      by (simp add: tick_gw_def usleep_emit split: sum.split)
    with assms(2) that show thesis by simp
  qed
  show "humand t = humand (gw m) - 1"
    "tx_bytes (out t) = tx_bytes (out (gw m)) @ (if humand (gw m) = 1 then light_off else [])"
    using u(2,3) countdown_tx [OF u(1)] assms(3) by simp_all
qed

lemma main_tick_countdown:
  assumes "main_inv dump m" and "0 < humand (gw m)"
  obtains n where "main_tick m = Inr n" "main_inv dump n" "humand (gw n) = humand (gw m) - 1"
    "tx_bytes (out (gw n)) = tx_bytes (out (gw m)) @ (if humand (gw m) = 1 then light_off else [])"
proof -
  from assms(1) obtain n where n: "main_tick m = Inr n" "main_inv dump n" using main_tick_inv by blast
  from assms(1) obtain t where t: "tick_gw m (gw m) = Inr t"
    using triple_total [OF tick_gw_home, of dump "gw m" m] by (auto simp: main_inv_def)
  have "gw n = t" using main_tick_eq [OF _ _ t] n(1) assms(1) by (auto simp: main_inv_def)
  then show thesis
    using that n tick_gw_tx [OF _ t assms(2)] assms(1) by (auto simp: main_inv_def)
qed

text \<open>Before the last round nothing is sent; the last one switches the light off.\<close>

lemma rounds_quiet:
  "main_inv dump m \<Longrightarrow> int k < humand (gw m) \<Longrightarrow>
   \<exists>n. block (replicate k main_tick) m = Inr n \<and> main_inv dump n \<and> humand (gw n) = humand (gw m) - int k \<and>
     tx_bytes (out (gw n)) = tx_bytes (out (gw m))"
proof (induction k arbitrary: m)
  case 0
  then show ?case by simp
next
  case (Suc k)
  have h: "0 < humand (gw m)" "humand (gw m) \<noteq> 1" using Suc.prems(2) by auto
  from Suc.prems(1) h(1) obtain n where n: "main_tick m = Inr n" "main_inv dump n"
      "humand (gw n) = humand (gw m) - 1"
      "tx_bytes (out (gw n)) = tx_bytes (out (gw m)) @ (if humand (gw m) = 1 then light_off else [])"
    by (rule main_tick_countdown)
  have "int k < humand (gw n)" using Suc.prems(2) n(3) by simp
  from Suc.IH [OF n(2) this] n h(2) show ?case by auto
qed

lemma rounds_off:
  assumes m: "main_inv dump m" and h: "humand (gw m) = int h" "0 < h"
  shows "\<exists>n. block (replicate h main_tick) m = Inr n \<and> main_inv dump n \<and> humand (gw n) = 0 \<and>
    tx_bytes (out (gw n)) = tx_bytes (out (gw m)) @ light_off"
proof -
  obtain k where k: "h = Suc k" using h(2) by (cases h) auto
  from rounds_quiet [OF m, of k] obtain n where n: "block (replicate k main_tick) m = Inr n" "main_inv dump n"
      "humand (gw n) = 1" "tx_bytes (out (gw n)) = tx_bytes (out (gw m))"
    using h(1) k by auto
  from n(2,3) obtain q where "main_tick n = Inr q" "main_inv dump q" "humand (gw q) = 0"
      "tx_bytes (out (gw q)) = tx_bytes (out (gw n)) @ light_off"
    using main_tick_countdown [of dump n] by auto
  with n show ?thesis
    unfolding k replicate_Suc replicate_append_same [symmetric] by (simp add: block_append)
qed

end
