(* ===== verification/Zb_Wire.thy ===== *)
theory Zb_Wire
  imports Zb_Home
begin

text \<open>
  The receiver of \<^verbatim>\<open>zbclient.c\<close> against arbitrary input: which bytes keep it within its buffer, what a
  wrong checksum does, and what a length byte the buffer has no room for does.
\<close>

section \<open>Bytes that keep the receiver within its buffer\<close>

definition rx_safe :: "gateway \<Rightarrow> bool" where
  "rx_safe s \<longleftrightarrow>
     (rx_state s = DATA_STATE \<longrightarrow> unat (LEN_Token s) \<le> 198 \<and> unat (tempDataLen s) + 1 < unat (LEN_Token s)) \<and>
     (rx_state s = FCS_STATE \<longrightarrow> 2 \<le> unat (LEN_Token s) \<and> unat (LEN_Token s) \<le> 198)"

text \<open>The buffer as \<^verbatim>\<open>recieve_usart\<close> gets it, with the computed sum behind the message.\<close>

definition pending :: "gateway \<Rightarrow> byte list" where
  "pending s = (rxbuf s)[unat (LEN_Token s) + 1 := sum_list (take (unat (LEN_Token s) + 1) (rxbuf s))]"

definition byte_ok :: "byte \<Rightarrow> gateway \<Rightarrow> bool" where
  "byte_ok b s \<longleftrightarrow>
     (rx_state s = LEN_STATE \<longrightarrow> 2 \<le> unat b \<and> unat b \<le> 198) \<and>
     (rx_state s = FCS_STATE \<longrightarrow>
        \<not> new_sensor_report (pending s) (LEN_Token s + 1) \<or> rx_id (pending s) (LEN_Token s + 1) \<in> set known_ids)"

lemma home_inv_rx_cong:
  assumes "home_inv dump s" and "length (rxbuf t) = 200"
    and "mxj_device t = mxj_device s" "devsize t = devsize s" "strxml t = strxml s" "json_str t = json_str s"
    "humand t = humand s" "clock t = clock s" "tblock t = tblock s"
  shows "home_inv dump t"
  using assms by (auto simp: home_inv_def home_table_def data_inv_def gateway_typed_def table_wf_def dev_ids_def clock_ok_def)

lemma home_inv_goto: "home_inv dump s \<Longrightarrow> home_inv dump (s\<lparr>rx_state := q\<rparr>)"
  using data_inv_goto [of s q] by (simp add: home_inv_def home_table_def)

lemma home_rxbuf: "home_inv dump s \<Longrightarrow> length (rxbuf s) = 200"
  by (simp add: home_inv_def home_table_def data_inv_def gateway_typed_def)

lemma st_data_home:
  assumes s: "home_inv dump s" "rx_safe s" "rx_state s = DATA_STATE"
  shows "\<exists>t. st_data b s = Inr t \<and> home_inv dump t \<and> rx_safe t"
proof -
  let ?n = "unat (tempDataLen s)"
  let ?buf = "(rxbuf s)[2 + ?n := b]"
  let ?full = "uint (tempDataLen s + 1) = uint (LEN_Token s) - 1"
  have b: "unat (LEN_Token s) \<le> 198" "?n + 1 < unat (LEN_Token s)" using s(2,3) by (simp_all add: rx_safe_def)
  have len: "length (rxbuf s) = 200" using s(1) by (rule home_rxbuf)
  have inc: "unat (tempDataLen s + 1) = ?n + 1" using b by (intro unat_Suc_byte) simp
  then have "int (unat (tempDataLen s + 1)) = int ?n + 1" by simp
  then have uinc: "uint (tempDataLen s + 1) = int ?n + 1" "uint (LEN_Token s) = int (unat (LEN_Token s))"
    by simp_all
  let ?t = "s\<lparr>rxbuf := ?buf, tempDataLen := tempDataLen s + 1\<rparr>"
  have run: "st_data b s = Inr (if ?full then ?t\<lparr>rx_state := FCS_STATE\<rparr> else ?t)"
    using len b by (simp add: st_data_def write_rxbuf_def goto_state_def)
  have "home_inv dump ?t" "home_inv dump (?t\<lparr>rx_state := FCS_STATE\<rparr>)"
    by (rule home_inv_rx_cong [OF s(1)]; use len in simp)+
  moreover have "rx_safe (?t\<lparr>rx_state := FCS_STATE\<rparr>)" using b by (simp add: rx_safe_def)
  moreover have "rx_safe ?t" if nf: "\<not> ?full"
  proof -
    have "int ?n + 1 \<noteq> int (unat (LEN_Token s)) - 1" using nf by (simp only: uinc not_False_eq_True)
    then have "?n + 2 \<noteq> unat (LEN_Token s)" by linarith
    then show ?thesis using b s(3) inc by (simp add: rx_safe_def)
  qed
  ultimately show ?thesis unfolding run by (cases ?full) auto
qed


lemma st_fcs_home:
  assumes s: "home_inv dump s" "rx_safe s" "rx_state s = FCS_STATE"
    and ok: "\<not> new_sensor_report (pending s) (LEN_Token s + 1) \<or> rx_id (pending s) (LEN_Token s + 1) \<in> set known_ids"
  shows "\<exists>t. st_fcs (recieve_usart dump after) b s = Inr t \<and> home_inv dump t \<and> rx_state t = WW_STATE"
proof -
  let ?n = "unat (LEN_Token s)"
  let ?sum = "sum_list (take (?n + 1) (rxbuf s))"
  have n: "2 \<le> ?n" "?n \<le> 198" using s(2,3) by (simp_all add: rx_safe_def)
  have len: "length (rxbuf s) = 200" using s(1) by (rule home_rxbuf)
  have crc: "crc_loop 0 (Suc ?n) (rxbuf s) 0 = Inr ?sum"
    using n len by (simp add: crc_loop_ok)
  let ?u = "s\<lparr>FSC_Token := b, rxbuf := pending s\<rparr>"
  let ?v = "s\<lparr>FSC_Token := b, rxbuf := pending s, rx_len := LEN_Token s + 1\<rparr>"
  have home: "home_inv dump ?u" "home_inv dump ?v"
    by (rule home_inv_rx_cong [OF s(1)]; use len in \<open>simp add: pending_def\<close>)+
  have run: "st_fcs (recieve_usart dump after) b s =
      (if ?sum = b then block [recieve_usart dump after (pending s) (LEN_Token s + 1), goto_state WW_STATE] ?v
       else goto_state WW_STATE ?u)"
    using n len crc by (simp add: st_fcs_def write_rxbuf_def pending_def split: sum.split)
  show ?thesis
  proof (cases "?sum = b")
    case True
    have "triple (home_inv dump) (recieve_usart dump after (pending s) (LEN_Token s + 1)) (home_inv dump) no_fault"
      using ok home_inv_ids by (intro home.recieve_known_inv) auto
    from triple_total [OF this home(2)] obtain w where
      w: "recieve_usart dump after (pending s) (LEN_Token s + 1) ?v = Inr w" "home_inv dump w" by blast
    then have "st_fcs (recieve_usart dump after) b s = Inr (w\<lparr>rx_state := WW_STATE\<rparr>)"
      using run True by (simp add: goto_state_def)
    then show ?thesis using home_inv_goto [OF w(2)] by simp
  next
    case False
    then show ?thesis using run home_inv_goto [OF home(1)] by (simp add: goto_state_def)
  qed
qed

lemma rx_safe_goto: "q \<noteq> DATA_STATE \<Longrightarrow> q \<noteq> FCS_STATE \<Longrightarrow> rx_safe (s\<lparr>rx_state := q\<rparr>)"
  by (simp add: rx_safe_def)

lemma st_cmd_len_home:
  assumes s: "home_inv dump s"
  shows "\<exists>t. st_cmd b s = Inr t \<and> home_inv dump t \<and> rx_safe t"
    and "2 \<le> unat b \<Longrightarrow> unat b \<le> 198 \<Longrightarrow> \<exists>t. st_len b s = Inr t \<and> home_inv dump t \<and> rx_safe t"
proof -
  have len: "length (rxbuf s) = 200" using s(1) by (rule home_rxbuf)
  let ?c = "s\<lparr>rxbuf := (rxbuf s)[0 := b], rx_state := LEN_STATE\<rparr>"
  let ?l = "s\<lparr>LEN_Token := b, tempDataLen := 0, rxbuf := (rxbuf s)[1 := b], rx_state := DATA_STATE\<rparr>"
  have "home_inv dump ?c" "home_inv dump ?l"
    by (rule home_inv_rx_cong [OF s]; use len in simp)+
  moreover have "st_cmd b s = Inr ?c" "st_len b s = Inr ?l"
    using len by (simp_all add: st_cmd_def st_len_def write_rxbuf_def goto_state_def)
  moreover have "rx_safe ?c" by (simp add: rx_safe_def)
  moreover have "rx_safe ?l" if "2 \<le> unat b" "unat b \<le> 198" using that by (simp add: rx_safe_def)
  ultimately show "\<exists>t. st_cmd b s = Inr t \<and> home_inv dump t \<and> rx_safe t"
    and "2 \<le> unat b \<Longrightarrow> unat b \<le> 198 \<Longrightarrow> \<exists>t. st_len b s = Inr t \<and> home_inv dump t \<and> rx_safe t"
    by blast+
qed

lemma thread_byte_home:
  assumes s: "home_inv dump s" "rx_safe s" and b: "byte_ok b s"
  shows "\<exists>t. thread_byte dump after b s = Inr t \<and> home_inv dump t \<and> rx_safe t"
proof -
  have goto: "\<exists>t. goto_state q s = Inr t \<and> home_inv dump t \<and> rx_safe t" if "q \<noteq> DATA_STATE" "q \<noteq> FCS_STATE" for q
    using that home_inv_goto [OF s(1)] by (simp add: goto_state_def rx_safe_def)
  consider "rx_state s = CMD_STATE1" | "rx_state s = LEN_STATE" | "rx_state s = DATA_STATE"
    | "rx_state s = FCS_STATE" | (other) "rx_state s \<noteq> CMD_STATE1" "rx_state s \<noteq> LEN_STATE"
      "rx_state s \<noteq> DATA_STATE" "rx_state s \<noteq> FCS_STATE" by blast
  then show ?thesis
  proof cases
    case 1
    then show ?thesis using st_cmd_len_home(1) [OF s(1), of b] by (simp add: thread_byte_def thread_round_def)
  next
    case 2
    then show ?thesis using st_cmd_len_home(2) [OF s(1), of b] b by (simp add: thread_byte_def thread_round_def byte_ok_def)
  next
    case 3
    then show ?thesis using st_data_home [OF s 3, of b] by (simp add: thread_byte_def thread_round_def)
  next
    case 4
    have "\<exists>t. st_fcs (recieve_usart dump after) b s = Inr t \<and> home_inv dump t \<and> rx_state t = WW_STATE"
      using b 4 by (intro st_fcs_home [OF s 4]) (simp add: byte_ok_def)
    then show ?thesis using 4 by (auto simp: thread_byte_def thread_round_def rx_safe_def)
  next
    case other
    then show ?thesis
      using goto [of WW_STATE] goto [of AA_STATE] goto [of CMD_STATE1] s by (simp add: thread_byte_def thread_round_def)
  qed
qed

section \<open>A wrong checksum\<close>

lemma rx_idle_buf: "idle s \<Longrightarrow> length (rxbuf s) = 200 \<and> rx_state s = 0x55"
  by (simp add: idle_def data_inv_def gateway_typed_def)

text \<open>The message stays in the buffer, nothing else happens.\<close>

lemma feed_bad_checksum:
  assumes s: "idle s" and m: "msg_ok RXBUF_SIZE m" and c: "c \<noteq> sum_list m"
  shows "feed (thread_round h) ([0x55, 0xaa] @ m @ [c]) s =
    Inr (s\<lparr>rx_state := WW_STATE, LEN_Token := m ! 1, tempDataLen := of_nat (length m - 2), FSC_Token := c,
           rxbuf := fill (m @ [sum_list m]) (rxbuf s)\<rparr>)"
proof -
  note buf = rx_idle_buf [OF s]
  obtain x l rest where ml: "m = [x, l] @ rest" and rest: "rest \<noteq> []"
    using m by (auto simp: msg_ok_def Suc_le_length_iff eval_nat_numeral)
  have n: "1 + unat (m ! 1) = length m" "Suc (unat (m ! 1)) = length m" "length m < 200"
    using m by (auto simp: msg_ok_def)
  have head: "feed (thread_round h) [0x55, 0xaa, x, l] s = Inr (loaded [x, l] rest s)"
    using buf rest by (intro feed_header) simp_all
  have data: "feed (thread_round h) rest (loaded [x, l] rest s) = Inr (loaded ([x, l] @ rest) [] s)"
    using m buf rest ml by (intro feed_data) simp_all
  have "feed (thread_round h) ([0x55, 0xaa] @ m @ [c]) s =
      feed (thread_round h) (([0x55, 0xaa, x, l] @ rest) @ [c]) s"
    by (simp add: ml)
  also have "\<dots> = thread_round h c (loaded m [] s)"
    using head data by (simp only: feed_append sum.case ml) (simp split: sum.split)
  also have "\<dots> = Inr (s\<lparr>rx_state := WW_STATE, LEN_Token := m ! 1, tempDataLen := of_nat (length m - 2),
      FSC_Token := c, rxbuf := fill (m @ [sum_list m]) (rxbuf s)\<rparr>)"
  proof -
    have "crc_loop 0 (length m) (fill m (rxbuf s)) 0 = Inr (sum_list m)"
      using n(3) buf by (simp add: crc_loop_ok length_fill take_fill)
    with n c buf show ?thesis
      by (simp add: thread_round_def loaded_def st_fcs_def write_rxbuf_def length_fill fill_snoc goto_state_def)
  qed
  finally show ?thesis .
qed

section \<open>A length byte the buffer has no room for\<close>

definition bad_length :: "byte \<Rightarrow> bool" where
  "bad_length l \<longleftrightarrow> unat l < 2 \<or> 200 \<le> unat l"

lemma overrun_data:
  assumes "rx_state s = DATA_STATE" and "bad_length (LEN_Token s)" and "length (rxbuf s) = 200"
    and "tempDataLen s = of_nat k" "k \<le> 198" "199 \<le> k + length bs"
  shows "\<exists>t. feed (thread_round h) bs s = Inl (OutOfBounds, t)"
  using assms
proof (induction bs arbitrary: s k)
  case Nil
  then show ?case by simp
next
  case (Cons b bs)
  have uk: "unat (tempDataLen s) = k" using Cons.prems(4,5) by (simp add: unat_of_nat_byte)
  show ?case
  proof (cases "k = 198")
    case True
    then have "thread_round h b s = Inl (OutOfBounds, s)"
      using Cons.prems(1,3) uk by (simp add: thread_round_def st_data_def write_rxbuf_def)
    then show ?thesis by simp
  next
    case False
    then have k: "k < 198" using Cons.prems(5) by simp
    let ?t = "s\<lparr>rxbuf := (rxbuf s)[2 + k := b], tempDataLen := tempDataLen s + 1\<rparr>"
    have inc: "tempDataLen s + 1 = of_nat (Suc k)" using Cons.prems(4) by simp
    have u: "uint (tempDataLen s + 1) = int k + 1"
      using k uint_of_nat_byte [of "Suc k"] unfolding inc by simp
    have l: "uint (LEN_Token s) = int (unat (LEN_Token s))" by simp
    have "int k + 1 \<noteq> int (unat (LEN_Token s)) - 1"
      using Cons.prems(2) k unfolding bad_length_def by linarith
    then have "uint (tempDataLen s + 1) \<noteq> uint (LEN_Token s) - 1" by (simp only: u l not_False_eq_True)
    then have step: "thread_round h b s = Inr ?t"
      using Cons.prems(1,3) uk k by (simp add: thread_round_def st_data_def write_rxbuf_def)
    have "\<exists>t. feed (thread_round h) bs ?t = Inl (OutOfBounds, t)"
      using Cons.prems k inc by (intro Cons.IH [of ?t "Suc k"]) simp_all
    with step show ?thesis by simp
  qed
qed

lemma overrun:
  assumes s: "idle s" and l: "bad_length l" and bs: "199 \<le> length bs"
  shows "\<exists>t. feed (thread_round h) ([0x55, 0xaa, c, l] @ bs) s = Inl (OutOfBounds, t)"
proof -
  note buf = rx_idle_buf [OF s]
  have rest: "bs \<noteq> []" using bs by auto
  have head: "feed (thread_round h) [0x55, 0xaa, c, l] s = Inr (loaded [c, l] bs s)"
    using buf rest by (intro feed_header) simp_all
  have "\<exists>t. feed (thread_round h) bs (loaded [c, l] bs s) = Inl (OutOfBounds, t)"
    using bs l rest buf by (intro overrun_data [where k = 0]) (simp_all add: loaded_def length_fill)
  with head show ?thesis by (simp only: feed_append sum.case)
qed

end
