(* ===== verification/Zb_Http.thy ===== *)
theory Zb_Http
  imports Zb_Home Web_Common
begin

text \<open>
  The web side of \<^verbatim>\<open>zbclient.c\<close>: \<^verbatim>\<open>answer_to_connection\<close>, which libmicrohttpd calls for every part of a
  request, with \<^verbatim>\<open>send_page\<close>, \<^verbatim>\<open>iterate_post\<close> and \<^verbatim>\<open>request_completed\<close>. A JSON body is a command of the
  browser page, an XML body is a chat message that the WeChat server forwards. json-c and libxml2 are
  parameters: \<open>json_lib\<close> and the function \<open>xml\<close>.
\<close>

section \<open>The libraries\<close>

text \<open>
  \<^verbatim>\<open>xmlParseMemory\<close>, \<^verbatim>\<open>xmlDocGetRootElement\<close>, \<^verbatim>\<open>xmlNodeGetContent\<close>: the text is not a document, a
  document without a root, or one whose root has these children, each with its name and its content.
\<close>

datatype xml_doc = NoDoc | NoRoot | Children "(string \<times> string option) list"

type_synonym xml_lib = "string \<Rightarrow> xml_doc"

text \<open>What the C library and libmicrohttpd decide during a call.\<close>

record http_env =
  malloc_ok :: bool
  malloc_word :: int          \<comment> \<open>what the memory of \<^verbatim>\<open>con_info->connectiontype\<close> happens to hold\<close>
  calloc_ok :: "nat \<Rightarrow> bool"
  heap_after :: string        \<comment> \<open>the memory behind \<^verbatim>\<open>re_body\<close>\<close>
  create_ok :: bool           \<comment> \<open>\<^verbatim>\<open>MHD_create_response_from_buffer\<close> returns a response\<close>
  queue_ret :: mhd_ret        \<comment> \<open>what \<^verbatim>\<open>MHD_queue_response\<close> returns\<close>

text \<open>
  A call for a request. The body is the memory from \<^verbatim>\<open>connection->read_buffer\<close> on: the copy of
  libmicrohttpd in the repository returns this pointer for \<^verbatim>\<open>MHD_POSTDATA_KIND\<close>.
\<close>

record request =
  rq_url :: string
  rq_method :: string
  upload_size :: nat
  content_length :: "string option"
  rq_body :: "string option"

text \<open>\<^verbatim>\<open>struct connection_info_struct\<close>; the post processor is never set.\<close>

record con_info =
  connectiontype :: int
  answerstring :: "string option"

record answer =
  a_ret :: mhd_ret
  a_con :: "con_info option"  \<comment> \<open>\<^verbatim>\<open>*con_cls\<close> after the call\<close>
  a_left :: nat               \<comment> \<open>\<^verbatim>\<open>*upload_data_size\<close> after the call\<close>

definition POST_TYPE :: int where
  [simp]: "POST_TYPE = 1"

section \<open>Small functions\<close>

definition send_page :: "http_env \<Rightarrow> string \<Rightarrow> gateway \<Rightarrow> mhd_ret \<times> gateway" where
  "send_page env page s = (if \<not> create_ok env then (MHD_NO, s) else (queue_ret env, emit [Reply page] s))"

definition iterate_post :: "nat \<Rightarrow> mhd_ret" where
  "iterate_post sz = (if sz = 0 then MHD_NO else MHD_YES)"

text \<open>\<^verbatim>\<open>MHD_destroy_post_processor\<close> gets a pointer that was never set.\<close>

definition request_completed :: "con_info option \<Rightarrow> c_error + con_info option" where
  "request_completed con =
     (case con of
        None \<Rightarrow> Inr None
      | Some c \<Rightarrow> if connectiontype c = POST_TYPE then Inl WildPointer else Inr None)"

section \<open>Commands in JSON\<close>

definition named_id :: "string option \<Rightarrow> u16 \<Rightarrow> u16" where
  "named_id nm nid =
     (let q = (\<lambda>t. Some ([CHR 0x22] @ t @ [CHR 0x22]))
      in if nm = q ''KETING_ID'' then KETING_ID
         else if nm = q ''CANTING_ID'' then CANTING_ID
         else if nm = q ''CHUFANG_ID'' then CHUFANG_ID
         else if nm = q ''MENTING_ID'' then MENTING_ID
         else if nm = q ''GUODAO_ID'' then GUODAO_ID
         else if nm = q ''ZHUWO_ID'' then ZHUWO_ID
         else if nm = q ''CIWO_ID'' then CIWO_ID
         else nid)"

text \<open>
  The part of \<^verbatim>\<open>answer_to_connection\<close> for a body that json-c can read. \<^verbatim>\<open>strcmp\<close> of the null pointer is a
  null dereference.
\<close>

definition json_command :: "'j json_lib \<Rightarrow> 'j option \<Rightarrow> gateway cmd" where
  "json_command jl my_object =
     (let get = object_get_ex jl my_object;
          nid = word_of_int (get_int jl (get ''devid''));
          state11 = ucast (word_of_int (get_int jl (get ''state1'')) :: u16);
          state22 = ucast (word_of_int (get_int jl (get ''state2'')) :: u16);
          state33 = ucast (word_of_int (get_int jl (get ''state3'')) :: u16);
          name = to_json_string jl (get ''name'');
          q = (\<lambda>t. [CHR 0x22] @ t @ [CHR 0x22])
      in block
        [modify (\<lambda>s. s\<lparr>post_type := 1\<rparr>),
         case to_json_string jl (get ''type'') of
           None \<Rightarrow> fault NullDeref
         | Some type \<Rightarrow>
             if type = q ''control_down''
             then (if name = None then fault NullDeref
                   else MXJ_SendCtrlMessage (named_id name nid) 3 state11 state22 state33)
             else if type = q ''register_ok'' then MXJ_SendRegisterMessage nid MXJ_REGISTER_OK
             else if type = q ''register_failed'' then MXJ_SendRegisterMessage nid MXJ_REGISTER_FAILED
             else if type = q ''ask_state'' then MXJ_GetStateMessage nid
             else if type = q ''any_data'' then MXJ_SendCtrlMessage nid 3 state11 state22 state33
             else skip])"

section \<open>Chat messages in XML\<close>

text \<open>What the content of a message makes the gateway do; \<open>None\<close> for a text that is no command.\<close>

definition wechat_light :: "string \<Rightarrow> gateway cmd option" where
  "wechat_light uri =
     (if uri = w_kai_keting then Some (MXJ_SendCtrlMessage KETING_ID 3 1 1 1)
      else if uri = w_guan_keting then Some (MXJ_SendCtrlMessage KETING_ID 3 0 0 0)
      else if uri = w_kai_canting then Some (MXJ_SendCtrlMessage CANTING_ID 3 1 0 0)
      else if uri = w_guan_canting then Some (MXJ_SendCtrlMessage CANTING_ID 3 0 0 0)
      else if uri = w_kai_chufang then Some (MXJ_SendCtrlMessage CHUFANG_ID 3 1 0 0)
      else if uri = w_guan_chufang then Some (MXJ_SendCtrlMessage CHUFANG_ID 3 0 0 0)
      else if uri = w_kai_menting then Some (MXJ_SendCtrlMessage MENTING_ID 3 1 0 0)
      else if uri = w_guan_menting then Some (MXJ_SendCtrlMessage MENTING_ID 3 0 0 0)
      else if uri = w_kai_zhuwo then Some (MXJ_SendCtrlMessage ZHUWO_ID 3 1 0 0)
      else if uri = w_guan_zhuwo then Some (MXJ_SendCtrlMessage ZHUWO_ID 3 0 0 0)
      else if uri = w_kai_ciwo then Some (MXJ_SendCtrlMessage CIWO_ID 3 1 0 0)
      else if uri = w_guan_ciwo then Some (MXJ_SendCtrlMessage CIWO_ID 3 0 0 0)
      else if uri = w_kai_guodao then Some (MXJ_SendCtrlMessage GUODAO_ID 3 2 2 1)
      else if uri = w_guan_guodao then Some (MXJ_SendCtrlMessage GUODAO_ID 3 2 2 0)
      else if uri = w_kai_cesuo then Some (MXJ_SendCtrlMessage GUODAO_ID 3 1 2 2)
      else if uri = w_guan_cesuo then Some (MXJ_SendCtrlMessage GUODAO_ID 3 0 2 2)
      else None)"

definition wechat_other :: "string \<Rightarrow> gateway cmd option" where
  "wechat_other uri =
     (if uri = w_kai_chazuo then Some (MXJ_SendCtrlMessage POWER_CIWO_ID 1 1 2 2)
      else if uri = w_guan_chazuo then Some (MXJ_SendCtrlMessage POWER_CIWO_ID 1 0 2 2)
      else if uri = w_guan_zhuwo_chuanglian then Some (zhuwo_curtain 0 0 1)
      else if uri = w_kai_zhuwo_chuanglian then Some (zhuwo_curtain 1 0 0)
      else if uri = w_guan_keting_shalian then Some (keting_curtain 0 1 2 2 0 0 2 2)
      else if uri = w_kai_keting_shalian then Some (keting_curtain 1 0 2 2 0 0 2 2)
      else if uri = w_guan_keting_bulian then Some (keting_curtain 2 2 0 1 2 2 0 0)
      else if uri = w_kai_keting_bulian then Some (keting_curtain 2 2 1 0 2 2 0 0)
      else None)"

definition wechat_command :: "string \<Rightarrow> gateway cmd option" where
  "wechat_command uri = (case wechat_light uri of Some c \<Rightarrow> Some c | None \<Rightarrow> wechat_other uri)"

text \<open>The reply: the format of \<^verbatim>\<open>sprintf (strxml, ...)\<close>.\<close>

definition xml_reply :: "string \<Rightarrow> string \<Rightarrow> int \<Rightarrow> string \<Rightarrow> string" where
  "xml_reply from_user to_user t str_data =
     ''<xml><ToUserName><![CDATA['' @ from_user @ '']]></ToUserName><FromUserName><![CDATA['' @ to_user @
     '']]></FromUserName><CreateTime>'' @ dec t @
     ''</CreateTime><MsgType><![CDATA[text]]></MsgType><Content><![CDATA['' @ str_data @
     '']]></Content></xml>''"

text \<open>
  The local variables of the loop over the children: a \<^verbatim>\<open>char *\<close> is \<open>None\<close> until it is set, then the
  pointer it got, which may be null.
\<close>

record xml_vars =
  v_uri :: "string option option"
  v_from :: "string option option"
  v_to :: "string option option"

definition authorised :: "string \<Rightarrow> bool" where
  "authorised user \<longleftrightarrow> user = ''ogvN0w4jG360_wHow3gKLxG7wURY'' \<or> user = ''ogvN0w6AZVrJ7zbIjD58N6eEjJVY''"

text \<open>\<^verbatim>\<open>%s\<close> with a pointer that was never set or is null.\<close>

definition fmt_string :: "string option option \<Rightarrow> c_error + string" where
  "fmt_string v = (case v of None \<Rightarrow> Inl WildPointer | Some None \<Rightarrow> Inl NullDeref | Some (Some t) \<Rightarrow> Inr t)"

definition read_time :: "gateway \<Rightarrow> int \<times> gateway" where
  "read_time s = (tm_time (clock s (reads s)), s\<lparr>reads := Suc (reads s)\<rparr>)"

definition write_strxml :: "xml_vars \<Rightarrow> string \<Rightarrow> gateway cmd" where
  "write_strxml v str_data s =
     (case fmt_string (v_from v) of
        Inl e \<Rightarrow> Inl (e, s)
      | Inr from_user \<Rightarrow>
          (case fmt_string (v_to v) of
             Inl e \<Rightarrow> Inl (e, s)
           | Inr to_user \<Rightarrow>
               (case read_time s of (t, s) \<Rightarrow>
                  let x = xml_reply from_user to_user t str_data
                  in if length x < STRXML_SIZE then Inr (s\<lparr>strxml := x\<rparr>) else Inl (BufferOverflow, s))))"

definition xml_content :: "xml_vars \<Rightarrow> string \<Rightarrow> gateway cmd" where
  "xml_content v uri =
     (case wechat_command uri of
        Some c \<Rightarrow> block [c, write_strxml v uri]
      | None \<Rightarrow> write_strxml v help_text)"

text \<open>
  \<^verbatim>\<open>while (cur != NULL)\<close>: the result says whether the loop ran to its end or the function returned from
  within it, at a sender who is not authorised.
\<close>

datatype loop_end = Returned | Finished xml_vars

fun xml_loop :: "(string \<times> string option) list \<Rightarrow> xml_vars \<Rightarrow> gateway \<Rightarrow> (c_error \<times> gateway) + loop_end \<times> gateway" where
  "xml_loop [] v s = Inr (Finished v, s)"
| "xml_loop ((name, content) # cs) v s =
     (if name = ''CreateTime'' then xml_loop cs (v\<lparr>v_uri := Some content\<rparr>) s
      else if name = ''FromUserName''
      then (case content of
              None \<Rightarrow> Inl (NullDeref, s)
            | Some u \<Rightarrow>
                if authorised u
                then xml_loop cs (v\<lparr>v_uri := Some content, v_from := Some content\<rparr>) s
                else Inr (Returned, s))
      else if name = ''ToUserName''
      then xml_loop cs (v\<lparr>v_uri := Some content, v_to := Some content\<rparr>) s
      else if name = ''MsgType'' then xml_loop cs (v\<lparr>v_uri := Some content\<rparr>) s
      else if name = ''Content''
      then (case content of
              None \<Rightarrow> Inl (NullDeref, s)
            | Some u \<Rightarrow>
                (case xml_content (v\<lparr>v_uri := Some content\<rparr>) u s of
                   Inl f \<Rightarrow> Inl f
                 | Inr s \<Rightarrow> xml_loop cs (v\<lparr>v_uri := Some content\<rparr>) s))
      else xml_loop cs v s)"

definition no_vars :: xml_vars where
  "no_vars = \<lparr>v_uri = None, v_from = None, v_to = None\<rparr>"

text \<open>
  The part for a body that json-c cannot read. After the loop \<^verbatim>\<open>xmlFree (uri)\<close> gets the pointer of the last
  child with one of the names, or a pointer that was never set.
\<close>

definition xml_message :: "xml_lib \<Rightarrow> string \<Rightarrow> gateway \<Rightarrow> (c_error \<times> gateway) + bool \<times> gateway" where
  "xml_message xml re_body s =
     (let s = s\<lparr>post_type := 2\<rparr>
      in case xml re_body of
           NoDoc \<Rightarrow> Inr (False, s)
         | NoRoot \<Rightarrow> Inr (False, s)
         | Children cs \<Rightarrow>
             (case xml_loop cs no_vars s of
                Inl f \<Rightarrow> Inl f
              | Inr (Returned, s) \<Rightarrow> Inr (True, s)
              | Inr (Finished v, s) \<Rightarrow> if v_uri v = None then Inl (WildPointer, s) else Inr (False, s)))"

section \<open>answer\_to\_connection\<close>

text \<open>
  The body of a request: \<^verbatim>\<open>len2 = atoi (length); re_body = calloc (len2); strncpy (re_body, body, len2);\<close> A
  negative length is no size that \<^verbatim>\<open>calloc\<close> can serve.
\<close>

definition copy_body :: "http_env \<Rightarrow> request \<Rightarrow> string \<Rightarrow> c_error + string" where
  "copy_body env rq len_text =
     (let len2 = atoi len_text
      in if len2 = 0 then Inr []
         else if len2 < 0 \<or> \<not> calloc_ok env (nat len2) then Inl NullDeref
         else (case rq_body rq of
                 None \<Rightarrow> Inl NullDeref
               | Some body \<Rightarrow>
                   if strncpy_reads_ok (nat len2) body then Inr (strncpy (nat len2) body) else Inl OverRead))"

text \<open>
  What happens with the copied body; \<open>True\<close> when the function returned without a value. The string
  functions read \<^verbatim>\<open>re_body\<close> up to the first zero, \<^verbatim>\<open>xmlParseMemory\<close> gets its length.
\<close>

definition handle_body ::
    "'j json_lib \<Rightarrow> xml_lib \<Rightarrow> http_env \<Rightarrow> string \<Rightarrow> gateway \<Rightarrow> (c_error \<times> gateway) + bool \<times> gateway" where
  "handle_body jl xml env re_body s =
     (if re_body = [] then Inr (False, s)
      else if \<not> cstr_ends (re_body @ heap_after env) then Inl (OverRead, s)
      else (let my_object = tokener_parse jl (cstr (re_body @ heap_after env));
                txt = to_json_string jl my_object
            in if txt \<noteq> None \<and> txt \<noteq> Some ''null''
               then (case json_command jl my_object s of
                       Inl f \<Rightarrow> Inl f
                     | Inr s \<Rightarrow> Inr (False, s))
               else xml_message xml re_body s))"

definition post_upload ::
    "'j json_lib \<Rightarrow> xml_lib \<Rightarrow> http_env \<Rightarrow> request \<Rightarrow> gateway \<Rightarrow> (c_error \<times> gateway) + bool \<times> gateway" where
  "post_upload jl xml env rq s =
     (case content_length rq of
        None \<Rightarrow> Inr (False, s\<lparr>post_type := 0\<rparr>)
      | Some len_text \<Rightarrow>
          (case copy_body env rq len_text of
             Inl e \<Rightarrow> Inl (e, s)
           | Inr re_body \<Rightarrow> handle_body jl xml env re_body s))"

definition reply :: "http_env \<Rightarrow> request \<Rightarrow> con_info \<Rightarrow> string \<Rightarrow> gateway \<Rightarrow> answer \<times> gateway" where
  "reply env rq con page s =
     (case send_page env page s of (r, s) \<Rightarrow> (\<lparr>a_ret = r, a_con = Some con, a_left = upload_size rq\<rparr>, s))"

definition post_request ::
    "'j json_lib \<Rightarrow> xml_lib \<Rightarrow> http_env \<Rightarrow> request \<Rightarrow> con_info \<Rightarrow> gateway \<Rightarrow> (c_error \<times> gateway) + answer \<times> gateway" where
  "post_request jl xml env rq con s =
     (let s = (if rq_url rq = ''/zbClient/API/permit'' then s\<lparr>permitjoin := 1\<rparr> else s)
      in if upload_size rq \<noteq> 0
         then (case post_upload jl xml env rq s of
                 Inl f \<Rightarrow> Inl f
               | Inr (True, s) \<Rightarrow> Inr (\<lparr>a_ret = NoValue, a_con = Some con, a_left = upload_size rq\<rparr>, s)
               | Inr (False, s) \<Rightarrow> Inr (\<lparr>a_ret = MHD_YES, a_con = Some con, a_left = 0\<rparr>, s))
         else if post_type s = 2 then Inr (reply env rq con (strxml s) s)
         else if post_type s = 1 \<and> json_str s \<noteq> None then Inr (reply env rq con (the (json_str s)) s)
         else Inr (reply env rq con errorpage s))"

definition answer_to_connection ::
    "'j json_lib \<Rightarrow> xml_lib \<Rightarrow> http_env \<Rightarrow> request \<Rightarrow> con_info option \<Rightarrow> gateway \<Rightarrow>
     (c_error \<times> gateway) + answer \<times> gateway" where
  "answer_to_connection jl xml env rq con_cls s =
     (let s = read_clock s
      in case con_cls of
           None \<Rightarrow>
             if \<not> malloc_ok env then Inr (\<lparr>a_ret = MHD_NO, a_con = None, a_left = upload_size rq\<rparr>, s)
             else Inr (\<lparr>a_ret = MHD_YES,
                        a_con = Some \<lparr>connectiontype = malloc_word env, answerstring = None\<rparr>,
                        a_left = upload_size rq\<rparr>, s)
         | Some con \<Rightarrow>
             if rq_method rq = ''GET''
             then (case json_str s of
                     Some page \<Rightarrow> Inr (reply env rq con page s)
                   | None \<Rightarrow> Inr (reply env rq con errorpage s))
             else if rq_method rq = ''POST'' then post_request jl xml env rq con s
             else Inr (reply env rq con errorpage s))"

section \<open>The invariant\<close>

lemma home_inv_post_type: "home_inv dump s \<Longrightarrow> home_inv dump (s\<lparr>post_type := p\<rparr>)"
  and home_inv_permitjoin: "home_inv dump s \<Longrightarrow> home_inv dump (s\<lparr>permitjoin := j\<rparr>)"
  and home_inv_reads: "home_inv dump s \<Longrightarrow> home_inv dump (s\<lparr>reads := n\<rparr>)"
  and home_inv_strxml: "home_inv dump s \<Longrightarrow> length x < STRXML_SIZE \<Longrightarrow> home_inv dump (s\<lparr>strxml := x\<rparr>)"
  by (auto simp: home_inv_def home_table_def data_inv_def gateway_typed_def table_wf_def dev_ids_def clock_ok_def)

text \<open>
  The interface between the web callbacks and a property of the state: it is one the message handlers keep,
  and it is closed under the assignments only the callbacks make.
\<close>

locale web_inv = handler_inv I dump E
  for I :: "gateway \<Rightarrow> bool" and dump :: "json \<Rightarrow> string" and E :: "c_error \<Rightarrow> gateway \<Rightarrow> bool" +
  assumes I_post_type: "I s \<Longrightarrow> I (s\<lparr>post_type := p\<rparr>)"
    and I_permitjoin: "I s \<Longrightarrow> I (s\<lparr>permitjoin := j\<rparr>)"
    and I_reads: "I s \<Longrightarrow> I (s\<lparr>reads := n\<rparr>)"
    and I_strxml: "I s \<Longrightarrow> length x < STRXML_SIZE \<Longrightarrow> I (s\<lparr>strxml := x\<rparr>)"
begin

lemma json_command_inv: "triple I (json_command jl obj) I any_fault"
proof -
  have pt: "triple I (modify (\<lambda>s. s\<lparr>post_type := 1\<rparr>)) I any_fault"
    by (intro triple_modify I_post_type)
  note sends = triple_any_fault [OF SendCtrl_inv] triple_any_fault [OF SendRegister_inv(1)]
    triple_any_fault [OF SendRegister_inv(2)] triple_any_fault [OF GetState_inv]
  show ?thesis
  proof (cases "to_json_string jl (object_get_ex jl obj ''type'')")
    case None
    show ?thesis
      unfolding json_command_def Let_def None option.case by (intro inv_rules pt triple_fault_any)
  next
    case (Some type)
    show ?thesis
      unfolding json_command_def Let_def Some option.case
      by (intro inv_rules pt triple_fault_any sends; simp)
  qed
qed

lemma wechat_command_inv:
  "wechat_command uri = Some c \<Longrightarrow> triple I c I E"
  unfolding wechat_command_def wechat_light_def wechat_other_def
  by (auto intro!: SendCtrl_inv curtain_inv split: option.splits if_splits)

lemma write_strxml_inv:
  "I s \<Longrightarrow> write_strxml v t s = Inr u \<Longrightarrow> I u"
  unfolding write_strxml_def read_time_def
  by (auto simp: Let_def split: sum.splits if_splits intro!: I_strxml I_reads
      simp del: STRXML_SIZE_def)

lemma xml_content_inv: "I s \<Longrightarrow> xml_content v uri s = Inr u \<Longrightarrow> I u"
proof (cases "wechat_command uri")
  case None
  assume "I s" "xml_content v uri s = Inr u"
  with None show ?thesis by (simp add: xml_content_def write_strxml_inv)
next
  case (Some c)
  assume s: "I s" and u: "xml_content v uri s = Inr u"
  from u Some obtain t where t: "c s = Inr t" "write_strxml v uri t = Inr u"
    by (auto simp: xml_content_def split: sum.splits)
  with triple_Inr [OF wechat_command_inv [OF Some] s] show ?thesis using write_strxml_inv by blast
qed

lemma xml_loop_inv: "I s \<Longrightarrow> xml_loop cs v s = Inr (r, t) \<Longrightarrow> I t"
  by (induction cs v s rule: xml_loop.induct)
    (auto split: if_splits option.splits sum.splits intro: xml_content_inv)

lemma handle_body_inv: "I s \<Longrightarrow> handle_body jl xml env b s = Inr (r, t) \<Longrightarrow> I t"
  unfolding handle_body_def xml_message_def Let_def
  by (auto split: if_splits sum.splits xml_doc.splits loop_end.splits
      intro: I_post_type xml_loop_inv triple_Inr [OF json_command_inv])

lemma post_upload_inv: "I s \<Longrightarrow> post_upload jl xml env rq s = Inr (r, t) \<Longrightarrow> I t"
  unfolding post_upload_def
  by (auto split: option.splits sum.splits intro: I_post_type handle_body_inv)

lemma reply_inv: "I s \<Longrightarrow> reply env rq con page s = (a, t) \<Longrightarrow> I t"
  by (auto simp: reply_def send_page_def intro: I_emit split: if_splits)

lemma post_request_inv:
  "I s \<Longrightarrow> post_request jl xml env rq con s = Inr (a, t) \<Longrightarrow> I t"
  unfolding post_request_def Let_def
  by (auto split: if_splits sum.splits bool.splits intro: post_upload_inv reply_inv I_permitjoin)

lemma answer_inv:
  assumes "I s" and "answer_to_connection jl xml env rq con s = Inr (a, t)"
  shows "I t"
proof -
  have "I (read_clock s)" using assms(1) by (rule I_read_clock)
  with assms(2) show ?thesis
    unfolding answer_to_connection_def Let_def
    by (auto split: option.splits if_splits intro: post_request_inv reply_inv)
qed

end

interpretation home_web: web_inv "home_inv dump" dump no_fault for dump
  by unfold_locales (simp_all add: home_inv_post_type home_inv_permitjoin home_inv_reads home_inv_strxml
    del: STRXML_SIZE_def)

section \<open>Who may send commands\<close>

definition no_content :: "(string \<times> string option) list \<Rightarrow> bool" where
  "no_content cs \<longleftrightarrow> list_all (\<lambda>(n, c). n \<noteq> ''Content'' \<and> (n = ''FromUserName'' \<longrightarrow> c \<noteq> None)) cs"

text \<open>
  A message whose sender comes before its content and is not on the list ends the function: nothing is
  sent, nothing changes.
\<close>

lemma xml_loop_unauthorised:
  "no_content pre \<Longrightarrow> \<not> authorised u \<Longrightarrow>
   xml_loop (pre @ (''FromUserName'', Some u) # post) v s = Inr (Returned, s)"
proof (induction pre arbitrary: v)
  case Nil
  then show ?case by simp
next
  case (Cons p pre)
  obtain n c where p: "p = (n, c)" by (cases p)
  have IH: "xml_loop (pre @ (''FromUserName'', Some u) # post) w s = Inr (Returned, s)" for w
    using Cons by (simp add: no_content_def)
  have n: "n \<noteq> ''Content''" "n = ''FromUserName'' \<Longrightarrow> \<exists>x. c = Some x"
    using Cons.prems(1) p by (auto simp: no_content_def)
  show ?case
  proof (cases "n = ''FromUserName''")
    case True
    with n(2) obtain x where "c = Some x" by blast
    with True show ?thesis by (simp add: p IH)
  next
    case False
    then show ?thesis unfolding p append_Cons xml_loop.simps using n(1) by (simp only: IH if_False if_cancel)
  qed
qed

definition no_sender :: "(string \<times> string option) list \<Rightarrow> bool" where
  "no_sender cs \<longleftrightarrow> list_all (\<lambda>(n, c). n \<noteq> ''Content'' \<and> n \<noteq> ''FromUserName'') cs"

text \<open>
  A message whose content comes before its sender, or that has no sender, runs its command before the
  reply fails on the sender that was never set.
\<close>

lemma write_strxml_no_sender: "v_from v = None \<Longrightarrow> write_strxml v t s = Inl (WildPointer, s)"
  by (simp add: write_strxml_def fmt_string_def)

lemma xml_loop_no_sender:
  "no_sender pre \<Longrightarrow> v_from v = None \<Longrightarrow> wechat_command w = Some c \<Longrightarrow> c s = Inr t \<Longrightarrow>
   xml_loop (pre @ (''Content'', Some w) # post) v s = Inl (WildPointer, t)"
proof (induction pre arbitrary: v)
  case Nil
  then show ?case by (simp add: xml_content_def write_strxml_no_sender)
next
  case (Cons p pre)
  obtain n x where p: "p = (n, x)" by (cases p)
  have IH: "xml_loop (pre @ (''Content'', Some w) # post) y s = Inl (WildPointer, t)" if "v_from y = None" for y
    using Cons that by (simp add: no_sender_def)
  have "n \<noteq> ''Content''" "n \<noteq> ''FromUserName''" using Cons.prems(1) p by (auto simp: no_sender_def)
  moreover have "v_from (v\<lparr>v_uri := Some x\<rparr>) = None" "v_from (v\<lparr>v_uri := Some x, v_to := Some x\<rparr>) = None"
    using Cons.prems(2) by simp_all
  ultimately show ?case
    unfolding p append_Cons xml_loop.simps using Cons.prems(2) by (simp only: IH if_False if_cancel)
qed

lemma xml_loop_unknown:
  "\<forall>n c. (n, c) \<in> set cs \<longrightarrow> n \<notin> {''CreateTime'', ''FromUserName'', ''ToUserName'', ''MsgType'', ''Content''} \<Longrightarrow>
   xml_loop cs v s = Inr (Finished v, s)"
proof (induction cs)
  case Nil
  then show ?case by simp
next
  case (Cons p cs)
  obtain n c where p: "p = (n, c)" by (cases p)
  have "n \<noteq> ''CreateTime''" "n \<noteq> ''FromUserName''" "n \<noteq> ''ToUserName''" "n \<noteq> ''MsgType''" "n \<noteq> ''Content''"
    using Cons.prems p by auto
  moreover have "xml_loop cs v s = Inr (Finished v, s)" by (rule Cons.IH) (use Cons.prems in auto)
  ultimately show ?case by (simp only: p xml_loop.simps if_False)
qed

text \<open>A message in the order of the WeChat server.\<close>

definition wechat_doc :: "string \<Rightarrow> string \<Rightarrow> string \<Rightarrow> string \<Rightarrow> string \<Rightarrow> (string \<times> string option) list" where
  "wechat_doc to_user from_user ct w mid =
     [(''ToUserName'', Some to_user), (''FromUserName'', Some from_user), (''CreateTime'', Some ct),
      (''MsgType'', Some ''text''), (''Content'', Some w), (''MsgId'', Some mid)]"

lemma length_xml_reply:
  "length (xml_reply f t n d) = 180 + length f + length t + length (dec n) + length d"
  by (simp add: xml_reply_def)

lemma length_authorised: "authorised u \<Longrightarrow> length u = 28"
  by (auto simp: authorised_def)

lemma length_help_text: "length help_text = 242"
  by (simp add: help_text_def)

section \<open>A body that arrives whole\<close>

text \<open>
  A \<^verbatim>\<open>POST\<close> call with a whole body: the header tells its length, memory for the copy is there, and the
  byte behind the copy is zero, which the code relies on.
\<close>

definition carries :: "http_env \<Rightarrow> request \<Rightarrow> string \<Rightarrow> bool" where
  "carries env rq txt \<longleftrightarrow> rq_method rq = ''POST'' \<and> rq_url rq \<noteq> ''/zbClient/API/permit'' \<and>
     upload_size rq \<noteq> 0 \<and> txt \<noteq> [] \<and> NUL \<notin> set txt \<and> length txt < 2 ^ 31 \<and>
     content_length rq = Some (dec (int (length txt))) \<and> (\<exists>rest. rq_body rq = Some (txt @ rest)) \<and>
     calloc_ok env (length txt) \<and> (\<exists>h. heap_after env = NUL # h)"

lemma copy_body_carries: "carries env rq txt \<Longrightarrow> copy_body env rq (dec (int (length txt))) = Inr txt"
proof -
  assume c: "carries env rq txt"
  then have "atoi (dec (int (length txt))) = int (length txt)"
    by (intro atoi_dec) (auto simp: carries_def)
  moreover from c obtain rest where "rq_body rq = Some (txt @ rest)" by (auto simp: carries_def)
  moreover have "strncpy (length txt) (txt @ r) = txt" for r
    using c by (intro strncpy_exact) (auto simp: carries_def)
  ultimately show ?thesis
    using c by (auto simp: copy_body_def carries_def Let_def strncpy_reads_ok_def)
qed

lemma post_upload_carries:
  assumes c: "carries env rq txt"
  shows "post_upload jl xml env rq s =
    (let obj = tokener_parse jl txt; t = to_json_string jl obj
     in if t \<noteq> None \<and> t \<noteq> Some ''null''
        then (case json_command jl obj s of Inl f \<Rightarrow> Inl f | Inr s \<Rightarrow> Inr (False, s))
        else xml_message xml txt s)"
proof -
  from c obtain h where h: "heap_after env = NUL # h" by (auto simp: carries_def)
  have "cstr (txt @ NUL # h) = txt" using c by (intro cstr_text_zero) (auto simp: carries_def)
  moreover have "txt \<noteq> []" "cstr_ends (txt @ NUL # h)" "content_length rq = Some (dec (int (length txt)))"
    using c by (auto simp: carries_def cstr_ends_def)
  ultimately show ?thesis
    by (simp add: post_upload_def copy_body_carries [OF c] handle_body_def h Let_def)
qed

lemma answer_carries:
  assumes "carries env rq txt"
  shows "answer_to_connection jl xml env rq (Some con) s =
    (case post_upload jl xml env rq (read_clock s) of
       Inl f \<Rightarrow> Inl f
     | Inr (True, t) \<Rightarrow> Inr (\<lparr>a_ret = NoValue, a_con = Some con, a_left = upload_size rq\<rparr>, t)
     | Inr (False, t) \<Rightarrow> Inr (\<lparr>a_ret = MHD_YES, a_con = Some con, a_left = 0\<rparr>, t))"
  using assms by (simp add: answer_to_connection_def post_request_def carries_def)

lemma answer_get:
  assumes "rq_method rq = ''GET''" and "create_ok env" and "json_str s = Some page"
  shows "answer_to_connection jl xml env rq (Some con) s =
    Inr (\<lparr>a_ret = queue_ret env, a_con = Some con, a_left = upload_size rq\<rparr>, emit [Reply page] (read_clock s))"
  using assms by (simp add: answer_to_connection_def reply_def send_page_def)

text \<open>A \<^verbatim>\<open>control_down\<close> command of the page.\<close>

definition rooms :: "(string \<times> u16) list" where
  "rooms = [(''KETING_ID'', KETING_ID), (''CANTING_ID'', CANTING_ID), (''CHUFANG_ID'', CHUFANG_ID),
     (''MENTING_ID'', MENTING_ID), (''GUODAO_ID'', GUODAO_ID), (''ZHUWO_ID'', ZHUWO_ID), (''CIWO_ID'', CIWO_ID)]"

definition in_quotes :: "string \<Rightarrow> string" where
  "in_quotes t = [CHR 0x22] @ t @ [CHR 0x22]"

lemma named_id_rooms: "(nm, room) \<in> set rooms \<Longrightarrow> named_id (Some (in_quotes nm)) nid = room"
  by (auto simp: rooms_def named_id_def in_quotes_def Let_def)

lemma json_control:
  assumes "to_json_string jl (object_get_ex jl obj ''type'') = Some (in_quotes ''control_down'')"
    and "to_json_string jl (object_get_ex jl obj ''name'') = Some (in_quotes nm)" and "(nm, room) \<in> set rooms"
    and "get_int jl (object_get_ex jl obj ''state1'') = uint b1" "get_int jl (object_get_ex jl obj ''state2'') = uint b2"
    "get_int jl (object_get_ex jl obj ''state3'') = uint b3"
  shows "json_command jl obj s = Inr (sent (ctrl_msg room 3 b1 b2 b3) (s\<lparr>post_type := 1\<rparr>))"
proof -
  have cast: "ucast (ucast b :: u16) = (b :: byte)" for b
    by (rule bit_word_eqI) (simp add: bit_unsigned_iff)
  show ?thesis
    using assms named_id_rooms [OF assms(3)]
    by (simp add: json_command_def Let_def cast in_quotes_def tx_simps del: ctrl_msg_3)
qed

text \<open>A chat message of an authorised sender.\<close>

lemma wechat_done:
  assumes "authorised from_user" and "wechat_command w = Some c" and "c s = Inr t"
    and "length (xml_reply from_user to_user (tm_time (clock t (reads t))) w) < STRXML_SIZE"
  shows "xml_loop (wechat_doc to_user from_user ct w mid) no_vars s =
    Inr (Finished \<lparr>v_uri = Some (Some w), v_from = Some (Some from_user), v_to = Some (Some to_user)\<rparr>,
      t\<lparr>reads := Suc (reads t), strxml := xml_reply from_user to_user (tm_time (clock t (reads t))) w\<rparr>)"
  using assms by (simp add: wechat_doc_def no_vars_def xml_content_def write_strxml_def fmt_string_def read_time_def)

lemma wechat_command_short: "wechat_command w = Some c \<Longrightarrow> length w \<le> 21"
  unfolding wechat_command_def wechat_light_def wechat_other_def
  by (auto simp: word_texts split: option.splits if_splits)

lemma home_time_text:
  assumes "home_inv dump s"
  shows "length (dec (tm_time (clock s n))) \<le> 11"
proof -
  have "tm_int32 (clock s n)" using assms by (simp add: home_inv_def home_table_def data_inv_def clock_ok_def)
  then show ?thesis by (rule tm_int32_dec)
qed

lemma wechat_reply_fits:
  assumes "home_inv dump s" and "authorised f" and "wechat_command w = Some c" and "length to_user \<le> 200"
  shows "length (xml_reply f to_user (tm_time (clock s n)) w) < STRXML_SIZE"
  using home_time_text [OF assms(1), of n] length_authorised [OF assms(2)] wechat_command_short [OF assms(3)] assms(4)
  by (simp add: length_xml_reply)

lemma answer_xml:
  assumes "carries env rq txt" and "to_json_string jl (tokener_parse jl txt) = Some ''null''"
  shows "answer_to_connection jl xml env rq (Some con) s =
    (case xml_message xml txt (read_clock s) of
       Inl f \<Rightarrow> Inl f
     | Inr (True, t) \<Rightarrow> Inr (\<lparr>a_ret = NoValue, a_con = Some con, a_left = upload_size rq\<rparr>, t)
     | Inr (False, t) \<Rightarrow> Inr (\<lparr>a_ret = MHD_YES, a_con = Some con, a_left = 0\<rparr>, t))"
  by (simp add: answer_carries [OF assms(1)] post_upload_carries [OF assms(1)] assms(2))

text \<open>The last call of a \<^verbatim>\<open>POST\<close> request, without data, sends the reply to a chat message.\<close>

lemma answer_post_end:
  assumes "rq_method rq = ''POST''" and "rq_url rq \<noteq> ''/zbClient/API/permit''" and "upload_size rq = 0"
    and "create_ok env" and "post_type s = 2"
  shows "answer_to_connection jl xml env rq (Some con) s =
    Inr (\<lparr>a_ret = queue_ret env, a_con = Some con, a_left = 0\<rparr>, emit [Reply (strxml s)] (read_clock s))"
  using assms by (simp add: answer_to_connection_def post_request_def reply_def send_page_def)

lemma wechat_command_keeps:
  assumes "wechat_command w = Some c" and "c s = Inr t"
  shows "post_type t = post_type s \<and> clock t = clock s"
proof -
  have "triple (\<lambda>s'. post_type s' = post_type s \<and> clock s' = clock s) c
      (\<lambda>s'. post_type s' = post_type s \<and> clock s' = clock s) any_fault"
    using assms(1) unfolding wechat_command_def wechat_light_def wechat_other_def
    by (auto simp: triple_def tx_simps zhuwo_curtain_def keting_curtain_def usleep_def send_usart_frame
        split: option.splits if_splits sum.splits)
  from triple_Inr [OF this _ assms(2)] show ?thesis by simp
qed

end
