(* ===== verification/Zb_System.thy ===== *)
theory Zb_System
  imports Zb_Wire Zb_Http Step_System
begin

text \<open>
  The whole gateway of \<^verbatim>\<open>zbclient.c\<close>: its serial thread, its web server and its main loop work on the same
  global variables. A step is one byte from the serial line, one call of \<^verbatim>\<open>answer_to_connection\<close>, or one
  round of the main loop, in any order. What can interleave within such a step is in \<open>Zb_Race\<close>, for the
  countdown and the serial line.
\<close>

inductive zb_step :: "(json \<Rightarrow> string) \<Rightarrow> 'j json_lib \<Rightarrow> xml_lib \<Rightarrow> main_t \<Rightarrow> main_t \<Rightarrow> bool"
  for dump :: "json \<Rightarrow> string" and jl :: "'j json_lib" and xml :: xml_lib
  where
  serial: "thread_byte dump after b (gw m) = Inr t \<Longrightarrow> zb_step dump jl xml m (m\<lparr>gw := t\<rparr>)"
| web: "answer_to_connection jl xml env rq con (gw m) = Inr (a, t) \<Longrightarrow> zb_step dump jl xml m (m\<lparr>gw := t\<rparr>)"
| tick: "main_tick m = Inr n \<Longrightarrow> zb_step dump jl xml m n"

inductive_cases zb_stepE: "zb_step dump jl xml m n"

text \<open>The states in which \<^verbatim>\<open>main\<close> enters its loop, for some course of time and with memory for the text.\<close>

definition zb_init :: "(json \<Rightarrow> string) \<Rightarrow> main_t \<Rightarrow> bool" where
  "zb_init dump m \<longleftrightarrow> dump_bound dump \<and> flag_hour m = 0 \<and> jcount m = 0 \<and>
     (\<exists>e cl. json_calloc e \<and> (\<forall>n. tm_int32 (cl n)) \<and>
        main_start dump e (initial cl) = Inr (None, gw m))"

section \<open>Every round of the thread keeps the table\<close>

lemma home_table_rx_cong:
  assumes "home_table names s" and "length (rxbuf t) = 200"
    and "mxj_device t = mxj_device s" "devsize t = devsize s" "strxml t = strxml s" "json_str t = json_str s"
    "humand t = humand s" "clock t = clock s" "tblock t = tblock s"
  shows "home_table names t"
  using assms by (auto simp: home_table_def data_inv_def gateway_typed_def table_wf_def dev_ids_def clock_ok_def)

lemma home_table_rxbuf: "home_table names s \<Longrightarrow> length (rxbuf s) = 200"
  by (simp add: home_table_def data_inv_def gateway_typed_def)

lemma write_rxbuf_home: "triple (home_table names) (write_rxbuf i b) (home_table names) any_fault"
proof (rule tripleI)
  fix s t
  assume s: "home_table names s" and "write_rxbuf i b s = Inr t"
  then have t: "t = s\<lparr>rxbuf := (rxbuf s)[i := b]\<rparr>" by (auto simp: write_rxbuf_def split: if_splits)
  show "home_table names t"
    unfolding t by (rule home_table_rx_cong [OF s]) (simp_all add: home_table_rxbuf [OF s])
qed simp

lemma modify_rx_home:
  assumes "\<And>s. rxbuf (f s) = rxbuf s" "\<And>s. mxj_device (f s) = mxj_device s" "\<And>s. devsize (f s) = devsize s"
    "\<And>s. strxml (f s) = strxml s" "\<And>s. json_str (f s) = json_str s" "\<And>s. humand (f s) = humand s"
    "\<And>s. clock (f s) = clock s" "\<And>s. tblock (f s) = tblock s"
  shows "triple (home_table names) (modify f) (home_table names) E"
proof (rule triple_modify)
  fix s
  assume s: "home_table names s"
  show "home_table names (f s)" by (rule home_table_rx_cong [OF s]) (simp_all add: assms home_table_rxbuf [OF s])
qed

lemma rx_vars_home:
  "triple (home_table names) (goto_state q) (home_table names) E"
  "triple (home_table names) (modify (\<lambda>s. s\<lparr>LEN_Token := l, tempDataLen := n\<rparr>)) (home_table names) E"
  "triple (home_table names) (modify (\<lambda>s. s\<lparr>tempDataLen := tempDataLen s + 1\<rparr>)) (home_table names) E"
  "triple (home_table names) (modify (\<lambda>s. s\<lparr>FSC_Token := l\<rparr>)) (home_table names) E"
  "triple (home_table names) (modify (\<lambda>s. s\<lparr>rx_len := LEN_Token s + 1\<rparr>)) (home_table names) E"
  unfolding goto_state_def by (rule modify_rx_home; simp)+

lemma crc_case_home:
  "(\<And>c. triple (home_table names) (f c) (home_table names) any_fault) \<Longrightarrow>
   triple (home_table names) (case r of Inl e \<Rightarrow> fault e | Inr c \<Rightarrow> f c) (home_table names) any_fault"
  by (cases r) (simp_all add: triple_fault_any)

lemma thread_round_home:
  "(\<And>rx len. triple (home_table names) (h rx len) (home_table names) any_fault) \<Longrightarrow>
   triple (home_table names) (thread_round h b) (home_table names) any_fault"
  unfolding thread_round_def st_cmd_def st_len_def st_data_def st_fcs_def
  by (intro inv_rules rx_vars_home write_rxbuf_home crc_case_home)

section \<open>Every step keeps the invariant\<close>

lemma thread_byte_home_table:
  "home_table boot_names s \<Longrightarrow> thread_byte dump after b s = Inr t \<Longrightarrow> home_table boot_names t"
proof -
  assume s: "home_table boot_names s" and t: "thread_byte dump after b s = Inr t"
  have h: "triple (home_table boot_names) (recieve_usart dump after rx len) (home_table boot_names) any_fault" for rx len
    by (rule handler_inv.recieve_inv [OF home_table_handled]) simp
  have "triple (home_table boot_names) (thread_byte dump after b) (home_table boot_names) any_fault"
    unfolding thread_byte_def by (rule thread_round_home) (rule h)
  from triple_Inr [OF this s t] show ?thesis .
qed

lemma zb_step_inv: "main_inv dump m \<Longrightarrow> zb_step dump jl xml m n \<Longrightarrow> main_inv dump n"
proof (erule zb_stepE)
  fix after b t
  assume m: "main_inv dump m" and t: "thread_byte dump after b (gw m) = Inr t" and n: "n = m\<lparr>gw := t\<rparr>"
  with thread_byte_home_table [OF _ t] show ?thesis by (simp add: main_inv_def home_inv_def)
next
  fix env :: http_env and rq :: request and con a t
  assume m: "main_inv dump m" and t: "answer_to_connection jl xml env rq con (gw m) = Inr (a, t)"
    and n: "n = m\<lparr>gw := t\<rparr>"
  with home_web.answer_inv [OF _ t] show ?thesis by (auto simp: main_inv_def)
next
  assume "main_inv dump m" "main_tick m = Inr n"
  with main_tick_inv [of dump m] show ?thesis by auto
qed

lemma zb_init_inv: "zb_init dump m \<Longrightarrow> main_inv dump m"
proof -
  assume m: "zb_init dump m"
  then obtain e cl where e: "json_calloc e" "\<And>n. tm_int32 (cl n)" "main_start dump e (initial cl) = Inr (None, gw m)"
    and d: "dump_bound dump" and c: "flag_hour m = 0" "jcount m = 0"
    by (auto simp: zb_init_def)
  have up: "main_setup e = None" using e(3) by (rule main_start_up)
  obtain t where "main_start dump e (initial cl) = Inr (None, t)" "home_inv dump t"
    by (rule main_start_home [OF e(1) up e(2) d])
  with e(3) c show ?thesis by (simp add: main_inv_def)
qed

interpretation zb: step_system "zb_init dump" "zb_step dump jl xml" "main_inv dump" for dump jl xml
  by unfold_locales (auto intro: zb_init_inv zb_step_inv)

end
