(* ===== verification/Zb_Examples.thy ===== *)
theory Zb_Examples
  imports Zb_System
begin

text \<open>
  Concrete instances for the parameters of the model, with which the properties are applied: a renderer
  that lays JSON out as json-c does, a clock, a start of the gateway with them, and small stand-ins for
  json-c and libxml2.
\<close>

section \<open>A renderer\<close>

fun join_text :: "string list \<Rightarrow> string" where
  "join_text [] = []"
| "join_text [t] = t"
| "join_text (t # u # ts) = t @ '', '' @ join_text (u # ts)"

definition quoted :: "string \<Rightarrow> string" where
  "quoted t = [CHR 0x22] @ t @ [CHR 0x22]"

fun spaced :: "json \<Rightarrow> string" where
  "spaced (JInt i) = dec i"
| "spaced (JString t) = quoted t"
| "spaced (JArray js) = ''[ '' @ join_text (map spaced js) @ '' ]''"
| "spaced (JObject ps) = [CHR 0x7B] @ '' '' @ join_text (map (\<lambda>(k, v). quoted k @ '': '' @ spaced v) ps) @
     '' '' @ [CHR 0x7D]"

lemma length_dec_u16: "length (dec (uint (x :: u16))) \<le> 5"
proof -
  have "unat x < 2 ^ LENGTH(16)" by (rule unsigned_less)
  then show ?thesis using length_dec_nat [of 5 "unat x"] by (simp add: dec_def)
qed

lemma length_dec_byte: "length (dec (uint (x :: byte))) \<le> 3"
proof -
  have "unat x < 2 ^ LENGTH(8)" by (rule unsigned_less)
  then show ?thesis using length_dec_nat [of 3 "unat x"] by (simp add: dec_def)
qed

lemma name_field_cases:
  "name_field nid = [] \<or> (\<exists>t. name_field nid = [(''name'', JString t)] \<and> length t \<le> 10)"
  by (simp add: name_field_def)

lemma sum_le_17: "a \<le> 5 \<Longrightarrow> b \<le> 3 \<Longrightarrow> c \<le> 3 \<Longrightarrow> d \<le> 3 \<Longrightarrow> e \<le> 3 \<Longrightarrow> a + b + c + d + e \<le> (17 :: nat)"
  by simp

lemma spaced_dev_bound:
  assumes "r = [] \<or> (\<exists>t. r = [(''name'', JString t)] \<and> length t \<le> 10)"
  shows "length (spaced (JObject
      ([(''id'', JInt (uint (d_id d))), (''nameChinese'', JString nm),
        (''type'', JInt (uint (d_type d))),
        (''status'', JArray [JInt (uint (d_state d ! 0)), JInt (uint (d_state d ! 1)),
                             JInt (uint (d_state d ! 2))])] @ r)))
    \<le> 76 + length nm + (if r = [] then 0 else 22)"
proof -
  define k where "k = length (dec (uint (d_id d))) + length (dec (uint (d_type d))) +
    length (dec (uint (d_state d ! 0))) + length (dec (uint (d_state d ! 1))) + length (dec (uint (d_state d ! 2)))"
  have k: "k \<le> 17"
    unfolding k_def by (intro sum_le_17 length_dec_u16 length_dec_byte)
  from assms show ?thesis
  proof
    assume "r = []"
    with k show ?thesis by (simp add: quoted_def k_def)
  next
    assume "\<exists>t. r = [(''name'', JString t)] \<and> length t \<le> 10"
    with k show ?thesis by (auto simp: quoted_def k_def)
  qed
qed

lemma dump_bound_spaced: "dump_bound spaced"
  unfolding dump_bound_def dev_obj_def by (intro allI impI spaced_dev_bound name_field_cases)

section \<open>A start of the gateway\<close>

definition noon :: tm where
  "noon = \<lparr>tm_year = 117, tm_mon = 4, tm_mday = 1, tm_hour = 12, tm_min = 0, tm_sec = 0, tm_time = 1493611200\<rparr>"

definition good_setup :: setup_env where
  "good_setup = \<lparr>json_calloc = True, wiringPiSetup_ret = 0, serialOpen_ret = 3, pthread_create_ret = 0,
     curl_easy_init_ok = True, MHD_start_ok = True\<rparr>"

definition started :: gateway where
  "started = (case main_start spaced good_setup (initial (\<lambda>n. noon)) of Inl (e, s) \<Rightarrow> s | Inr (r, s) \<Rightarrow> s)"

definition started_main :: main_t where
  "started_main = \<lparr>gw = started, flag_hour = 0, jcount = 0\<rparr>"

lemma noon_int32: "tm_int32 noon"
  by (simp add: tm_int32_def noon_def)

lemma started_run:
  "main_start spaced good_setup (initial (\<lambda>n. noon)) = Inr (None, started)"
  "home_inv spaced started" "rx_state started = WW_STATE"
  "mxj_device started = map mk_dev boot_list @ replicate 181 no_device" "humand started = 0"
proof -
  have "json_calloc good_setup" "main_setup good_setup = None" by (simp_all add: good_setup_def main_setup_def)
  then obtain t where t: "main_start spaced good_setup (initial (\<lambda>n. noon)) = Inr (None, t)" "home_inv spaced t"
      "rx_state t = WW_STATE" "mxj_device t = map mk_dev boot_list @ replicate 181 no_device" "humand t = 0"
    using noon_int32 dump_bound_spaced by (rule main_start_home)
  then have "started = t" by (simp add: started_def)
  with t show "main_start spaced good_setup (initial (\<lambda>n. noon)) = Inr (None, started)"
    "home_inv spaced started" "rx_state started = WW_STATE"
    "mxj_device started = map mk_dev boot_list @ replicate 181 no_device" "humand started = 0" by simp_all
qed

lemmas started_humand = started_run(5)

lemma started_idle: "idle started"
  using started_run(2,3) by (simp add: idle_def home_inv_data)

lemma started_init: "zb_init spaced started_main"
proof -
  have "json_calloc good_setup" by (simp add: good_setup_def)
  with started_run(1) noon_int32 dump_bound_spaced show ?thesis
    by (auto simp: zb_init_def started_main_def intro!: exI [of _ good_setup] exI [of _ "\<lambda>n. noon"])
qed

lemma started_main_inv: "main_inv spaced started_main"
  using started_run(2) by (simp add: main_inv_def started_main_def)

lemma started_table: "table_wf started" "devsize started = 19"
  using started_run(2) by (auto simp: home_inv_def home_table_def data_inv_def)

lemma started_live: "live_devs started = map mk_dev boot_list"
  using started_run(4) started_table(2) by (simp add: live_devs_def boot_list_def)

section \<open>Stand-ins for json-c and libxml2\<close>

text \<open>They understand one text each; the library calls on objects are those of json-c.\<close>

definition page_text :: string where
  "page_text = ''<control>''"

definition page_object :: json where
  "page_object = JObject [(''type'', JString ''control_down''), (''name'', JString ''KETING_ID''),
     (''state1'', JInt 1), (''state2'', JInt 0), (''state3'', JInt 2)]"

definition toy_json :: "json json_lib" where
  "toy_json = \<lparr>tokener_parse = (\<lambda>t. if t = page_text then Some page_object else None),
     to_json_string = (\<lambda>ob. case ob of None \<Rightarrow> Some ''null'' | Some j \<Rightarrow> Some (spaced j)),
     object_get_ex = (\<lambda>ob k. case ob of Some (JObject ps) \<Rightarrow> map_of ps k | _ \<Rightarrow> None),
     get_int = (\<lambda>ob. case ob of Some (JInt i) \<Rightarrow> i | _ \<Rightarrow> 0)\<rparr>"

definition owner :: string where
  "owner = ''ogvN0w4jG360_wHow3gKLxG7wURY''"

definition chat_text :: string where
  "chat_text = ''<xml>owner</xml>''"

definition toy_xml :: xml_lib where
  "toy_xml t = (if t = chat_text then Children (wechat_doc ''gh_1'' owner ''1'' w_kai_keting ''7'') else NoDoc)"

definition calm_env :: http_env where
  "calm_env = \<lparr>malloc_ok = True, malloc_word = 0, calloc_ok = (\<lambda>n. True), heap_after = [NUL], create_ok = True,
     queue_ret = MHD_YES\<rparr>"

definition post_of :: "string \<Rightarrow> request" where
  "post_of txt = \<lparr>rq_url = ''/'', rq_method = ''POST'', upload_size = length txt,
     content_length = Some (dec (int (length txt))), rq_body = Some (txt @ [NUL])\<rparr>"

definition get_page :: request where
  "get_page = \<lparr>rq_url = ''/'', rq_method = ''GET'', upload_size = 0, content_length = None, rq_body = None\<rparr>"

definition some_con :: con_info where
  "some_con = \<lparr>connectiontype = 0, answerstring = None\<rparr>"

lemma carries_texts: "carries calm_env (post_of page_text) page_text" "carries calm_env (post_of chat_text) chat_text"
  by (simp_all add: carries_def calm_env_def post_of_def page_text_def chat_text_def)

end
