(* ===== verification/Zb_Messages.thy ===== *)
theory Zb_Messages
  imports Zb_Home
begin

text \<open>
  What single messages make the gateway of \<^verbatim>\<open>zbclient.c\<close> do, on every state its invariant allows: water
  leaks, the switch that turns everything off, motion in the kitchen, a light that reports its state, a
  sensor that announces itself.
\<close>

section \<open>Reports of a cluster\<close>

lemma recieve_cluster:
  assumes "rx ! 0 = MXJ_XIAOMI18"
  shows "recieve_usart dump after rx 14 s =
    (let nid = rx_id rx 14; t = snd (find_dev nid (read_clock s))
     in if rx_cid rx 14 = 6 then rx_onoff nid rx t
        else if rx_cid rx 14 = 0x406 then rx_motion nid t else Inr t)"
  using assms
  by (simp add: recieve_usart_def rx_xiaomi18_def finding_def Let_def split: prod.split sum.split)

lemma home_find:
  assumes "home_inv dump s"
  shows "home_inv dump (snd (find_dev nid s))" "out (snd (find_dev nid s)) = out s"
    "tblock (snd (find_dev nid s)) = tblock s" "humand (snd (find_dev nid s)) = humand s"
proof -
  have wf: "table_wf s" using assms by (simp add: home_inv_def home_table_def data_inv_def)
  show "home_inv dump (snd (find_dev nid s))" "out (snd (find_dev nid s)) = out s"
    "tblock (snd (find_dev nid s)) = tblock s" "humand (snd (find_dev nid s)) = humand s"
    using assms by (simp_all add: find_dev_eq [OF wf] home_inv_bump_heart)
qed

lemma find_dev_state:
  assumes "home_inv dump s" and "i < 200"
  shows "d_state (mxj_device (snd (find_dev nid s)) ! i) = d_state (mxj_device s ! i)"
proof -
  have wf: "table_wf s" using assms by (simp add: home_inv_def home_table_def data_inv_def)
  then have "i < length (mxj_device s)" using assms(2) by (simp add: table_wf_def)
  then show ?thesis by (simp add: find_dev_eq [OF wf] bump_heart_nth)
qed

section \<open>Water\<close>

text \<open>The leak sensors, the text of their alarm, and the room whose valve light shows it.\<close>

definition leak_table :: "(u16 \<times> string \<times> u16) list" where
  "leak_table = [(XMLOUSHUI_CIWO_ID, t_ciwo_loushui, CIWO_ID), (XMLOUSHUI_CHUFANG_ID, t_chufang_loushui, CHUFANG_ID)]"

lemma onoff_leak_sensor:
  "rx ! 11 \<noteq> 0x20 \<Longrightarrow> rx_onoff (uint XMLOUSHUI_CIWO_ID) rx s = rx_leak_ciwo (rx ! 12) s"
  "rx ! 11 \<noteq> 0x20 \<Longrightarrow> rx_onoff (uint XMLOUSHUI_CHUFANG_ID) rx s = rx_leak_chufang (rx ! 12) s"
  by (simp_all add: rx_onoff_def rx_single_kick_def split: sum.split)

lemma leak_alarm_sent:
  assumes "length (alarm_text what (tblock s)) < ALARM_SIZE"
  shows "block [reading (\<lambda>s. post_alarm (alarm_text what (tblock s))), MXJ_SendCtrlMessage ZHUWO_ID 3 1 0 0,
      MXJ_SendCtrlMessage room 3 1 0 0] s =
    Inr (sent (ctrl_msg room 3 1 0 0) (sent (ctrl_msg ZHUWO_ID 3 1 0 0) (emit [Post (alarm_text what (tblock s))] s)))"
  using assms by (simp add: post_alarm_def tx_simps del: ctrl_msg_3)

lemma onoff_leak:
  assumes "(sensor, what, room) \<in> set leak_table" and "rx ! 11 \<noteq> 0x20" and "rx ! 12 = 0"
    and "tm_int32 (tblock s)"
  shows "rx_onoff (uint sensor) rx s = Inr (sent (ctrl_msg room 3 1 0 0) (sent (ctrl_msg ZHUWO_ID 3 1 0 0)
    (emit [Post (alarm_text what (tblock s))] s)))"
proof -
  have "length what \<le> 100" using assms(1) by (auto simp: leak_table_def alarm_texts)
  then have "length (alarm_text what (tblock s)) < ALARM_SIZE"
    using length_alarm_text [OF assms(4), of what] by simp
  note alarm = leak_alarm_sent [OF this]
  consider "sensor = XMLOUSHUI_CIWO_ID" "what = t_ciwo_loushui" "room = CIWO_ID"
    | "sensor = XMLOUSHUI_CHUFANG_ID" "what = t_chufang_loushui" "room = CHUFANG_ID"
    using assms(1) unfolding leak_table_def by auto
  then show ?thesis
  proof cases
    case 1
    then show ?thesis
      using alarm [of CIWO_ID] assms(3)
      by (simp only: onoff_leak_sensor(1) [OF assms(2)] rx_leak_ciwo_def if_True simp_thms)
  next
    case 2
    then show ?thesis
      using alarm [of CHUFANG_ID] assms(3)
      by (simp only: onoff_leak_sensor(2) [OF assms(2)] rx_leak_chufang_def if_True simp_thms)
  qed
qed

section \<open>Everything off\<close>

definition all_rooms :: "u16 list" where
  "all_rooms = [ZHUWO_ID, CIWO_ID, CHUFANG_ID, CANTING_ID, KETING_ID, MENTING_ID, GUODAO_ID]"

lemma onoff_all_off:
  assumes "rx ! 11 = 0x20"
  shows "rx_onoff (uint XMKG_CI_ID) rx s = Inr (fold (\<lambda>room. sent (ctrl_msg room 3 0 0 0)) all_rooms s)"
  using assms by (simp add: rx_onoff_def rx_double_kick_def all_rooms_def tx_simps del: ctrl_msg_3)

lemma out_fold_sent:
  "out (fold (\<lambda>x. sent (f x)) xs s) = out s @ map TxByte (concat (map (\<lambda>x. frame (f x)) xs))"
  by (induction xs arbitrary: s) simp_all

section \<open>Motion in the kitchen\<close>

lemma chufang_index: "first_index (uint CHUFANG_ID) known_ids = 2"
  by (simp add: known_ids_def boot_names_list boot_list_def)

lemma home_chufang:
  assumes "home_inv dump s"
  shows "find_dev (uint CHUFANG_ID) s = (2, bump_heart 2 s)"
proof -
  have wf: "table_wf s" using assms by (simp add: home_inv_def home_table_def data_inv_def)
  have "uint CHUFANG_ID \<in> set (dev_ids s)"
    using chufang_index first_index_miss [of "uint CHUFANG_ID" known_ids] home_inv_ids [OF assms] by auto
  then show ?thesis
    by (simp only: find_dev_eq [OF wf] if_True home_inv_ids [OF assms] chufang_index) simp
qed

lemma bump_state: "i < length (mxj_device s) \<Longrightarrow> d_state (mxj_device (bump_heart i s) ! i) = d_state (mxj_device s ! i)"
  by (simp add: bump_heart_nth)

lemma motion_cases:
  assumes s: "home_inv dump s"
  shows "rx_motion (uint XIAOMIRENTI_ID) s = Inr
    (if humand s > 1 then (bump_heart 2 s)\<lparr>humand := 120\<rparr>
     else if d_state (mxj_device s ! 2) ! 0 = 0
     then (sent (ctrl_msg CHUFANG_ID 3 1 1 1) (bump_heart 2 s))\<lparr>humand := 120\<rparr>
     else bump_heart 2 s)"
proof -
  have "2 < length (mxj_device s)" using s by (simp add: home_inv_def home_table_def data_inv_def table_wf_def)
  then have "d_state (mxj_device (bump_heart 2 s) ! 2) = d_state (mxj_device s ! 2)" by (simp add: bump_state)
  moreover have "rx_motion (uint XIAOMIRENTI_ID) s = finding (uint CHUFANG_ID) (\<lambda>j. block
        [reading (\<lambda>s.
           if j \<noteq> -1 \<and> d_state (mxj_device s ! nat j) ! 0 = 0
           then (if humand s \<le> 1
                 then block [MXJ_SendCtrlMessage CHUFANG_ID 3 1 1 1, modify (\<lambda>s. s\<lparr>humand := 120\<rparr>)]
                 else skip)
           else skip),
         reading (\<lambda>s. if humand s > 1 then modify (\<lambda>s. s\<lparr>humand := 120\<rparr>) else skip)]) s"
    by (simp only: rx_motion_def if_True simp_thms)
  ultimately show ?thesis
    unfolding finding_def home_chufang [OF s] prod.case by (auto simp add: tx_simps simp del: ctrl_msg_3)
qed

section \<open>A light reports its state\<close>

lemma json_text_json_str [simp]: "json_text dump (s\<lparr>json_str := j\<rparr>) = json_text dump s"
  by (simp add: json_text_def live_devs_def)

lemma home_build:
  assumes "home_inv dump s"
  obtains t where "build_json dump s = Inr t" "mxj_device t = mxj_device s" "json_str t = Some (json_text dump t)"
    "out t = out s"
  using home_build_json [OF assms] that [of "s\<lparr>json_str := Some (json_text dump s)\<rparr>"] by simp

text \<open>The assignments to \<^verbatim>\<open>state[0]\<close>, \<^verbatim>\<open>state[1]\<close>, \<^verbatim>\<open>state[2]\<close> by the number of the switch.\<close>

lemma ctrl_up_states:
  assumes "k < 3" and "rx ! 5 = of_nat (Suc k)"
  shows "block (
      [if rx ! 5 = 1 then modify (set_state i 0 (rx ! 6)) else skip,
       if rx ! 5 = 2 then modify (set_state i 1 (rx ! 6)) else skip,
       if rx ! 5 = 3 then modify (set_state i 2 (rx ! 6)) else skip] @ cs) s = block cs (set_state i k (rx ! 6) s)"
proof -
  consider "k = 0" | "k = 1" | "k = 2" using assms(1) by linarith
  then show ?thesis using assms(2) by cases simp_all
qed

lemma set_state_nth:
  "i < length (mxj_device s) \<Longrightarrow> k < length (d_state (mxj_device s ! i)) \<Longrightarrow>
   d_state (mxj_device (set_state i k b s) ! i) ! k = b"
  by (simp add: set_state_def)

lemma block_reading_skip: "block [reading f, skip] s = f s s"
  by (simp split: sum.split)

lemma ctrl_up_run:
  assumes f: "find_dev nid s = (int i, t)" and ty: "d_type (mxj_device t ! i) = 4" and p: "nid \<noteq> uint POWER_CIWO_ID"
    and k: "k < 3" "rx ! 5 = of_nat (Suc k)"
  shows "rx_ctrl_up dump nid rx s =
    block [if nid = uint CHUFANG_ID then modify (\<lambda>s. s\<lparr>humand := 0\<rparr>) else skip, build_json dump]
      (set_state i k (rx ! 6) t)"
proof -
  have i: "(int i = -1) = False" by simp
  have pF: "(nid = uint POWER_CIWO_ID) = False" using p by blast
  show ?thesis
    unfolding rx_ctrl_up_def finding_def f prod.case i if_False pF block_reading_skip nat_int
    using ctrl_up_states [OF k, where cs = "[if nid = uint CHUFANG_ID then modify (\<lambda>s. s\<lparr>humand := 0\<rparr>) else skip,
      build_json dump]"] by (simp only: ty simp_thms if_True append_Cons append_Nil)
qed

lemma ctrl_up_light:
  assumes s: "home_inv dump s" and nid: "nid \<in> set (dev_ids s)" "nid \<noteq> uint POWER_CIWO_ID"
    and i: "i = nat (first_index nid (dev_ids s))" "d_type (mxj_device s ! i) = 4"
    and k: "k < 3" "rx ! 5 = of_nat (Suc k)"
  shows "\<exists>t. rx_ctrl_up dump nid rx s = Inr t \<and> d_state (mxj_device t ! i) ! k = rx ! 6 \<and>
    json_str t = Some (json_text dump t) \<and> out t = out s"
proof -
  have wf: "table_wf s" using s by (simp add: home_inv_def home_table_def data_inv_def)
  have f: "find_dev nid s = (int i, bump_heart i s)" and il: "i < length (mxj_device s)"
    using nid(1) i(1) wf first_index_nonneg [OF nid(1)] length_dev_ids [OF wf]
    by (simp_all add: find_dev_eq table_wf_def)
  let ?b = "set_state i k (rx ! 6) (bump_heart i s)"
  let ?h = "if nid = uint CHUFANG_ID then ?b\<lparr>humand := 0\<rparr> else ?b"
  have hb: "home_inv dump ?b" using s by (intro home_inv_set_state home_inv_bump_heart)
  then have home: "home_inv dump ?h" by (simp add: home_inv_humand)
  have dev: "d_state (mxj_device ?b ! i) ! k = rx ! 6"
  proof -
    have "dev_ok (mxj_device s ! i)"
      using s il by (auto simp: home_inv_def home_table_def data_inv_def gateway_typed_def list_all_length)
    then have "k < length (d_state (mxj_device (bump_heart i s) ! i))"
      using k(1) il by (simp add: bump_state dev_ok_def)
    then show ?thesis using il by (intro set_state_nth) simp_all
  qed
  have "rx_ctrl_up dump nid rx s = block [if nid = uint CHUFANG_ID then modify (\<lambda>s. s\<lparr>humand := 0\<rparr>) else skip,
      build_json dump] ?b"
    using i(2) il by (intro ctrl_up_run [OF f _ nid(2) k]) (simp add: bump_heart_nth)
  also have "\<dots> = build_json dump ?h" by (simp split: sum.split)
  finally have run: "rx_ctrl_up dump nid rx s = build_json dump ?h" .
  obtain t where "build_json dump ?h = Inr t" "mxj_device t = mxj_device ?h"
      "json_str t = Some (json_text dump t)" "out t = out ?h"
    by (rule home_build [OF home])
  with run dev show ?thesis by simp
qed

section \<open>A new sensor announces itself\<close>

text \<open>The name as the gateway compares it: with what stands in memory behind its copy.\<close>

lemma xiaomi_name_behind:
  assumes "rx_text (take (unat (rx ! 12)) (drop 13 rx)) = nm" and "length nm = unat (rx ! 12)" and "NUL \<notin> set nm"
    and "cstr_ends after"
  shows "xiaomi_name after rx = Inr (nm @ cstr after)"
proof -
  let ?n = "unat (rx ! 12)"
  have "rx_text (drop 13 rx) = nm @ rx_text (drop ?n (drop 13 rx))"
    using assms(1) append_take_drop_id [of ?n "drop 13 rx"] unfolding rx_text_def by (metis map_append)
  then have copy: "strncpy ?n (rx_text (drop 13 rx)) = nm"
    using strncpy_exact [OF assms(3), of ?n] assms(2) by simp
  have "cstr (nm @ after) = nm @ cstr after"
    using assms(3) by (auto simp: cstr_def takeWhile_append)
  with assms(4) show ?thesis by (simp add: xiaomi_name_def copy cstr_ends_def)
qed

definition sensor_names :: "string list" where
  "sensor_names = [''lumi.sensor_switch'', ''lumi.sensor_magnet'', ''lumi.sensor_motion'', ''lumi.sensor_ht'']"

lemma register_crash:
  assumes s: "home_inv dump s" and nm: "xiaomi_name after rx = Inr nm" "nm \<in> set sensor_names"
  shows "\<exists>f. rx_xiaomi_register dump after nid rx s = Inl f"
proof -
  have wf: "table_wf s" "d_name (mxj_device s ! unat (devsize s)) = None"
    using s home_inv_spare [of dump s] by (auto simp: home_inv_def home_table_def data_inv_def)
  obtain ty where "rx_xiaomi_register dump after nid rx s = block [add_xiaomi nid ty, build_json dump] s"
    using nm by (auto simp: rx_xiaomi_register_def sensor_names_def)
  then show ?thesis using register_faults [OF wf(1)] wf(2) by metis
qed

lemma recieve_register_crash:
  assumes s: "home_inv dump s" and m: "new_sensor_report rx len" and new: "rx_id rx len \<notin> set known_ids"
    and nm: "xiaomi_name after rx = Inr nm" "nm \<in> set sensor_names"
  shows "\<exists>f. recieve_usart dump after rx len s = Inl f"
proof -
  let ?s = "read_clock s"
  have home: "home_inv dump ?s" using s by (rule home_inv_read_clock)
  have "find_dev (rx_id rx len) ?s = (-1, ?s)"
    using home new home_inv_ids [OF home] by (intro find_dev_miss) (auto simp: home_inv_def home_table_def data_inv_def)
  moreover obtain f where "rx_xiaomi_register dump after (rx_id rx len) rx ?s = Inl f"
    using register_crash [OF home nm] by blast
  ultimately show ?thesis
    using m by (simp add: recieve_usart_def rx_xiaomi18_def finding_def new_sensor_report_def Let_def)
qed

section \<open>A short state report\<close>

lemma set_state_other:
  "k \<noteq> j \<Longrightarrow> d_state (mxj_device (set_state i k b s) ! i) ! j = d_state (mxj_device s ! i) ! j"
  by (cases "i < length (mxj_device s)") (simp_all add: set_state_def list_update_beyond)

lemma set_state_len:
  "length (d_state (mxj_device (set_state i k b s) ! i)) = length (d_state (mxj_device s ! i))"
  by (cases "i < length (mxj_device s)") (simp_all add: set_state_def list_update_beyond)

lemma send_state_short:
  assumes s: "home_inv dump s" and nid: "nid \<in> set (dev_ids s)" and i: "i = nat (first_index nid (dev_ids s))"
  shows "\<exists>t. rx_send_state dump nid rx 6 s = Inr t \<and> d_state (mxj_device t ! i) ! 0 = rx ! 8 \<and>
    d_state (mxj_device t ! i) ! 1 = rx ! 9"
proof -
  have wf: "table_wf s" using s by (simp add: home_inv_def home_table_def data_inv_def)
  have f: "find_dev nid s = (int i, bump_heart i s)" and il: "i < length (mxj_device s)"
    using nid i wf first_index_nonneg [OF nid] length_dev_ids [OF wf]
    by (simp_all add: find_dev_eq table_wf_def)
  let ?a = "set_state i 0 (rx ! 8) (bump_heart i s)"
  let ?b = "set_state i 1 (rx ! 9) ?a"
  have "dev_ok (mxj_device s ! i)"
    using s il by (auto simp: home_inv_def home_table_def data_inv_def gateway_typed_def list_all_length)
  then have len: "length (d_state (mxj_device (bump_heart i s) ! i)) = 3" using il by (simp add: bump_state dev_ok_def)
  have st: "d_state (mxj_device ?b ! i) ! 0 = rx ! 8" "d_state (mxj_device ?b ! i) ! 1 = rx ! 9"
    using il len by (simp_all add: set_state_other set_state_nth set_state_len)
  have home: "home_inv dump ?b" using s by (intro home_inv_set_state home_inv_bump_heart)
  obtain t where t: "build_json dump ?b = Inr t" "mxj_device t = mxj_device ?b" by (rule home_build [OF home])
  have "rx_send_state dump nid rx 6 s = Inr t" using t(1) by (simp add: rx_send_state_def finding_def f)
  with st t(2) show ?thesis by simp
qed

section \<open>Signs of life\<close>

lemma bump_heart_pow:
  assumes "i < length (mxj_device s)"
  shows "(bump_heart i ^^ n) s = s\<lparr>mxj_device := (mxj_device s)[i := (mxj_device s ! i)
    \<lparr>d_heart := d_heart (mxj_device s ! i) + of_nat n\<rparr>]\<rparr>"
  using assms by (induction n) (simp_all add: bump_heart_def algebra_simps)

lemma find_dev_pow:
  assumes wf: "table_wf s" and nid: "nid \<in> set (dev_ids s)"
  shows "((\<lambda>s. snd (find_dev nid s)) ^^ n) s = (bump_heart (nat (first_index nid (dev_ids s))) ^^ n) s"
proof (induction n)
  case 0
  then show ?case by simp
next
  case (Suc n)
  let ?i = "nat (first_index nid (dev_ids s))"
  have "table_wf ((bump_heart ?i ^^ n) s) \<and> dev_ids ((bump_heart ?i ^^ n) s) = dev_ids s"
    using wf by (induction n) (simp_all add: table_wf_def)
  with Suc nid show ?case by (simp add: find_dev_eq)
qed

lemma find_dev_256:
  assumes wf: "table_wf s"
  shows "((\<lambda>s. snd (find_dev nid s)) ^^ 256) s = s"
proof (cases "nid \<in> set (dev_ids s)")
  case True
  have "nat (first_index nid (dev_ids s)) < length (mxj_device s)"
    using first_index_nonneg [OF True] length_dev_ids [OF wf] wf by (simp add: table_wf_def)
  moreover have "of_nat 256 = (0 :: byte)" by simp
  ultimately show ?thesis
    by (simp only: find_dev_pow [OF wf True] bump_heart_pow) simp
next
  case False
  have "((\<lambda>s. snd (find_dev nid s)) ^^ n) s = s" for n
    using find_dev_miss [OF wf False] by (induction n) simp_all
  then show ?thesis by blast
qed

end
