(* ===== verification/Json_Refs.thy ===== *)
theory Json_Refs
  imports Zb_Devices "HOL-Library.AList"
begin

text \<open>
  Who owns the objects of json-c while \<^verbatim>\<open>build_json\<close> makes the text of a device. The text itself is in
  \<open>Zb_Devices\<close>; here are the calls of json-c in the order of the code, and the contract that the
  comments of \<^verbatim>\<open>src/zigbee/json/json_object.h\<close> state for them: a new object is owned by its caller; adding it
  to a container needs the ownership and transfers it to the container, whose lifetime the object then
  shares; \<^verbatim>\<open>json_object_put\<close> needs the ownership too, and frees the object with what it owns, since no call of
  the programs makes a second reference. A sequence of calls that breaks the contract ends in \<open>Inl r\<close>, where
  \<open>r\<close> is the object that was not owned; what json-c does then is not modelled.
\<close>

section \<open>The store of objects\<close>

datatype json_node =
    Leaf json                      \<comment> \<open>\<^verbatim>\<open>json_object_new_int\<close>, \<^verbatim>\<open>json_object_new_string\<close>\<close>
  | Items "nat list"               \<comment> \<open>\<^verbatim>\<open>json_object_new_array\<close>, with the objects added to it\<close>
  | Fields "(string \<times> nat) list"  \<comment> \<open>\<^verbatim>\<open>json_object_new_object\<close>\<close>

type_synonym json_store = "(nat \<times> json_node) list"

fun owned_by :: "json_node \<Rightarrow> nat list" where
  "owned_by (Leaf j) = []"
| "owned_by (Items rs) = rs"
| "owned_by (Fields fs) = map snd fs"

text \<open>The program owns an object that is alive and in no container.\<close>

definition owned :: "nat \<Rightarrow> json_store \<Rightarrow> bool" where
  "owned r h \<longleftrightarrow> map_of h r \<noteq> None \<and> list_all (\<lambda>(k, n). r \<notin> set (owned_by n)) h"

text \<open>Freeing objects with all they own; \<open>Inl r\<close> when the object \<open>r\<close> is not alive any more.\<close>

function release :: "nat list \<Rightarrow> json_store \<Rightarrow> nat + json_store" where
  "release [] h = Inr h"
| "release (r # rs) h =
     (case map_of h r of
        None \<Rightarrow> Inl r
      | Some n \<Rightarrow> release (owned_by n @ rs) (AList.delete r h))"
  by pat_completeness auto
termination
proof (relation "measure (\<lambda>(rs, h). length h)")
  fix r :: nat and rs :: "nat list" and h :: json_store and n
  assume "map_of h r = Some n"
  then have "(r, n) \<in> set h" by (rule map_of_SomeD)
  then have "length (filter (\<lambda>(k, v). r \<noteq> k) h) < length h"
    by (rule length_filter_less) simp
  then show "((owned_by n @ rs, AList.delete r h), r # rs, h) \<in> measure (\<lambda>(rs, h). length h)"
    by (simp add: AList.delete_eq split_def)
qed simp

datatype json_call =
    New nat json_node
  | ArrayAdd nat nat          \<comment> \<open>\<^verbatim>\<open>json_object_array_add (array, value)\<close>\<close>
  | ObjectAdd nat string nat  \<comment> \<open>\<^verbatim>\<open>json_object_object_add (object, key, value)\<close>, the key not in it yet\<close>
  | ToString nat              \<comment> \<open>\<^verbatim>\<open>json_object_to_json_string\<close>\<close>
  | Put nat                   \<comment> \<open>\<^verbatim>\<open>json_object_put\<close>\<close>

fun json_step :: "json_call \<Rightarrow> json_store \<Rightarrow> nat + json_store" where
  "json_step (New r n) h = Inr ((r, n) # h)"
| "json_step (ArrayAdd a r) h =
     (if owned r h
      then (case map_of h a of Some (Items rs) \<Rightarrow> Inr (AList.update a (Items (rs @ [r])) h) | _ \<Rightarrow> Inl a)
      else Inl r)"
| "json_step (ObjectAdd a k r) h =
     (if owned r h
      then (case map_of h a of Some (Fields fs) \<Rightarrow> Inr (AList.update a (Fields (fs @ [(k, r)])) h) | _ \<Rightarrow> Inl a)
      else Inl r)"
| "json_step (ToString r) h = (if map_of h r = None then Inl r else Inr h)"
| "json_step (Put r) h = (if owned r h then release [r] h else Inl r)"

fun json_run :: "json_call list \<Rightarrow> json_store \<Rightarrow> nat + json_store" where
  "json_run [] h = Inr h"
| "json_run (c # cs) h = (case json_step c h of Inl r \<Rightarrow> Inl r | Inr h' \<Rightarrow> json_run cs h')"

lemma json_run_append:
  "json_run (cs @ ds) h = (case json_run cs h of Inl r \<Rightarrow> Inl r | Inr h' \<Rightarrow> json_run ds h')"
  by (induction cs arbitrary: h) (auto split: sum.split)

text \<open>The value an object stands for, for objects nested at most \<open>k\<close> deep.\<close>

fun stored :: "nat \<Rightarrow> json_store \<Rightarrow> nat \<Rightarrow> json option" where
  "stored 0 h r = None"
| "stored (Suc k) h r =
     (case map_of h r of
        None \<Rightarrow> None
      | Some (Leaf j) \<Rightarrow> Some j
      | Some (Items rs) \<Rightarrow> map_option JArray (those (map (stored k h) rs))
      | Some (Fields fs) \<Rightarrow>
          map_option (\<lambda>js. JObject (zip (map fst fs) js)) (those (map (\<lambda>f. stored k h (snd f)) fs)))"

section \<open>The rounds of a loop\<close>

definition json_rounds :: "('d \<Rightarrow> json_call list) \<Rightarrow> json_call list \<Rightarrow> 'd list \<Rightarrow> json_call list" where
  "json_rounds calls rest ds = concat (map (\<lambda>d. calls d @ rest) ds)"

text \<open>
  What the loops of the programs share: a round builds an object, the code then releases one it does not own
  any more, and releasing only the object of the round would free all of it.
\<close>

locale json_builder =
  fixes calls :: "'d \<Rightarrow> json_call list" and dev lost :: nat and puts :: "json_call list"
  assumes round_fault: "json_run (calls d @ ToString dev # puts) [] = Inl lost"
    and round_balanced: "json_run (calls d @ [ToString dev, Put dev]) [] = Inr []"
begin

lemma rounds_fault: "ds \<noteq> [] \<Longrightarrow> json_run (json_rounds calls (ToString dev # puts) ds) [] = Inl lost"
proof (cases ds)
  case (Cons d es)
  then have "json_rounds calls (ToString dev # puts) ds =
      (calls d @ ToString dev # puts) @ json_rounds calls (ToString dev # puts) es"
    by (simp add: json_rounds_def)
  then show ?thesis by (simp only: json_run_append [of "calls d @ ToString dev # puts"] round_fault sum.case)
qed simp

lemma rounds_balanced: "json_run (json_rounds calls [ToString dev, Put dev] ds) [] = Inr []"
proof (induction ds)
  case (Cons d ds)
  have "json_rounds calls [ToString dev, Put dev] (d # ds) =
      (calls d @ [ToString dev, Put dev]) @ json_rounds calls [ToString dev, Put dev] ds"
    by (simp add: json_rounds_def)
  then show ?case by (simp only: json_run_append [of "calls d @ [ToString dev, Put dev]"] round_balanced sum.case Cons.IH)
qed (simp add: json_rounds_def)

end

section \<open>The calls for one device\<close>

text \<open>The variables \<^verbatim>\<open>state\<close> and \<^verbatim>\<open>dev\<close>, and the objects without a variable, as numbers.\<close>

definition ref_state :: nat where [simp]: "ref_state = 0"
definition ref_dev :: nat where [simp]: "ref_dev = 4"

definition dev_calls :: "(u16 \<Rightarrow> (string \<times> json) list) \<Rightarrow> mxj_device_t \<Rightarrow> json_call list" where
  "dev_calls names d =
     [New ref_state (Items []),
      New 1 (Leaf (JInt (uint (d_state d ! 0)))), ArrayAdd ref_state 1,
      New 2 (Leaf (JInt (uint (d_state d ! 1)))), ArrayAdd ref_state 2,
      New 3 (Leaf (JInt (uint (d_state d ! 2)))), ArrayAdd ref_state 3,
      New ref_dev (Fields []),
      New 5 (Leaf (JInt (uint (d_id d)))), ObjectAdd ref_dev ''id'' 5,
      New 6 (Leaf (JString (the (d_name d)))), ObjectAdd ref_dev ''nameChinese'' 6,
      New 7 (Leaf (JInt (uint (d_type d)))), ObjectAdd ref_dev ''type'' 7,
      ObjectAdd ref_dev ''status'' ref_state] @
     concat (map (\<lambda>(k, j). [New 8 (Leaf j), ObjectAdd ref_dev k 8]) (names (d_id d)))"

text \<open>The end of the round, as the code has it: first \<^verbatim>\<open>state\<close>, then \<^verbatim>\<open>dev\<close>.\<close>

definition put_calls :: "json_call list" where
  "put_calls = [Put ref_state, Put ref_dev]"

definition build_calls :: "json_call list \<Rightarrow> (u16 \<Rightarrow> (string \<times> json) list) \<Rightarrow> mxj_device_t list \<Rightarrow> json_call list" where
  "build_calls puts names = json_rounds (dev_calls names) (ToString ref_dev # puts)"

section \<open>What the calls build and release\<close>

definition one_name :: "(u16 \<Rightarrow> (string \<times> json) list) \<Rightarrow> bool" where
  "one_name names \<longleftrightarrow> (\<forall>nid. names nid = [] \<or> (\<exists>j. names nid = [(''name'', j)]))"

definition entry_json :: "(u16 \<Rightarrow> (string \<times> json) list) \<Rightarrow> mxj_device_t \<Rightarrow> json" where
  "entry_json names d = JObject
     ([(''id'', JInt (uint (d_id d))), (''nameChinese'', JString (the (d_name d))), (''type'', JInt (uint (d_type d))),
       (''status'', JArray [JInt (uint (d_state d ! 0)), JInt (uint (d_state d ! 1)), JInt (uint (d_state d ! 2))])] @
      names (d_id d))"

definition built :: "(u16 \<Rightarrow> (string \<times> json) list) \<Rightarrow> mxj_device_t \<Rightarrow> json_store" where
  "built names d = (case json_run (dev_calls names d) [] of Inl r \<Rightarrow> [] | Inr h \<Rightarrow> h)"

lemma dev_calls_build:
  assumes "one_name names"
  shows "json_run (dev_calls names d) [] = Inr (built names d)"
    "stored 3 (built names d) ref_dev = Some (entry_json names d)"
    "json_run (ToString ref_dev # put_calls) (built names d) = Inl ref_state"
    "json_run [ToString ref_dev, Put ref_dev] (built names d) = Inr []"
proof -
  have three: "(3 :: nat) = Suc (Suc (Suc 0))" by simp
  consider "names (d_id d) = []" | j where "names (d_id d) = [(''name'', j)]"
    using assms unfolding one_name_def by blast
  then have "json_run (dev_calls names d) [] = Inr (built names d) \<and>
    stored 3 (built names d) ref_dev = Some (entry_json names d) \<and>
    json_run (ToString ref_dev # put_calls) (built names d) = Inl ref_state \<and>
    json_run [ToString ref_dev, Put ref_dev] (built names d) = Inr []"
    by cases (simp_all add: built_def dev_calls_def put_calls_def entry_json_def owned_def three del: One_nat_def)
  then show "json_run (dev_calls names d) [] = Inr (built names d)"
    "stored 3 (built names d) ref_dev = Some (entry_json names d)"
    "json_run (ToString ref_dev # put_calls) (built names d) = Inl ref_state"
    "json_run [ToString ref_dev, Put ref_dev] (built names d) = Inr []" by blast+
qed

lemma one_name_zb: "one_name name_field"
  by (simp add: one_name_def name_field_def)

lemma entry_json_zb: "entry_json name_field d = dev_obj (the (d_name d)) d"
  by (simp add: entry_json_def dev_obj_def)

text \<open>The first device already breaks the contract; with \<^verbatim>\<open>dev\<close> as the only release nothing is left over.\<close>

lemma dev_round:
  assumes "one_name names"
  shows "json_run (dev_calls names d @ ToString ref_dev # put_calls) [] = Inl ref_state"
    "json_run (dev_calls names d @ [ToString ref_dev, Put ref_dev]) [] = Inr []"
  by (simp_all only: json_run_append dev_calls_build [OF assms] sum.case)

interpretation zb_json: json_builder "dev_calls name_field" ref_dev ref_state put_calls
  by unfold_locales (rule dev_round [OF one_name_zb])+

end
