(* ===== verification/Zb_Properties.thy ===== *)
theory Zb_Properties
  imports Zb_Examples Zb_Messages Json_Refs
begin

text \<open>
  The properties of the gateway \<^verbatim>\<open>zbclient.c\<close>, each with its claim, and the concrete cases to which they
  are applied. The proofs rest on the lemmas of the component theories.
\<close>

section \<open>The running program\<close>

text \<open>
  C1. From the start of the main loop on, whatever bytes arrive, whatever web requests are made and
  however they interleave with the rounds of the loop: as long as no step faults, the table lists exactly
  the devices \<^verbatim>\<open>main\<close> entered, without duplicates, the buffers keep their sizes, the rendered table fits
  its 2000 bytes and the countdown of the kitchen light stays within 0..120.
\<close>

theorem gateway_invariant:
  assumes "zb_init dump m" and "(zb_step dump jl xml)\<^sup>*\<^sup>* m n"
  shows "main_inv dump n"
  using assms by (rule zb.reachable_inv)

theorem gateway_invariant_witness:
  "zb_init spaced started_main \<and>
   (zb_step spaced toy_json toy_xml)\<^sup>*\<^sup>* started_main (started_main\<lparr>gw := started\<lparr>rx_state := CMD_STATE1\<rparr>\<rparr>) \<and>
   main_inv spaced (started_main\<lparr>gw := started\<lparr>rx_state := CMD_STATE1\<rparr>\<rparr>)"
proof -
  let ?m = "started_main\<lparr>gw := started\<lparr>rx_state := AA_STATE\<rparr>\<rparr>"
  let ?n = "started_main\<lparr>gw := started\<lparr>rx_state := CMD_STATE1\<rparr>\<rparr>"
  have w: "gw started_main = started" by (simp add: started_main_def)
  have "thread_byte spaced [] 0x55 (gw started_main) = Inr (started\<lparr>rx_state := AA_STATE\<rparr>)"
    using started_idle by (simp add: w thread_byte_def thread_round_def goto_state_def idle_def)
  then have a: "zb_step spaced toy_json toy_xml started_main ?m" by (rule zb_step.serial)
  have "thread_byte spaced [] 0xaa (gw ?m) = Inr (started\<lparr>rx_state := CMD_STATE1\<rparr>)"
    by (simp add: thread_byte_def thread_round_def goto_state_def)
  then have "zb_step spaced toy_json toy_xml ?m (?m\<lparr>gw := started\<lparr>rx_state := CMD_STATE1\<rparr>\<rparr>)" by (rule zb_step.serial)
  with a have r: "(zb_step spaced toy_json toy_xml)\<^sup>*\<^sup>* started_main ?n" by simp
  show ?thesis using started_init r gateway_invariant [OF started_init r] by blast
qed

text \<open>
  C2. A stream of well-formed frames with arbitrary noise other than the sync byte between them is
  delivered frame by frame: \<^verbatim>\<open>recieve_usart\<close> gets each message once and in order, up to the first fault.
\<close>

theorem serial_stream:
  assumes "idle s" and "list_all (\<lambda>(noise, m). 0x55 \<notin> set noise \<and> msg_ok 200 m) ps"
  shows "feed (thread_byte dump after) (concat (map (\<lambda>(noise, m). noise @ frame m) ps)) s =
    block (map (\<lambda>(noise, m). deliver dump after m) ps) s"
  using assms by (rule zb_link.stream_of_frames)

theorem serial_stream_witness:
  "feed (thread_byte spaced []) ([1, 2, 3] @ frame [5, 3, 0x28, 0x2c] @ frame [5, 3, 0x02, 0x8c]) started =
   block [deliver spaced [] [5, 3, 0x28, 0x2c], deliver spaced [] [5, 3, 0x02, 0x8c]] started"
  using serial_stream [OF started_idle, of "[([1, 2, 3], [5, 3, 0x28, 0x2c]), ([], [5, 3, 0x02, 0x8c])]" spaced "[]"]
  by (simp add: msg_ok_def del: block.simps)

text \<open>
  C3. In the running program every message is handled to its end within the bounds of the gateway's own
  arrays, texts and pointers and keeps the invariant, except the report with which an unknown sensor
  announces itself. The objects of json-c are not among them: each time the page is rendered one of them is released
  once too often (C18), and what json-c does then is outside the model.
\<close>

theorem known_messages_handled:
  assumes "home_inv dump s"
    and "\<not> new_sensor_report rx len \<or> rx_id rx len \<in> set known_ids"
  shows "\<exists>t. recieve_usart dump after rx len s = Inr t \<and> home_inv dump t"
proof -
  have "triple (home_inv dump) (recieve_usart dump after rx len) (home_inv dump) no_fault"
    using assms(2) home_inv_ids by (intro home.recieve_known_inv) auto
  then show ?thesis using assms(1) by (rule triple_total)
qed

theorem known_messages_handled_witness:
  "\<exists>t. recieve_usart spaced [] ([1, 6, 0x8d, 0xc0, 0, 1, 1] @ replicate 193 0) 7 started = Inr t \<and> home_inv spaced t"
  using known_messages_handled [OF started_run(2), of "[1, 6, 0x8d, 0xc0, 0, 1, 1] @ replicate 193 0" 7 "[]"]
  by (simp add: new_sensor_report_def)



section \<open>What messages do\<close>

text \<open>
  C5. A leak sensor that reports water makes the gateway post its alarm with the time of the report and
  switch on the lights of the master bedroom and of the room, in this order and nothing else.
\<close>

theorem leak_alarm:
  assumes "home_inv dump s" and "(sensor, what, room) \<in> set leak_table"
    and "rx ! 0 = MXJ_XIAOMI18" "rx_id rx 14 = uint sensor" "rx_cid rx 14 = 6" "rx ! 11 \<noteq> 0x20" "rx ! 12 = 0"
  shows "\<exists>t. recieve_usart dump after rx 14 s = Inr t \<and>
    out t = out s @ [Post (alarm_text what (clock s (reads s)))] @
      map TxByte (frame (ctrl_msg ZHUWO_ID 3 1 0 0)) @ map TxByte (frame (ctrl_msg room 3 1 0 0))"
proof -
  have home: "home_inv dump (read_clock s)" using assms(1) by (rule home_inv_read_clock)
  let ?t = "snd (find_dev (rx_id rx 14) (read_clock s))"
  have "tm_int32 (tblock ?t)"
    using home_find(1) [OF home] by (simp add: home_inv_def home_table_def data_inv_def clock_ok_def)
  from onoff_leak [OF assms(2,6,7) this] show ?thesis
    using assms(4,5) home_find(2,3) [OF home, of "uint sensor"]
    by (simp add: recieve_cluster [OF assms(3)] del: ctrl_msg_3)
qed

theorem leak_alarm_witness:
  "\<exists>t. recieve_usart spaced [] [0x18, 13, 0xe3, 0x20, 0, 6, 1, 0, 0, 0, 0, 0x10, 0, 0] 14 started = Inr t \<and>
    out t = out started @ [Post (alarm_text t_ciwo_loushui (clock started (reads started)))] @
      map TxByte (frame (ctrl_msg ZHUWO_ID 3 1 0 0)) @ map TxByte (frame (ctrl_msg CIWO_ID 3 1 0 0))"
  using leak_alarm [OF started_run(2), of XMLOUSHUI_CIWO_ID t_ciwo_loushui CIWO_ID
      "[0x18, 13, 0xe3, 0x20, 0, 6, 1, 0, 0, 0, 0, 0x10, 0, 0]" "[]"]
  by (simp add: leak_table_def rx_id_def rx_cid_def join16_def del: ctrl_msg_3)

text \<open>
  C25. A report of the motion sensor. With the countdown running (above 1) it starts again at 120 and nothing
  is sent. Otherwise, when the kitchen light is off by its last report, the gateway switches it on with one
  message and starts the countdown at 120; when the light is on, the countdown stays as it is and nothing is
  sent.
\<close>

theorem motion_report:
  assumes "home_inv dump s"
    and "rx ! 0 = MXJ_XIAOMI18" "rx_id rx 14 = uint XIAOMIRENTI_ID" "rx_cid rx 14 = 0x406"
  shows "\<exists>t. recieve_usart dump after rx 14 s = Inr t \<and>
    (if humand s > 1 then humand t = 120 \<and> out t = out s
     else if d_state (mxj_device s ! 2) ! 0 = 0
     then humand t = 120 \<and> out t = out s @ map TxByte (frame (ctrl_msg CHUFANG_ID 3 1 1 1))
     else humand t = humand s \<and> out t = out s)"
proof -
  have home: "home_inv dump (read_clock s)" using assms(1) by (rule home_inv_read_clock)
  define u where "u = snd (find_dev (uint XIAOMIRENTI_ID) (read_clock s))"
  have u: "home_inv dump u" "d_state (mxj_device u ! 2) = d_state (mxj_device s ! 2)"
    "humand u = humand s" "out u = out s"
    unfolding u_def using home_find [OF home] find_dev_state [OF home, of 2] by simp_all
  have "recieve_usart dump after rx 14 s = rx_motion (uint XIAOMIRENTI_ID) u"
    using assms(3,4) by (simp add: recieve_cluster [OF assms(2)] u_def)
  then show ?thesis
    unfolding motion_cases [OF u(1)] by (simp add: u(2-4) del: ctrl_msg_3)
qed

theorem motion_report_witness:
  "\<exists>t. recieve_usart spaced [] [0x18, 13, 0x3b, 0x6b, 4, 6, 1, 0, 0, 0, 0, 0x18, 1, 0] 14 started = Inr t \<and>
    humand t = 120 \<and> out t = out started @ map TxByte (frame (ctrl_msg CHUFANG_ID 3 1 1 1))"
proof -
  have "d_state (mxj_device started ! 2) ! 0 = 0"
    by (simp add: started_run(4) boot_list_def mk_dev_def no_device_def)
  with motion_report [OF started_run(2), of "[0x18, 13, 0x3b, 0x6b, 4, 6, 1, 0, 0, 0, 0, 0x18, 1, 0]" "[]"]
    started_humand
  show ?thesis by (simp add: rx_id_def rx_cid_def join16_def del: ctrl_msg_3)
qed

text \<open>
  C7. A running countdown of \<open>h\<close> ends: the rounds of the main loop before the last send nothing over the
  serial line, the \<open>h\<close>-th sends exactly the message that switches the kitchen light off, whatever the
  periodic check posts meanwhile.
\<close>

theorem light_off_after:
  assumes "main_inv dump m" and "humand (gw m) = int h" and "0 < h"
  shows "(\<forall>k < h. \<exists>n. block (replicate k main_tick) m = Inr n \<and> tx_bytes (out (gw n)) = tx_bytes (out (gw m))) \<and>
    (\<exists>n. block (replicate h main_tick) m = Inr n \<and> humand (gw n) = 0 \<and>
      tx_bytes (out (gw n)) = tx_bytes (out (gw m)) @ frame (ctrl_msg CHUFANG_ID 3 0 0 0))"
proof (intro conjI allI impI)
  fix k
  assume "k < h"
  with rounds_quiet [OF assms(1), of k] assms(2)
  show "\<exists>n. block (replicate k main_tick) m = Inr n \<and> tx_bytes (out (gw n)) = tx_bytes (out (gw m))" by auto
next
  show "\<exists>n. block (replicate h main_tick) m = Inr n \<and> humand (gw n) = 0 \<and>
      tx_bytes (out (gw n)) = tx_bytes (out (gw m)) @ frame (ctrl_msg CHUFANG_ID 3 0 0 0)"
    using rounds_off [OF assms] unfolding light_off_def by blast
qed

theorem light_off_after_witness:
  "\<exists>n. block (replicate 120 main_tick) (started_main\<lparr>gw := started\<lparr>humand := 120\<rparr>\<rparr>) = Inr n \<and> humand (gw n) = 0 \<and>
     tx_bytes (out (gw n)) = tx_bytes (out started) @ frame (ctrl_msg CHUFANG_ID 3 0 0 0)"
proof -
  have "main_inv spaced (started_main\<lparr>gw := started\<lparr>humand := 120\<rparr>\<rparr>)"
    using started_main_inv home_inv_humand [OF started_run(2), of 120] by (simp add: main_inv_def)
  from light_off_after [OF this, of 120] show ?thesis by simp
qed

text \<open>
  When a light reports the state of its switch \<open>k\<close>, the table has the new state, and from then on the
  web page is the rendering of the table with it.
\<close>

theorem light_state_published:
  assumes "home_inv dump s" and "rx ! 0 = MXJ_CTRL_UP" and "nid = rx_id rx len" "nid \<in> set known_ids"
    "nid \<noteq> uint POWER_CIWO_ID"
    and "i = nat (first_index nid known_ids)" "d_type (mxj_device s ! i) = 4" "k < 3" "rx ! 5 = of_nat (Suc k)"
    and "rq_method rq = ''GET''" "create_ok env"
  shows "\<exists>t. recieve_usart dump after rx len s = Inr t \<and> d_state (mxj_device t ! i) ! k = rx ! 6 \<and>
    answer_to_connection jl xml env rq (Some con) t =
      Inr (\<lparr>a_ret = queue_ret env, a_con = Some con, a_left = upload_size rq\<rparr>,
           emit [Reply (json_text dump t)] (read_clock t))"
proof -
  have home: "home_inv dump (read_clock s)" using assms(1) by (rule home_inv_read_clock)
  note ids = home_inv_ids [OF home]
  obtain t where t: "rx_ctrl_up dump nid rx (read_clock s) = Inr t" "d_state (mxj_device t ! i) ! k = rx ! 6"
      "json_str t = Some (json_text dump t)"
    using ctrl_up_light [OF home, of nid i k rx] assms(4-9) ids by auto
  moreover have "recieve_usart dump after rx len s = rx_ctrl_up dump nid rx (read_clock s)"
    using assms(2,3) by (simp add: recieve_usart_def Let_def split: sum.split)
  ultimately show ?thesis
    using answer_get [OF assms(10,11) t(3)] by metis
qed

theorem light_state_published_witness:
  "\<exists>t. recieve_usart spaced [] [1, 6, 0x8d, 0xc0, 0, 1, 1] 7 started = Inr t \<and>
    d_state (mxj_device t ! 2) ! 0 = [1, 6, 0x8d, 0xc0, 0, 1, 1] ! 6 \<and>
    answer_to_connection toy_json toy_xml calm_env get_page (Some some_con) t =
      Inr (\<lparr>a_ret = queue_ret calm_env, a_con = Some some_con, a_left = upload_size get_page\<rparr>,
           emit [Reply (json_text spaced t)] (read_clock t))"
proof (rule light_state_published [OF started_run(2), where nid = "uint CHUFANG_ID"])
  show "d_type (mxj_device started ! 2) = 4"
    by (simp add: started_run(4) boot_list_def mk_dev_def no_device_def)
  show "uint CHUFANG_ID \<in> set known_ids"
    using chufang_index first_index_miss [of "uint CHUFANG_ID" known_ids] by auto
  show "2 = nat (first_index (uint CHUFANG_ID) known_ids)" unfolding chufang_index by simp
qed (simp_all add: rx_id_def join16_def get_page_def calm_env_def)

text \<open>
  C9. The periodic check of the running program posts one alarm for each leak sensor that gave no sign of
  life since the last check, in the order of the table, and nothing else; afterwards the counters of all
  devices are zero. The alarms carry the time of the last event, not the time of the check.
\<close>

theorem offline_report:
  assumes "home_inv dump s"
  shows "\<exists>t. offline_check s = Inr t \<and> live_devs t = map (\<lambda>d. d\<lparr>d_heart := 0\<rparr>) (live_devs s) \<and>
    out t = out s @ map (\<lambda>d. Post (offline_text (the (d_name d)) (d_id d) (tblock s)))
      (filter (\<lambda>d. d_heart d = 0 \<and> leak_sensor (d_id d)) (live_devs s))"
proof -
  have "unat (devsize s) \<le> length (mxj_device s)"
    using assms by (simp add: home_inv_def home_table_def data_inv_def table_wf_def)
  then have "live_devs (s\<lparr>mxj_device := map still (live_devs s) @ drop (unat (devsize s)) (mxj_device s)\<rparr>) =
      map still (live_devs s)"
    by (simp add: live_devs_def)
  moreover have "filter silent = filter (\<lambda>d. d_heart d = 0 \<and> leak_sensor (d_id d))"
    by (simp add: silent_def [abs_def])
  ultimately show ?thesis
    unfolding home_offline_check [OF assms] by (simp add: live_devs_def offline_posts_def still_def [abs_def])
qed

theorem offline_report_witness:
  "\<exists>t. offline_check started = Inr t \<and> live_devs t = map (\<lambda>d. d\<lparr>d_heart := 0\<rparr>) (live_devs started) \<and>
    out t = out started @ [Post (offline_text n_loushui_ciwo XMLOUSHUI_CIWO_ID (tblock started)),
      Post (offline_text n_loushui_chufang XMLOUSHUI_CHUFANG_ID (tblock started))]"
proof -
  have "filter (\<lambda>d. d_heart d = 0 \<and> leak_sensor (d_id d)) (live_devs started) =
      [mk_dev (XMLOUSHUI_CIWO_ID, 10, 1, n_loushui_ciwo), mk_dev (XMLOUSHUI_CHUFANG_ID, 10, 1, n_loushui_chufang)]"
    by (simp add: started_live boot_list_def mk_dev_def leak_sensor_def)
  with offline_report [OF started_run(2)] show ?thesis by (simp add: mk_dev_def)
qed

text \<open>
  C10. The start. When a set-up call fails, \<^verbatim>\<open>main\<close> returns 1 with nothing entered or sent. When all
  succeed and there is memory for the text, it reaches its loop within the bounds of its own arrays and texts:
  it has posted the start with its time and sent one query for all states; the receiver waits for a frame,
  the table lists the 19 known devices, and the web page renders them. The objects of json-c are the
  exception: rendering this table releases an array that it does not own any more (C18), and what json-c
  does then is outside the model.
\<close>

theorem start_reaches_loop:
  assumes "json_calloc e" and "\<forall>n. tm_int32 (cl n)" and "dump_bound dump"
  shows "if main_setup e = None
    then \<exists>t. main_start dump e (initial cl) = Inr (None, t) \<and> home_inv dump t \<and> idle t \<and>
      live_devs t = map mk_dev boot_list \<and> json_str t = Some (json_text dump t) \<and>
      out t = Post (alarm_text t_qidong (cl 0)) # map TxByte (frame (query_msg 5 0xffff)) \<and>
      json_run (build_calls put_calls name_field (live_devs t)) [] = Inl ref_state
    else main_start dump e (initial cl) = Inr (Some 1, (initial cl)\<lparr>json_str := Some []\<rparr>)"
proof (cases "main_setup e = None")
  case True
  from assms(2) have cl: "\<And>n. tm_int32 (cl n)" by blast
  obtain t where t: "main_start dump e (initial cl) = Inr (None, t)" "home_inv dump t" "rx_state t = WW_STATE"
      "mxj_device t = map mk_dev boot_list @ replicate 181 no_device" "json_str t = Some (json_text dump t)"
      "out t = Post (alarm_text t_qidong (cl 0)) # map TxByte (frame (query_msg 5 0xffff))"
    by (rule main_start_home [OF assms(1) True cl assms(3)])
  moreover have "idle t" using t(2,3) by (simp add: idle_def home_inv_data)
  moreover have live: "live_devs t = map mk_dev boot_list"
    using t(2,4) by (simp add: live_devs_def home_inv_def home_table_def boot_list_def)
  moreover have "live_devs t \<noteq> []" by (simp add: live boot_list_def)
  then have "json_run (build_calls put_calls name_field (live_devs t)) [] = Inl ref_state"
    unfolding build_calls_def by (rule zb_json.rounds_fault)
  ultimately show ?thesis using True by auto
next
  case False
  then have "main_setup e = Some 1" by (auto simp: main_setup_def split: if_splits)
  with assms(1) show ?thesis by (simp add: main_start_def)
qed

theorem start_reaches_loop_witness:
  "(\<exists>t. main_start spaced good_setup (initial (\<lambda>n. noon)) = Inr (None, t) \<and> idle t \<and>
      live_devs t = map mk_dev boot_list \<and> json_str t = Some (json_text spaced t) \<and>
      out t = Post (alarm_text t_qidong noon) # map TxByte (frame (query_msg 5 0xffff))) \<and>
   main_start spaced (good_setup\<lparr>serialOpen_ret := - 1\<rparr>) (initial (\<lambda>n. noon)) =
     Inr (Some 1, (initial (\<lambda>n. noon))\<lparr>json_str := Some []\<rparr>)"
proof
  have c: "json_calloc good_setup" "json_calloc (good_setup\<lparr>serialOpen_ret := - 1\<rparr>)" by (simp_all add: good_setup_def)
  have u: "main_setup good_setup = None" "main_setup (good_setup\<lparr>serialOpen_ret := - 1\<rparr>) \<noteq> None"
    by (simp_all add: good_setup_def main_setup_def)
  have n: "\<forall>k :: nat. tm_int32 noon" using noon_int32 by simp
  show "\<exists>t. main_start spaced good_setup (initial (\<lambda>n. noon)) = Inr (None, t) \<and> idle t \<and>
      live_devs t = map mk_dev boot_list \<and> json_str t = Some (json_text spaced t) \<and>
      out t = Post (alarm_text t_qidong noon) # map TxByte (frame (query_msg 5 0xffff))"
    using start_reaches_loop [OF c(1) n dump_bound_spaced] u(1) by (simp only: if_True simp_thms) blast
  show "main_start spaced (good_setup\<lparr>serialOpen_ret := - 1\<rparr>) (initial (\<lambda>n. noon)) =
      Inr (Some 1, (initial (\<lambda>n. noon))\<lparr>json_str := Some []\<rparr>)"
    using start_reaches_loop [OF c(2) n dump_bound_spaced] u(2) by (simp only: if_False)
qed

text \<open>
  A double click of the button in the second bedroom switches off the lights of all seven rooms, one
  message each, in a fixed order.
\<close>

theorem double_click_all_off:
  assumes "home_inv dump s"
    and "rx ! 0 = MXJ_XIAOMI18" "rx_id rx 14 = uint XMKG_CI_ID" "rx_cid rx 14 = 6" "rx ! 11 = 0x20"
  shows "\<exists>t. recieve_usart dump after rx 14 s = Inr t \<and>
    out t = out s @ map TxByte (concat (map (\<lambda>room. frame (ctrl_msg room 3 0 0 0))
      [ZHUWO_ID, CIWO_ID, CHUFANG_ID, CANTING_ID, KETING_ID, MENTING_ID, GUODAO_ID]))"
proof -
  have home: "home_inv dump (read_clock s)" using assms(1) by (rule home_inv_read_clock)
  let ?t = "snd (find_dev (uint XMKG_CI_ID) (read_clock s))"
  have run: "recieve_usart dump after rx 14 s = Inr (fold (\<lambda>room. sent (ctrl_msg room 3 0 0 0)) all_rooms ?t)"
    unfolding recieve_cluster [OF assms(2)] Let_def assms(3,4) if_True simp_thms
    by (rule onoff_all_off [OF assms(5)])
  have "out ?t = out s" using home_find(2) [OF home] by simp
  then have "out (fold (\<lambda>room. sent (ctrl_msg room 3 0 0 0)) all_rooms ?t) =
      out s @ map TxByte (concat (map (\<lambda>room. frame (ctrl_msg room 3 0 0 0)) all_rooms))"
    by (simp only: out_fold_sent)
  with run show ?thesis unfolding all_rooms_def by blast
qed

theorem double_click_all_off_witness:
  "\<exists>t. recieve_usart spaced [] [0x18, 13, 0x55, 0xf6, 0, 6, 1, 0, 0, 0, 0, 0x20, 2, 0] 14 started = Inr t \<and>
    out t = out started @ map TxByte (concat (map (\<lambda>room. frame (ctrl_msg room 3 0 0 0))
      [ZHUWO_ID, CIWO_ID, CHUFANG_ID, CANTING_ID, KETING_ID, MENTING_ID, GUODAO_ID]))"
  by (rule double_click_all_off [OF started_run(2)]) (simp_all add: rx_id_def rx_cid_def join16_def)

text \<open>
  A control message of up to three bytes leaves the gateway as exactly one frame that the receiver
  of this protocol accepts, and the two address bytes in it give the address back. With more than three
  bytes the program reads behind its array.
\<close>

theorem control_frame:
  "(unat len \<le> 3 \<longrightarrow>
     (\<exists>t. MXJ_SendCtrlMessage nid len m1 m2 m3 s = Inr t \<and>
        out t = out s @ map TxByte (frame (ctrl_msg nid len m1 m2 m3)) \<and> same_data s t \<and>
        msg_ok 200 (ctrl_msg nid len m1 m2 m3) \<and>
        join16 (ctrl_msg nid len m1 m2 m3 ! 2) (ctrl_msg nid len m1 m2 m3 ! 3) = uint nid)) \<and>
   (3 < unat len \<and> unat len < 252 \<longrightarrow> MXJ_SendCtrlMessage nid len m1 m2 m3 s = Inl (OutOfBounds, s))"
proof (intro conjI impI)
  assume len: "unat len \<le> 3"
  have "ctrl_msg nid len m1 m2 m3 ! 2 = hi nid" "ctrl_msg nid len m1 m2 m3 ! 3 = lo nid"
    by (simp_all add: ctrl_msg_def)
  with len show "\<exists>t. MXJ_SendCtrlMessage nid len m1 m2 m3 s = Inr t \<and>
      out t = out s @ map TxByte (frame (ctrl_msg nid len m1 m2 m3)) \<and> same_data s t \<and>
      msg_ok 200 (ctrl_msg nid len m1 m2 m3) \<and>
      join16 (ctrl_msg nid len m1 m2 m3 ! 2) (ctrl_msg nid len m1 m2 m3 ! 3) = uint nid"
    using msg_ok_ctrl [OF len] join16_hi_lo [of nid] by (simp add: SendCtrl_sent)
qed (simp add: SendCtrl_too_long)

theorem control_frame_witness:
  "(\<exists>t. MXJ_SendCtrlMessage KETING_ID 3 1 1 1 started = Inr t \<and>
      out t = out started @ map TxByte (frame [0, 6, hi KETING_ID, lo KETING_ID, 1, 1, 1])) \<and>
   MXJ_SendCtrlMessage KETING_ID 4 1 1 1 started = Inl (OutOfBounds, started)"
  using control_frame [of 3 KETING_ID 1 1 1 started] control_frame [of 4 KETING_ID 1 1 1 started] by auto

section \<open>The web side\<close>

text \<open>
  C13. A chat message of an authorised sender, in the order in which the WeChat server writes it, is
  carried out: the command of its content runs, the call consumes the data, and the call that ends the
  request answers with the reply that echoes the content to the sender.
\<close>

theorem chat_command_done:
  assumes "home_inv dump s" and "carries env rq txt" and "to_json_string jl (tokener_parse jl txt) = Some ''null''"
    and "xml txt = Children (wechat_doc to_user from_user ct w mid)"
    and "authorised from_user" and "wechat_command w = Some c" and "length to_user \<le> 200"
    and "create_ok env" and "end_rq = rq\<lparr>upload_size := 0\<rparr>"
  shows "\<exists>t u. c ((read_clock s)\<lparr>post_type := 2\<rparr>) = Inr t \<and> out u = out t \<and> home_inv dump u \<and>
    answer_to_connection jl xml env rq (Some con) s = Inr (\<lparr>a_ret = MHD_YES, a_con = Some con, a_left = 0\<rparr>, u) \<and>
    answer_to_connection jl xml env end_rq (Some con) u =
      Inr (\<lparr>a_ret = queue_ret env, a_con = Some con, a_left = 0\<rparr>,
        emit [Reply (xml_reply from_user to_user (tm_time (clock t (reads t))) w)] (read_clock u))"
proof -
  let ?s = "(read_clock s)\<lparr>post_type := 2\<rparr>"
  have home: "home_inv dump ?s" using assms(1) by (intro home_inv_post_type home_inv_read_clock)
  obtain t where t: "c ?s = Inr t" "home_inv dump t"
    using triple_total [OF home_web.wechat_command_inv [OF assms(6)] home] by blast
  let ?x = "xml_reply from_user to_user (tm_time (clock t (reads t))) w"
  let ?u = "t\<lparr>reads := Suc (reads t), strxml := ?x\<rparr>"
  have fits: "length ?x < STRXML_SIZE" by (rule wechat_reply_fits [OF t(2) assms(5-7)])
  have answer: "answer_to_connection jl xml env rq (Some con) s =
      Inr (\<lparr>a_ret = MHD_YES, a_con = Some con, a_left = 0\<rparr>, ?u)"
    by (simp add: answer_xml [OF assms(2,3)] xml_message_def assms(4) wechat_done [OF assms(5,6) t(1) fits])
  have "home_inv dump ?u" using t(2) fits by (intro home_inv_strxml home_inv_reads)
  moreover have "post_type ?u = 2" using wechat_command_keeps [OF assms(6) t(1)] by simp
  then have "answer_to_connection jl xml env end_rq (Some con) ?u =
      Inr (\<lparr>a_ret = queue_ret env, a_con = Some con, a_left = 0\<rparr>, emit [Reply (strxml ?u)] (read_clock ?u))"
    using assms(2,8,9) by (intro answer_post_end) (simp_all add: carries_def)
  ultimately show ?thesis using t(1) answer by (intro exI [of _ t] exI [of _ ?u]) simp
qed

theorem chat_command_done_witness:
  "\<exists>t u. MXJ_SendCtrlMessage KETING_ID 3 1 1 1 ((read_clock started)\<lparr>post_type := 2\<rparr>) = Inr t \<and> out u = out t \<and>
    home_inv spaced u \<and>
    answer_to_connection toy_json toy_xml calm_env (post_of chat_text) (Some some_con) started =
      Inr (\<lparr>a_ret = MHD_YES, a_con = Some some_con, a_left = 0\<rparr>, u) \<and>
    answer_to_connection toy_json toy_xml calm_env ((post_of chat_text)\<lparr>upload_size := 0\<rparr>) (Some some_con) u =
      Inr (\<lparr>a_ret = queue_ret calm_env, a_con = Some some_con, a_left = 0\<rparr>,
        emit [Reply (xml_reply owner ''gh_1'' (tm_time (clock t (reads t))) w_kai_keting)] (read_clock u))"
proof (rule chat_command_done [OF started_run(2) carries_texts(2), where mid = "''7''" and ct = "''1''"])
  show "to_json_string toy_json (tokener_parse toy_json chat_text) = Some ''null''"
    by (simp add: toy_json_def chat_text_def page_text_def)
  show "wechat_command w_kai_keting = Some (MXJ_SendCtrlMessage KETING_ID 3 1 1 1)"
    by (simp add: wechat_command_def wechat_light_def)
qed (simp_all add: toy_xml_def authorised_def owner_def calm_env_def)

text \<open>
  C14. A message whose sender is not on the list and is named before the content changes nothing but the
  kind of the last request: no command runs and no event happens. The call returns without a value and
  leaves the data unconsumed.
\<close>

theorem stranger_ignored:
  assumes "carries env rq txt" and "to_json_string jl (tokener_parse jl txt) = Some ''null''"
    and "xml txt = Children (pre @ (''FromUserName'', Some user) # post)" and "no_content pre"
    and "\<not> authorised user"
  shows "answer_to_connection jl xml env rq (Some con) s =
    Inr (\<lparr>a_ret = NoValue, a_con = Some con, a_left = upload_size rq\<rparr>, (read_clock s)\<lparr>post_type := 2\<rparr>)"
  by (simp add: answer_xml [OF assms(1,2)] xml_message_def assms(3) xml_loop_unauthorised [OF assms(4,5)])

theorem stranger_ignored_witness:
  "answer_to_connection toy_json (\<lambda>t. Children [(''ToUserName'', Some ''gh_1''), (''FromUserName'', Some ''x''),
      (''Content'', Some w_kai_keting)]) calm_env (post_of chat_text) (Some some_con) started =
    Inr (\<lparr>a_ret = NoValue, a_con = Some some_con, a_left = upload_size (post_of chat_text)\<rparr>,
      (read_clock started)\<lparr>post_type := 2\<rparr>)"
  by (rule stranger_ignored [OF carries_texts(2), where user = "''x''" and pre = "[(''ToUserName'', Some ''gh_1'')]"
      and post = "[(''Content'', Some w_kai_keting)]"])
    (simp_all add: toy_json_def chat_text_def page_text_def no_content_def authorised_def)

text \<open>
  C15. A \<^verbatim>\<open>control_down\<close> command of the web page for a room sends exactly one control message with the
  three states to the address of the room, and the request is answered as JSON from then on.
\<close>

theorem web_control:
  assumes "carries env rq txt" and "tokener_parse jl txt = Some obj"
    and "to_json_string jl (Some obj) = Some whole" "whole \<noteq> ''null''"
    and "to_json_string jl (object_get_ex jl (Some obj) ''type'') = Some (in_quotes ''control_down'')"
    and "to_json_string jl (object_get_ex jl (Some obj) ''name'') = Some (in_quotes nm)" and "(nm, room) \<in> set rooms"
    and "get_int jl (object_get_ex jl (Some obj) ''state1'') = uint b1"
    "get_int jl (object_get_ex jl (Some obj) ''state2'') = uint b2"
    "get_int jl (object_get_ex jl (Some obj) ''state3'') = uint b3"
  shows "answer_to_connection jl xml env rq (Some con) s =
    Inr (\<lparr>a_ret = MHD_YES, a_con = Some con, a_left = 0\<rparr>,
      sent (ctrl_msg room 3 b1 b2 b3) ((read_clock s)\<lparr>post_type := 1\<rparr>))"
  by (simp add: answer_carries [OF assms(1)] post_upload_carries [OF assms(1)] assms(2-4) json_control [OF assms(5-10)]
      del: ctrl_msg_3)

theorem web_control_witness:
  "answer_to_connection toy_json toy_xml calm_env (post_of page_text) (Some some_con) started =
    Inr (\<lparr>a_ret = MHD_YES, a_con = Some some_con, a_left = 0\<rparr>,
      sent (ctrl_msg KETING_ID 3 1 0 2) ((read_clock started)\<lparr>post_type := 1\<rparr>))"
  by (rule web_control [OF carries_texts(1), where obj = page_object and whole = "spaced page_object" and
      nm = "''KETING_ID''"])
    (simp_all add: toy_json_def page_object_def in_quotes_def quoted_def rooms_def)

text \<open>
  \<^verbatim>\<open>build_json\<close> on a table whose entries all have names: the text is the head, the entries separated by
  commas and the closing brackets; when it does not fit 2000 bytes the buffer overflows. For an empty
  table the text is the head alone, which no parser accepts.
\<close>

theorem page_text_of_table:
  assumes "table_wf s" and "json_str s = Some old" and "list_all named (live_devs s)"
  shows "build_json dump s =
      (if length (json_head @ devs_text dump (live_devs s)) < JSON_SIZE
       then Inr (s\<lparr>json_str := Some (json_head @ devs_text dump (live_devs s))\<rparr>) else Inl (BufferOverflow, s)) \<and>
    (devsize s = 0 \<longrightarrow> build_json dump s = Inr (s\<lparr>json_str := Some json_head\<rparr>))"
  using build_json_eq [OF assms(3,2,1), of dump] by (simp add: json_text_def live_devs_def)

theorem page_text_of_table_witness:
  "build_json spaced ((initial (\<lambda>n. noon))\<lparr>json_str := Some []\<rparr>) =
    Inr ((initial (\<lambda>n. noon))\<lparr>json_str := Some json_head\<rparr>)"
  using page_text_of_table [of "(initial (\<lambda>n. noon))\<lparr>json_str := Some []\<rparr>" "[]" spaced]
  by (simp add: initial_def table_wf_def live_devs_def)

section \<open>Tables and frames\<close>

text \<open>
  A frame with a wrong checksum has no effect but on the receiver's own variables: nothing is sent,
  no table entry changes, and the receiver waits for the next frame.
\<close>

theorem bad_checksum_ignored:
  assumes "idle s" and "msg_ok 200 m" and "c \<noteq> sum_list m"
  shows "\<exists>t. feed (thread_byte dump after) ([0x55, 0xaa] @ m @ [c]) s = Inr t \<and> idle t \<and>
    mxj_device t = mxj_device s \<and> devsize t = devsize s \<and> humand t = humand s \<and> json_str t = json_str s \<and>
    out t = out s \<and> reads t = reads s"
proof -
  define t where "t = s\<lparr>rx_state := WW_STATE, LEN_Token := m ! 1, tempDataLen := of_nat (length m - 2),
      FSC_Token := c, rxbuf := fill (m @ [sum_list m]) (rxbuf s)\<rparr>"
  have run: "feed (thread_byte dump after) ([0x55, 0xaa] @ m @ [c]) s = Inr t"
    unfolding t_def thread_byte_def using assms by (intro feed_bad_checksum) simp_all
  have "length (fill (m @ [sum_list m]) (rxbuf s)) = 200"
    using assms(2) rx_idle_buf [OF assms(1)] by (simp add: length_fill msg_ok_def)
  then have buf: "length (fill (m @ [sum_list m]) (rxbuf s)) = RXBUF_SIZE" by simp
  have same: "t = s\<lparr>rx_state := WW_STATE, LEN_Token := m ! 1, tempDataLen := of_nat (length m - 2),
      FSC_Token := c, rxbuf := fill (m @ [sum_list m]) (rxbuf s), rx_len := rx_len s\<rparr>"
    unfolding t_def by simp
  have "data_inv s" using assms(1) by (simp add: idle_def)
  then have "data_inv t" unfolding same using buf by (rule data_inv_rx)
  then have "idle t" by (simp add: idle_def t_def)
  moreover have "mxj_device t = mxj_device s" "devsize t = devsize s" "humand t = humand s"
    "json_str t = json_str s" "out t = out s" "reads t = reads s"
    by (simp_all add: t_def)
  ultimately show ?thesis using run by blast
qed

theorem bad_checksum_ignored_witness:
  "\<exists>t. feed (thread_byte spaced []) ([0x55, 0xaa] @ [5, 3, 0x28, 0x2c] @ [0]) started = Inr t \<and> idle t \<and>
    mxj_device t = mxj_device started \<and> devsize t = devsize started \<and> humand t = humand started \<and>
    json_str t = json_str started \<and> out t = out started \<and> reads t = reads started"
  by (rule bad_checksum_ignored [OF started_idle]) (simp_all add: msg_ok_def)

text \<open>
  Registering an address that the search did not find: the table stays without duplicates, the
  search finds the address at the end, and every other address where it was before. With 200 entries the
  entry is written behind the end of the table.
\<close>

theorem register_then_find:
  assumes "table_wf s" and "distinct (dev_ids s)" and "0 \<le> nid" "nid < 65536" and "fst (find_dev nid s) = -1"
  shows "(\<forall>t. add_xiaomi nid ty s = Inr t \<longrightarrow> table_wf t \<and> distinct (dev_ids t) \<and>
      fst (find_dev nid t) = int (unat (devsize s)) \<and>
      (\<forall>b. fst (find_dev b s) \<noteq> -1 \<longrightarrow> fst (find_dev b t) = fst (find_dev b s))) \<and>
    (unat (devsize s) < 200 \<longrightarrow> (\<exists>t. add_xiaomi nid ty s = Inr t)) \<and>
    (unat (devsize s) = 200 \<longrightarrow> add_xiaomi nid ty s = Inl (OutOfBounds, s))"
proof (intro conjI allI impI)
  have snd: "snd (find_dev nid s) = s"
    using assms(1,5) by (simp add: find_dev_eq split: if_splits)
  fix t
  assume t: "add_xiaomi nid ty s = Inr t"
  then have t': "add_xiaomi nid ty (snd (find_dev nid s)) = Inr t" by (simp only: snd)
  show "table_wf t" "distinct (dev_ids t)"
    using zb_table.register_distinct [OF assms t'] by blast+
  show "fst (find_dev nid t) = int (unat (devsize s))"
    using zb_table.find_after_register [OF assms(1,3-5) t'] by (simp only: length_dev_ids [OF assms(1)])
  show "fst (find_dev b t) = fst (find_dev b s)" if "fst (find_dev b s) \<noteq> -1" for b
    using zb_table.find_stable [OF assms(1,3,4) t that] .
next
  show "\<exists>t. add_xiaomi nid ty s = Inr t" if "unat (devsize s) < 200"
    using append_dev_room [OF assms(1) that] by (simp add: add_xiaomi_def)
  show "add_xiaomi nid ty s = Inl (OutOfBounds, s)" if "unat (devsize s) = 200"
    using append_dev_full [OF assms(1) that] by (simp add: add_xiaomi_def)
qed

theorem register_then_find_witness:
  "\<exists>t. add_xiaomi 0x1234 3 started = Inr t \<and> fst (find_dev 0x1234 t) = 19"
proof -
  have "0x1234 \<notin> set (dev_ids started)"
    unfolding home_inv_ids [OF started_run(2)] by (simp add: known_ids_def boot_names_list boot_list_def)
  then have new: "fst (find_dev 0x1234 started) = -1" using started_table by (simp add: find_dev_miss)
  have dist: "distinct (dev_ids started)" using started_run(2) by (simp add: home_inv_def home_table_def data_inv_def)
  have size: "unat (devsize started) = 19" by (simp add: started_table(2))
  have "0 \<le> (0x1234 :: int)" "(0x1234 :: int) < 65536" by simp_all
  note reg = register_then_find [OF started_table(1) dist this new, of 3]
  from reg obtain t where t: "add_xiaomi 0x1234 3 started = Inr t" unfolding size by auto
  moreover from reg t have "fst (find_dev 0x1234 t) = int (unat (devsize started))" by blast
  ultimately show ?thesis unfolding size by auto
qed

section \<open>Limits and faults\<close>

text \<open>
  C19. A length byte below 2 or above 199 is not refused: the receiver stores the data bytes that follow
  and writes behind its buffer when the 199th arrives.
\<close>

theorem length_byte_overrun:
  assumes "idle s" and "unat l < 2 \<or> 200 \<le> unat l" and "199 \<le> length bs"
  shows "\<exists>t. feed (thread_byte dump after) ([0x55, 0xaa, c, l] @ bs) s = Inl (OutOfBounds, t)"
  unfolding thread_byte_def using assms by (intro overrun) (simp_all add: bad_length_def)

theorem length_byte_overrun_witness:
  "\<exists>t. feed (thread_byte spaced []) ([0x55, 0xaa, 1, 0] @ replicate 199 7) started = Inl (OutOfBounds, t)"
  by (rule length_byte_overrun [OF started_idle]) simp_all

text \<open>
  C20. The list of authorised senders does not protect the house: a message whose content comes before
  its sender, or without one, has its command carried out. Only then does the reply fault on the sender
  that was never set.
\<close>

theorem content_before_sender:
  assumes "home_inv dump s" and "carries env rq txt" and "to_json_string jl (tokener_parse jl txt) = Some ''null''"
    and "xml txt = Children (pre @ (''Content'', Some w) # post)" and "no_sender pre" and "wechat_command w = Some c"
  shows "\<exists>t. c ((read_clock s)\<lparr>post_type := 2\<rparr>) = Inr t \<and>
    answer_to_connection jl xml env rq (Some con) s = Inl (WildPointer, t)"
proof -
  have home: "home_inv dump ((read_clock s)\<lparr>post_type := 2\<rparr>)"
    using assms(1) by (intro home_inv_post_type home_inv_read_clock)
  obtain t where t: "c ((read_clock s)\<lparr>post_type := 2\<rparr>) = Inr t"
    using triple_total [OF home_web.wechat_command_inv [OF assms(6)] home] by blast
  have "v_from no_vars = None" by (simp add: no_vars_def)
  from xml_loop_no_sender [OF assms(5) this assms(6) t] show ?thesis
    using t by (simp add: answer_xml [OF assms(2,3)] xml_message_def assms(4))
qed

theorem content_before_sender_witness:
  "\<exists>t. MXJ_SendCtrlMessage KETING_ID 3 1 1 1 ((read_clock started)\<lparr>post_type := 2\<rparr>) = Inr t \<and>
    answer_to_connection toy_json (\<lambda>t. Children [(''Content'', Some w_kai_keting), (''FromUserName'', Some ''x'')])
      calm_env (post_of chat_text) (Some some_con) started = Inl (WildPointer, t)"
  by (rule content_before_sender [OF started_run(2) carries_texts(2), where pre = "[]" and w = w_kai_keting and
      post = "[(''FromUserName'', Some ''x'')]"])
    (simp_all add: toy_json_def chat_text_def page_text_def no_sender_def wechat_command_def wechat_light_def)

text \<open>
  A new Xiaomi sensor of a supported model that announces itself to the running program crashes it:
  the entry is appended without a name, and rendering the table reads the name.
\<close>

theorem new_sensor_crashes:
  assumes "home_inv dump s" and "new_sensor_report rx len" and "rx_id rx len \<notin> set known_ids"
    and "xiaomi_name after rx = Inr nm"
    and "nm \<in> {''lumi.sensor_switch'', ''lumi.sensor_magnet'', ''lumi.sensor_motion'', ''lumi.sensor_ht''}"
  shows "\<exists>f. recieve_usart dump after rx len s = Inl f"
  using assms by (intro recieve_register_crash) (auto simp: sensor_names_def)

theorem new_sensor_crashes_witness:
  "\<exists>f. recieve_usart spaced [NUL] ([0x18, 28, 0x12, 0x34, 0, 0, 1, 0, 0, 0, 5, 0x42, 14,
      108, 117, 109, 105, 46, 115, 101, 110, 115, 111, 114, 95, 104, 116, 0, 0] @ replicate 171 0) 29 started = Inl f"
proof (rule new_sensor_crashes [OF started_run(2), where nm = "''lumi.sensor_ht''"])
  show "rx_id ([0x18, 28, 0x12, 0x34, 0, 0, 1, 0, 0, 0, 5, 0x42, 14, 108, 117, 109, 105, 46, 115, 101, 110, 115,
      111, 114, 95, 104, 116, 0, 0] @ replicate 171 0) 29 \<notin> set known_ids"
    by (simp add: rx_id_def join16_def known_ids_def boot_names_list boot_list_def)
  show "xiaomi_name [NUL] ([0x18, 28, 0x12, 0x34, 0, 0, 1, 0, 0, 0, 5, 0x42, 14, 108, 117, 109, 105, 46, 115, 101,
      110, 115, 111, 114, 95, 104, 116, 0, 0] @ replicate 171 0) = Inr ''lumi.sensor_ht''"
    by (subst xiaomi_name_behind [where nm = "''lumi.sensor_ht''"])
      (simp_all add: rx_text_def cstr_ends_def cstr_def char_of_def bit_0)
qed (simp_all add: new_sensor_report_def rx_cid_def join16_def)

text \<open>
  The model name of a sensor is copied without a terminating zero, so what the gateway compares is
  the name followed by whatever stands in memory behind the copy: the same message is taken for a known
  model only when that memory happens to start with a zero.
\<close>

theorem model_name_unterminated:
  assumes "rx_text (take (unat (rx ! 12)) (drop 13 rx)) = nm" and "length nm = unat (rx ! 12)" and "NUL \<notin> set nm"
    and "cstr_ends after"
  shows "xiaomi_name after rx = Inr nm \<longleftrightarrow> (\<exists>r. after = NUL # r)"
proof -
  have "xiaomi_name after rx = Inr (nm @ cstr after)" using assms by (rule xiaomi_name_behind)
  moreover have "cstr after = [] \<longleftrightarrow> (\<exists>r. after = NUL # r)"
    using assms(4) by (cases after) (auto simp: cstr_def cstr_ends_def)
  ultimately show ?thesis by simp
qed

theorem model_name_unterminated_witness:
  "xiaomi_name (''x'' @ [NUL]) ([0, 0, 0, 0, 0, 0, 0, 0, 0, 0, 0, 0, 2, 104, 116]) \<noteq> Inr ''ht'' \<and>
   xiaomi_name [NUL] ([0, 0, 0, 0, 0, 0, 0, 0, 0, 0, 0, 0, 2, 104, 116]) = Inr ''ht''"
proof -
  let ?rx = "[0, 0, 0, 0, 0, 0, 0, 0, 0, 0, 0, 0, 2, 104, 116] :: byte list"
  have "rx_text (take (unat (?rx ! 12)) (drop 13 ?rx)) = ''ht''" "length ''ht'' = unat (?rx ! 12)" "NUL \<notin> set ''ht''"
    "cstr_ends (''x'' @ [NUL])" "cstr_ends [NUL]"
    by (simp_all add: rx_text_def cstr_ends_def char_of_def bit_0)
  from model_name_unterminated [OF this(1-3), of "''x'' @ [NUL]"] model_name_unterminated [OF this(1-3), of "[NUL]"]
  show ?thesis by (simp add: cstr_ends_def)
qed

text \<open>
  Signs of life are counted modulo 256: after 256 messages of a device the table is what it was
  before, so the check reports a sensor that sent 256 messages as offline.
\<close>

theorem heart_wraps:
  assumes "table_wf s"
  shows "((\<lambda>s. snd (find_dev nid s)) ^^ 256) s = s"
  using assms by (rule find_dev_256)

theorem heart_wraps_witness: "((\<lambda>s. snd (find_dev (uint XMLOUSHUI_CIWO_ID) s)) ^^ 256) started = started"
  by (rule heart_wraps [OF started_table(1)])

text \<open>
  An XML body in which none of the five element names occurs makes the program free a pointer that
  was never set.
\<close>

theorem xml_free_unset:
  assumes "carries env rq txt" and "to_json_string jl (tokener_parse jl txt) = Some ''null''" and "xml txt = Children cs"
    and "\<forall>n c. (n, c) \<in> set cs \<longrightarrow> n \<notin> {''CreateTime'', ''FromUserName'', ''ToUserName'', ''MsgType'', ''Content''}"
  shows "answer_to_connection jl xml env rq (Some con) s = Inl (WildPointer, (read_clock s)\<lparr>post_type := 2\<rparr>)"
  by (simp add: answer_xml [OF assms(1,2)] xml_message_def assms(3) xml_loop_unknown [OF assms(4)] no_vars_def)

theorem xml_free_unset_witness:
  "answer_to_connection toy_json (\<lambda>t. Children [(''text'', Some '' '')]) calm_env (post_of chat_text) (Some some_con)
     started = Inl (WildPointer, (read_clock started)\<lparr>post_type := 2\<rparr>)"
  by (rule xml_free_unset [OF carries_texts(2), where cs = "[(''text'', Some '' '')]"])
    (simp_all add: toy_json_def chat_text_def page_text_def)

text \<open>
  The kind of a connection is never set: a request that is accepted and then completed destroys a
  post processor that does not exist exactly when the memory \<^verbatim>\<open>malloc\<close> returned holds the number of
  \<^verbatim>\<open>POST\<close> there, whatever the method of the request was.
\<close>

theorem completed_reads_unset_kind:
  assumes "malloc_ok env"
  shows "\<exists>con. answer_to_connection jl xml env rq None s =
      Inr (\<lparr>a_ret = MHD_YES, a_con = Some con, a_left = upload_size rq\<rparr>, read_clock s) \<and>
    request_completed (Some con) = (if malloc_word env = 1 then Inl WildPointer else Inr None)"
  using assms by (simp add: answer_to_connection_def request_completed_def)

theorem completed_reads_unset_kind_witness:
  "\<exists>con. answer_to_connection toy_json toy_xml (calm_env\<lparr>malloc_word := 1\<rparr>) get_page None started =
      Inr (\<lparr>a_ret = MHD_YES, a_con = Some con, a_left = upload_size get_page\<rparr>, read_clock started) \<and>
    request_completed (Some con) = Inl WildPointer"
  using completed_reads_unset_kind [of "calm_env\<lparr>malloc_word := 1\<rparr>" toy_json toy_xml get_page started]
  by (simp add: calm_env_def)

text \<open>
  A state report of six bytes sets the states of two switches from the bytes 8 and 9 of the receive
  buffer, which lie behind the report: what an earlier message left there.
\<close>

theorem short_state_report_stale:
  assumes "home_inv dump s" and "rx ! 0 = MXJ_SEND_STATE" and "nid = rx_id rx 6" "nid \<in> set known_ids"
    and "i = nat (first_index nid known_ids)"
  shows "\<exists>t. recieve_usart dump after rx 6 s = Inr t \<and>
    d_state (mxj_device t ! i) ! 0 = rx ! 8 \<and> d_state (mxj_device t ! i) ! 1 = rx ! 9"
proof -
  have home: "home_inv dump (read_clock s)" using assms(1) by (rule home_inv_read_clock)
  have "recieve_usart dump after rx 6 s = rx_send_state dump nid rx 6 (read_clock s)"
    using assms(2,3) by (simp add: recieve_usart_def Let_def split: sum.split)
  then show ?thesis
    using send_state_short [OF home, of nid i rx] assms(4,5) home_inv_ids [OF home] by simp
qed

theorem short_state_report_stale_witness:
  "\<exists>t. recieve_usart spaced [] [6, 5, 0x8d, 0xc0, 1, 0x7f, 0xee, 0, 9, 9, 9] 6 started = Inr t \<and>
    d_state (mxj_device t ! 2) ! 0 = [6, 5, 0x8d, 0xc0, 1, 0x7f, 0xee, 0, 9, 9, 9] ! 8 \<and>
    d_state (mxj_device t ! 2) ! 1 = [6, 5, 0x8d, 0xc0, 1, 0x7f, 0xee, 0, 9, 9, 9] ! 9"
proof (rule short_state_report_stale [OF started_run(2), where nid = "uint CHUFANG_ID"])
  show "uint CHUFANG_ID \<in> set known_ids"
    using chufang_index first_index_miss [of "uint CHUFANG_ID" known_ids] by auto
  show "2 = nat (first_index (uint CHUFANG_ID) known_ids)" unfolding chufang_index by simp
qed (simp_all add: rx_id_def join16_def)

text \<open>
  The help text answers every content that is no command; with it the reply has room in its 500
  bytes exactly when the receiver's name and the time stamp have fewer than 50 characters together.
\<close>

theorem help_reply_room:
  assumes "authorised from_user" and "v_from v = Some (Some from_user)" "v_to v = Some (Some to_user)"
    and "wechat_command w = None"
  shows "xml_content v w s =
    (let t = tm_time (clock s (reads s)); u = s\<lparr>reads := Suc (reads s)\<rparr>
     in if length to_user + length (dec t) < 50
        then Inr (u\<lparr>strxml := xml_reply from_user to_user t help_text\<rparr>) else Inl (BufferOverflow, u))"
proof -
  have "length (xml_reply from_user to_user t help_text) < 500 \<longleftrightarrow> length to_user + length (dec t) < 50" for t
    using length_authorised [OF assms(1)] by (simp add: length_xml_reply length_help_text)
  with assms show ?thesis
    by (simp add: xml_content_def write_strxml_def fmt_string_def read_time_def Let_def)
qed

theorem help_reply_room_witness:
  "xml_content \<lparr>v_uri = None, v_from = Some (Some owner), v_to = Some (Some (replicate 50 CHR ''g''))\<rparr> ''?'' started =
    Inl (BufferOverflow, started\<lparr>reads := Suc (reads started)\<rparr>)"
  using help_reply_room [of owner "\<lparr>v_uri = None, v_from = Some (Some owner), v_to = Some (Some (replicate 50 CHR ''g''))\<rparr>"
      "replicate 50 CHR ''g''" "''?''" started]
  by (simp add: authorised_def owner_def wechat_command_def wechat_light_def wechat_other_def word_texts Let_def)

end
