(* ===== verification/Zb2_Text.thy ===== *)
theory Zb2_Text
  imports Zb_State
begin

text \<open>
  The texts of \<^verbatim>\<open>zbclient2.c\<close>, a variant of \<^verbatim>\<open>zbclient.c\<close> in another encoding: the file is saved in GBK,
  so its literals have other bytes. The names are those of \<open>Zb_Text\<close> with the suffix \<^verbatim>\<open>_zb2\<close>, which all
  definitions of this program carry. Two rooms have other network addresses. What the two files have in
  common line by line is not repeated: the definitions for \<^verbatim>\<open>zbclient.c\<close> are used.
\<close>

definition KETING_ID_zb2 :: u16 where [simp]: "KETING_ID_zb2 = 0x969E"
definition GUODAO_ID_zb2 :: u16 where [simp]: "GUODAO_ID_zb2 = 0x0072"

definition w_kai_keting_zb2 :: string where
  "w_kai_keting_zb2 =
   [CHR 0xBF, CHR 0xAA, CHR 0xBF, CHR 0xCD, CHR 0xCC, CHR 0xFC]"

definition w_guan_keting_zb2 :: string where
  "w_guan_keting_zb2 =
   [CHR 0xB9, CHR 0xD8, CHR 0xBF, CHR 0xCD, CHR 0xCC, CHR 0xFC]"

definition w_kai_canting_zb2 :: string where
  "w_kai_canting_zb2 =
   [CHR 0xBF, CHR 0xAA, CHR 0xB2, CHR 0xCD, CHR 0xCC, CHR 0xFC]"

definition w_guan_canting_zb2 :: string where
  "w_guan_canting_zb2 =
   [CHR 0xB9, CHR 0xD8, CHR 0xB2, CHR 0xCD, CHR 0xCC, CHR 0xFC]"

definition w_kai_chufang_zb2 :: string where
  "w_kai_chufang_zb2 =
   [CHR 0xBF, CHR 0xAA, CHR 0xB3, CHR 0xF8, CHR 0xB7, CHR 0xBF]"

definition w_guan_chufang_zb2 :: string where
  "w_guan_chufang_zb2 =
   [CHR 0xB9, CHR 0xD8, CHR 0xB3, CHR 0xF8, CHR 0xB7, CHR 0xBF]"

definition w_kai_menting_zb2 :: string where
  "w_kai_menting_zb2 =
   [CHR 0xBF, CHR 0xAA, CHR 0xC3, CHR 0xC5, CHR 0xCC, CHR 0xFC]"

definition w_guan_menting_zb2 :: string where
  "w_guan_menting_zb2 =
   [CHR 0xB9, CHR 0xD8, CHR 0xC3, CHR 0xC5, CHR 0xCC, CHR 0xFC]"

definition w_kai_zhuwo_zb2 :: string where
  "w_kai_zhuwo_zb2 =
   [CHR 0xBF, CHR 0xAA, CHR 0xD6, CHR 0xF7, CHR 0xCE, CHR 0xD4]"

definition w_guan_zhuwo_zb2 :: string where
  "w_guan_zhuwo_zb2 =
   [CHR 0xB9, CHR 0xD8, CHR 0xD6, CHR 0xF7, CHR 0xCE, CHR 0xD4]"

definition w_kai_ciwo_zb2 :: string where
  "w_kai_ciwo_zb2 =
   [CHR 0xBF, CHR 0xAA, CHR 0xB4, CHR 0xCE, CHR 0xCE, CHR 0xD4]"

definition w_guan_ciwo_zb2 :: string where
  "w_guan_ciwo_zb2 =
   [CHR 0xB9, CHR 0xD8, CHR 0xB4, CHR 0xCE, CHR 0xCE, CHR 0xD4]"

definition w_kai_guodao_zb2 :: string where
  "w_kai_guodao_zb2 =
   [CHR 0xBF, CHR 0xAA, CHR 0xB9, CHR 0xFD, CHR 0xB5, CHR 0xC0]"

definition w_guan_guodao_zb2 :: string where
  "w_guan_guodao_zb2 =
   [CHR 0xB9, CHR 0xD8, CHR 0xB9, CHR 0xFD, CHR 0xB5, CHR 0xC0]"

definition w_kai_cesuo_zb2 :: string where
  "w_kai_cesuo_zb2 =
   [CHR 0xBF, CHR 0xAA, CHR 0xB2, CHR 0xDE, CHR 0xCB, CHR 0xF9]"

definition w_guan_cesuo_zb2 :: string where
  "w_guan_cesuo_zb2 =
   [CHR 0xB9, CHR 0xD8, CHR 0xB2, CHR 0xDE, CHR 0xCB, CHR 0xF9]"

definition w_kai_chazuo_zb2 :: string where
  "w_kai_chazuo_zb2 =
   [CHR 0xBF, CHR 0xAA, CHR 0xB4, CHR 0xCE, CHR 0xCE, CHR 0xD4, CHR 0xB2, CHR 0xE5, CHR 0xD7,
    CHR 0xF9]"

definition w_guan_chazuo_zb2 :: string where
  "w_guan_chazuo_zb2 =
   [CHR 0xB9, CHR 0xD8, CHR 0xB4, CHR 0xCE, CHR 0xCE, CHR 0xD4, CHR 0xB2, CHR 0xE5, CHR 0xD7,
    CHR 0xF9]"

definition w_guan_zhuwo_chuanglian_zb2 :: string where
  "w_guan_zhuwo_chuanglian_zb2 =
   [CHR 0xB9, CHR 0xD8, CHR 0xD6, CHR 0xF7, CHR 0xCE, CHR 0xD4, CHR 0xB4, CHR 0xB0, CHR 0xC1,
    CHR 0xB1]"

definition w_kai_zhuwo_chuanglian_zb2 :: string where
  "w_kai_zhuwo_chuanglian_zb2 =
   [CHR 0xBF, CHR 0xAA, CHR 0xD6, CHR 0xF7, CHR 0xCE, CHR 0xD4, CHR 0xB4, CHR 0xB0, CHR 0xC1,
    CHR 0xB1]"

definition w_guan_keting_shalian_zb2 :: string where
  "w_guan_keting_shalian_zb2 =
   [CHR 0xB9, CHR 0xD8, CHR 0xBF, CHR 0xCD, CHR 0xCC, CHR 0xFC, CHR 0xC9, CHR 0xB4, CHR 0xC1,
    CHR 0xB1]"

definition w_kai_keting_shalian_zb2 :: string where
  "w_kai_keting_shalian_zb2 =
   [CHR 0xBF, CHR 0xAA, CHR 0xBF, CHR 0xCD, CHR 0xCC, CHR 0xFC, CHR 0xC9, CHR 0xB4, CHR 0xC1,
    CHR 0xB1]"

definition w_guan_keting_bulian_zb2 :: string where
  "w_guan_keting_bulian_zb2 =
   [CHR 0xB9, CHR 0xD8, CHR 0xBF, CHR 0xCD, CHR 0xCC, CHR 0xFC, CHR 0xB2, CHR 0xBC, CHR 0xC1,
    CHR 0xB1]"

definition w_kai_keting_bulian_zb2 :: string where
  "w_kai_keting_bulian_zb2 =
   [CHR 0xBF, CHR 0xAA, CHR 0xBF, CHR 0xCD, CHR 0xCC, CHR 0xFC, CHR 0xB2, CHR 0xBC, CHR 0xC1,
    CHR 0xB1]"

definition n_keting_zb2 :: string where
  "n_keting_zb2 =
   [CHR 0xBF, CHR 0xCD, CHR 0xCC, CHR 0xFC, CHR 0xB5, CHR 0xC6, CHR 0xBF, CHR 0xAA, CHR 0xB9,
    CHR 0xD8]"

definition n_canting_zb2 :: string where
  "n_canting_zb2 =
   [CHR 0xB2, CHR 0xCD, CHR 0xCC, CHR 0xFC, CHR 0xB5, CHR 0xC6, CHR 0xBF, CHR 0xAA, CHR 0xB9,
    CHR 0xD8]"

definition n_chufang_zb2 :: string where
  "n_chufang_zb2 =
   [CHR 0xB3, CHR 0xF8, CHR 0xB7, CHR 0xBF, CHR 0xB5, CHR 0xC6, CHR 0xBF, CHR 0xAA, CHR 0xB9,
    CHR 0xD8]"

definition n_menting_zb2 :: string where
  "n_menting_zb2 =
   [CHR 0xC3, CHR 0xC5, CHR 0xCC, CHR 0xFC, CHR 0xB5, CHR 0xC6, CHR 0xBF, CHR 0xAA, CHR 0xB9,
    CHR 0xD8]"

definition n_guodao_zb2 :: string where
  "n_guodao_zb2 =
   [CHR 0xB9, CHR 0xFD, CHR 0xB5, CHR 0xC0, CHR 0xB5, CHR 0xC6, CHR 0xBF, CHR 0xAA, CHR 0xB9,
    CHR 0xD8]"

definition n_zhuwo_zb2 :: string where
  "n_zhuwo_zb2 =
   [CHR 0xD6, CHR 0xF7, CHR 0xCE, CHR 0xD4, CHR 0xB5, CHR 0xC6, CHR 0xBF, CHR 0xAA, CHR 0xB9,
    CHR 0xD8]"

definition n_ciwo_zb2 :: string where
  "n_ciwo_zb2 =
   [CHR 0xB4, CHR 0xCE, CHR 0xCE, CHR 0xD4, CHR 0xB5, CHR 0xC6, CHR 0xBF, CHR 0xAA, CHR 0xB9,
    CHR 0xD8]"

definition n_xmkg_zhu_zb2 :: string where
  "n_xmkg_zhu_zb2 =
   [CHR 0xD6, CHR 0xF7, CHR 0xCE, CHR 0xD4, CHR 0xD0, CHR 0xA1, CHR 0xC3, CHR 0xD7, CHR 0xB0,
    CHR 0xB4, CHR 0xC5, CHR 0xA5]"

definition n_xmkg_ci_zb2 :: string where
  "n_xmkg_ci_zb2 =
   [CHR 0xB4, CHR 0xCE, CHR 0xCE, CHR 0xD4, CHR 0xD0, CHR 0xA1, CHR 0xC3, CHR 0xD7, CHR 0xB0,
    CHR 0xB4, CHR 0xC5, CHR 0xA5]"

definition n_xmmenci_zb2 :: string where
  "n_xmmenci_zb2 =
   [CHR 0xC8, CHR 0xEB, CHR 0xBB, CHR 0xA7, CHR 0xD0, CHR 0xA1, CHR 0xC3, CHR 0xD7, CHR 0xC3,
    CHR 0xC5, CHR 0xB4, CHR 0xC5]"

definition n_xiaomirenti_zb2 :: string where
  "n_xiaomirenti_zb2 =
   [CHR 0xB3, CHR 0xF8, CHR 0xB7, CHR 0xBF, CHR 0xD0, CHR 0xA1, CHR 0xC3, CHR 0xD7, CHR 0xC8,
    CHR 0xCB, CHR 0xCC, CHR 0xE5, CHR 0xB8, CHR 0xD0, CHR 0xD3, CHR 0xA6]"

definition n_xmkg_wai_zb2 :: string where
  "n_xmkg_wai_zb2 =
   [CHR 0xBF, CHR 0xCD, CHR 0xCC, CHR 0xFC, CHR 0xD0, CHR 0xA1, CHR 0xC3, CHR 0xD7, CHR 0xB0,
    CHR 0xB4, CHR 0xC5, CHR 0xA5]"

definition n_loushui_ciwo_zb2 :: string where
  "n_loushui_ciwo_zb2 =
   [CHR 0xB4, CHR 0xCE, CHR 0xCE, CHR 0xD4, CHR 0xC2, CHR 0xA9, CHR 0xCB, CHR 0xAE, CHR 0xBC,
    CHR 0xEC, CHR 0xB2, CHR 0xE2]"

definition n_loushui_chufang_zb2 :: string where
  "n_loushui_chufang_zb2 =
   [CHR 0xB3, CHR 0xF8, CHR 0xB7, CHR 0xBF, CHR 0xC2, CHR 0xA9, CHR 0xCB, CHR 0xAE, CHR 0xBC,
    CHR 0xEC, CHR 0xB2, CHR 0xE2]"

definition n_power_ciwo_zb2 :: string where
  "n_power_ciwo_zb2 =
   [CHR 0xB4, CHR 0xCE, CHR 0xCE, CHR 0xD4, CHR 0xB2, CHR 0xE5, CHR 0xD7, CHR 0xF9]"

definition n_chuanglian_zhuwo_zb2 :: string where
  "n_chuanglian_zhuwo_zb2 =
   [CHR 0xD6, CHR 0xF7, CHR 0xCE, CHR 0xD4, CHR 0xB4, CHR 0xB0, CHR 0xC1, CHR 0xB1]"

definition n_chuanglian_keting1_zb2 :: string where
  "n_chuanglian_keting1_zb2 =
   [CHR 0xBF, CHR 0xCD, CHR 0xCC, CHR 0xFC, CHR 0xB4, CHR 0xB0, CHR 0xC1, CHR 0xB1]"

definition n_xmkg_cl_keting1_zb2 :: string where
  "n_xmkg_cl_keting1_zb2 =
   [CHR 0xBF, CHR 0xCD, CHR 0xCC, CHR 0xFC, CHR 0xB4, CHR 0xB0, CHR 0xC1, CHR 0xB1, CHR 0xBF,
    CHR 0xAA, CHR 0xB9, CHR 0xD8] @ ''1''"

definition n_xmkg_cl_keting2_zb2 :: string where
  "n_xmkg_cl_keting2_zb2 =
   [CHR 0xBF, CHR 0xCD, CHR 0xCC, CHR 0xFC, CHR 0xB4, CHR 0xB0, CHR 0xC1, CHR 0xB1, CHR 0xBF,
    CHR 0xAA, CHR 0xB9, CHR 0xD8] @ ''2''"

definition help_text_zb2 :: string where
  "help_text_zb2 =
   ''eg'' @ [CHR 0xA3, CHR 0xBA, CHR 0xBF, CHR 0xAA, CHR 0xBF, CHR 0xCD, CHR 0xCC, CHR 0xFC,
    CHR 0xA1, CHR 0xA2, CHR 0xB9, CHR 0xD8, CHR 0xBF, CHR 0xCD, CHR 0xCC, CHR 0xFC, CHR 0xA1,
    CHR 0xA2, CHR 0xBF, CHR 0xAA, CHR 0xB4, CHR 0xCE, CHR 0xCE, CHR 0xD4, CHR 0xA1, CHR 0xA2,
    CHR 0xBF, CHR 0xAA, CHR 0xB9, CHR 0xFD, CHR 0xB5, CHR 0xC0, CHR 0xA1, CHR 0xA2, CHR 0xBF,
    CHR 0xAA, CHR 0xC3, CHR 0xC5, CHR 0xCC, CHR 0xFC, CHR 0xA1, CHR 0xA2, CHR 0xBF, CHR 0xAA,
    CHR 0xB3, CHR 0xF8, CHR 0xB7, CHR 0xBF, CHR 0xA1, CHR 0xA2, CHR 0xBF, CHR 0xAA, CHR 0xB2,
    CHR 0xCD, CHR 0xCC, CHR 0xFC, CHR 0xA1, CHR 0xA2, CHR 0xBF, CHR 0xAA, CHR 0xB2, CHR 0xDE,
    CHR 0xCB, CHR 0xF9, CHR 0xA1, CHR 0xA2, CHR 0xBF, CHR 0xAA, CHR 0xB4, CHR 0xCE, CHR 0xCE,
    CHR 0xD4, CHR 0xB2, CHR 0xE5, CHR 0xD7, CHR 0xF9, CHR 0xA1, CHR 0xA2, CHR 0xB9, CHR 0xD8,
    CHR 0xB4, CHR 0xCE, CHR 0xCE, CHR 0xD4, CHR 0xB2, CHR 0xE5, CHR 0xD7, CHR 0xF9, CHR 0xA1,
    CHR 0xA2, CHR 0xBF, CHR 0xAA, CHR 0xD6, CHR 0xF7, CHR 0xCE, CHR 0xD4, CHR 0xB4, CHR 0xB0,
    CHR 0xC1, CHR 0xB1, CHR 0xA1, CHR 0xA2, CHR 0xB9, CHR 0xD8, CHR 0xD6, CHR 0xF7, CHR 0xCE,
    CHR 0xD4, CHR 0xB4, CHR 0xB0, CHR 0xC1, CHR 0xB1, CHR 0xA1, CHR 0xA2, CHR 0xBF, CHR 0xAA,
    CHR 0xBF, CHR 0xCD, CHR 0xCC, CHR 0xFC, CHR 0xC9, CHR 0xB4, CHR 0xC1, CHR 0xB1, CHR 0xA1,
    CHR 0xA2, CHR 0xB9, CHR 0xD8, CHR 0xBF, CHR 0xCD, CHR 0xCC, CHR 0xFC, CHR 0xC9, CHR 0xB4,
    CHR 0xC1, CHR 0xB1, CHR 0xA1, CHR 0xA2, CHR 0xBF, CHR 0xAA, CHR 0xBF, CHR 0xCD, CHR 0xCC,
    CHR 0xFC, CHR 0xB2, CHR 0xBC, CHR 0xC1, CHR 0xB1, CHR 0xA1, CHR 0xA2, CHR 0xB9, CHR 0xD8,
    CHR 0xBF, CHR 0xCD, CHR 0xCC, CHR 0xFC, CHR 0xB2, CHR 0xBC, CHR 0xC1, CHR 0xB1]"

definition t_kaimen_zb2 :: string where
  "t_kaimen_zb2 =
   [CHR 0xBF, CHR 0xAA, CHR 0xC3, CHR 0xC5, CHR 0xA3, CHR 0xA1]"

definition t_guanmen_zb2 :: string where
  "t_guanmen_zb2 =
   [CHR 0xB9, CHR 0xD8, CHR 0xC3, CHR 0xC5, CHR 0xA3, CHR 0xA1]"

definition t_ciwo_loushui_zb2 :: string where
  "t_ciwo_loushui_zb2 =
   [CHR 0xB4, CHR 0xCE, CHR 0xCE, CHR 0xD4, CHR 0xC2, CHR 0xA9, CHR 0xCB, CHR 0xAE]"

definition t_ciwo_jiechu_zb2 :: string where
  "t_ciwo_jiechu_zb2 =
   [CHR 0xB4, CHR 0xCE, CHR 0xCE, CHR 0xD4, CHR 0xC2, CHR 0xA9, CHR 0xCB, CHR 0xAE, CHR 0xBD,
    CHR 0xE2, CHR 0xB3, CHR 0xFD]"

definition t_chufang_loushui_zb2 :: string where
  "t_chufang_loushui_zb2 =
   [CHR 0xB3, CHR 0xF8, CHR 0xB7, CHR 0xBF, CHR 0xC2, CHR 0xA9, CHR 0xCB, CHR 0xAE]"

definition t_chufang_jiechu_zb2 :: string where
  "t_chufang_jiechu_zb2 =
   [CHR 0xB3, CHR 0xF8, CHR 0xB7, CHR 0xBF, CHR 0xC2, CHR 0xA9, CHR 0xCB, CHR 0xAE, CHR 0xBD,
    CHR 0xE2, CHR 0xB3, CHR 0xFD]"

definition t_qidong_zb2 :: string where
  "t_qidong_zb2 =
   [CHR 0xCF, CHR 0xB5, CHR 0xCD, CHR 0xB3, CHR 0xC6, CHR 0xF4, CHR 0xB6, CHR 0xAF]"

definition t_shebei_zb2 :: string where
  "t_shebei_zb2 =
   [CHR 0xC9, CHR 0xE8, CHR 0xB1, CHR 0xB8] @ '':''"

definition t_lixian_zb2 :: string where
  "t_lixian_zb2 =
   '' '' @ [CHR 0xC0, CHR 0xEB, CHR 0xCF, CHR 0xDF, CHR 0xA3, CHR 0xA1]"

definition u_nian_zb2 :: string where
  "u_nian_zb2 =
   [CHR 0xC4, CHR 0xEA]"

definition u_yue_zb2 :: string where
  "u_yue_zb2 =
   [CHR 0xD4, CHR 0xC2]"

definition u_ri_zb2 :: string where
  "u_ri_zb2 =
   [CHR 0xC8, CHR 0xD5]"

definition u_dian_zb2 :: string where
  "u_dian_zb2 =
   [CHR 0xB5, CHR 0xE3]"

definition u_fen_zb2 :: string where
  "u_fen_zb2 =
   [CHR 0xB7, CHR 0xD6]"

definition u_miao_zb2 :: string where
  "u_miao_zb2 =
   [CHR 0xC3, CHR 0xEB]"


lemmas word_texts_zb2 =
  w_kai_keting_zb2_def w_guan_keting_zb2_def w_kai_canting_zb2_def w_guan_canting_zb2_def
  w_kai_chufang_zb2_def w_guan_chufang_zb2_def w_kai_menting_zb2_def w_guan_menting_zb2_def
  w_kai_zhuwo_zb2_def w_guan_zhuwo_zb2_def w_kai_ciwo_zb2_def w_guan_ciwo_zb2_def
  w_kai_guodao_zb2_def w_guan_guodao_zb2_def w_kai_cesuo_zb2_def w_guan_cesuo_zb2_def
  w_kai_chazuo_zb2_def w_guan_chazuo_zb2_def w_guan_zhuwo_chuanglian_zb2_def
  w_kai_zhuwo_chuanglian_zb2_def w_guan_keting_shalian_zb2_def w_kai_keting_shalian_zb2_def
  w_guan_keting_bulian_zb2_def w_kai_keting_bulian_zb2_def

lemmas unit_texts_zb2 =
  u_nian_zb2_def u_yue_zb2_def u_ri_zb2_def u_dian_zb2_def u_fen_zb2_def u_miao_zb2_def

lemmas alarm_texts_zb2 =
  t_kaimen_zb2_def t_guanmen_zb2_def t_ciwo_loushui_zb2_def t_ciwo_jiechu_zb2_def
  t_chufang_loushui_zb2_def t_chufang_jiechu_zb2_def t_qidong_zb2_def t_shebei_zb2_def
  t_lixian_zb2_def

lemmas name_texts_zb2 =
  n_keting_zb2_def n_canting_zb2_def n_chufang_zb2_def n_menting_zb2_def n_guodao_zb2_def
  n_zhuwo_zb2_def n_ciwo_zb2_def n_xmkg_zhu_zb2_def n_xmkg_ci_zb2_def n_xmmenci_zb2_def
  n_xiaomirenti_zb2_def n_xmkg_wai_zb2_def n_loushui_ciwo_zb2_def n_loushui_chufang_zb2_def
  n_power_ciwo_zb2_def n_chuanglian_zhuwo_zb2_def n_chuanglian_keting1_zb2_def
  n_xmkg_cl_keting1_zb2_def n_xmkg_cl_keting2_zb2_def

section \<open>Notifications\<close>

definition stamp_text_zb2 :: "tm \<Rightarrow> string" where
  "stamp_text_zb2 t =
     dec (tm_year t + 1900) @ u_nian_zb2 @ dec (tm_mon t + 1) @ u_yue_zb2 @ dec (tm_mday t) @ u_ri_zb2 @ '' '' @
     dec (tm_hour t) @ u_dian_zb2 @ dec (tm_min t) @ u_fen_zb2 @ dec (tm_sec t) @ u_miao_zb2"

definition alarm_text_zb2 :: "string \<Rightarrow> tm \<Rightarrow> string" where
  "alarm_text_zb2 what t = ''text='' @ what @ ''_'' @ stamp_text_zb2 t"

lemma length_alarm_text_zb2: "tm_int32 t \<Longrightarrow> length (alarm_text_zb2 what t) \<le> length what + 85"
  using tm_int32_dec [of t] by (simp add: alarm_text_zb2_def stamp_text_zb2_def unit_texts_zb2)

section \<open>The commands are not UTF-8\<close>

text \<open>
  libxml2 hands out text in UTF-8, whose first byte is never a continuation byte. All commands of the
  program begin with one: in GBK the first character of every command has such a byte first.
\<close>

definition continuation_byte :: "char \<Rightarrow> bool" where
  "continuation_byte c \<longleftrightarrow> (let n = of_char c :: nat in 0x80 \<le> n \<and> n < 0xC0)"

definition utf8_start :: "string \<Rightarrow> bool" where
  "utf8_start t \<longleftrightarrow> t = [] \<or> \<not> continuation_byte (hd t)"

lemma words_not_utf8:
  "list_all (\<lambda>w. \<not> utf8_start w)
    [w_kai_keting_zb2, w_guan_keting_zb2, w_kai_canting_zb2, w_guan_canting_zb2,
     w_kai_chufang_zb2, w_guan_chufang_zb2, w_kai_menting_zb2, w_guan_menting_zb2,
     w_kai_zhuwo_zb2, w_guan_zhuwo_zb2, w_kai_ciwo_zb2, w_guan_ciwo_zb2,
     w_kai_guodao_zb2, w_guan_guodao_zb2, w_kai_cesuo_zb2, w_guan_cesuo_zb2,
     w_kai_chazuo_zb2, w_guan_chazuo_zb2, w_guan_zhuwo_chuanglian_zb2, w_kai_zhuwo_chuanglian_zb2,
     w_guan_keting_shalian_zb2, w_kai_keting_shalian_zb2, w_guan_keting_bulian_zb2, w_kai_keting_bulian_zb2]"
  by (simp add: word_texts_zb2 utf8_start_def continuation_byte_def)

end
