(* ===== verification/Zb2_Receive.thy ===== *)
theory Zb2_Receive
  imports Zb_Thread Zb2_Text
begin

text \<open>
  \<^verbatim>\<open>build_json\<close>, \<^verbatim>\<open>recieve_usart\<close> and \<^verbatim>\<open>thread\<close> of \<^verbatim>\<open>zbclient2.c\<close>, and how they differ from those of
  \<^verbatim>\<open>zbclient.c\<close>: a query of a state is not answered, both bedroom buttons switch everything off when
  clicked twice, the button of the main bedroom switches that room's light, the door contact switches the
  light of the hall, and two rooms have other addresses.
\<close>

section \<open>build\_json\<close>

definition name_field_zb2 :: "u16 \<Rightarrow> (string \<times> json) list" where
  "name_field_zb2 nid =
     (if nid = KETING_ID_zb2 then [(''name'', JString ''KETING_ID'')] else []) @
     (if nid = CANTING_ID then [(''name'', JString ''CANTING_ID'')] else []) @
     (if nid = CHUFANG_ID then [(''name'', JString ''CHUFANG_ID'')] else []) @
     (if nid = MENTING_ID then [(''name'', JString ''MENTING_ID'')] else []) @
     (if nid = GUODAO_ID_zb2 then [(''name'', JString ''GUODAO_ID'')] else []) @
     (if nid = ZHUWO_ID then [(''name'', JString ''ZHUWO_ID'')] else []) @
     (if nid = CIWO_ID then [(''name'', JString ''CIWO_ID'')] else [])"

definition dev_obj_zb2 :: "string \<Rightarrow> mxj_device_t \<Rightarrow> json" where
  "dev_obj_zb2 nm d = JObject
     ([(''id'', JInt (uint (d_id d))), (''nameChinese'', JString nm),
       (''type'', JInt (uint (d_type d))),
       (''status'', JArray [JInt (uint (d_state d ! 0)), JInt (uint (d_state d ! 1)),
                            JInt (uint (d_state d ! 2))])] @ name_field_zb2 (d_id d))"

definition dev_json_zb2 :: "mxj_device_t \<Rightarrow> c_error + json" where
  "dev_json_zb2 d = (case d_name d of None \<Rightarrow> Inl NullDeref | Some nm \<Rightarrow> Inr (dev_obj_zb2 nm d))"

fun build_loop_zb2 :: "(json \<Rightarrow> string) \<Rightarrow> nat \<Rightarrow> nat \<Rightarrow> mxj_device_t list \<Rightarrow> string \<Rightarrow> c_error + string" where
  "build_loop_zb2 dump i n [] str2 = Inr str2"
| "build_loop_zb2 dump i n (d # ds) str2 =
     (case dev_json_zb2 d of
        Inl e \<Rightarrow> Inl e
      | Inr j \<Rightarrow>
          (case strcat_str2 str2 (dump j) of
             Inl e \<Rightarrow> Inl e
           | Inr str2 \<Rightarrow>
               (case strcat_str2 str2 (if i + 1 < n then '','' else '']}'') of
                  Inl e \<Rightarrow> Inl e
                | Inr str2 \<Rightarrow> build_loop_zb2 dump (Suc i) n ds str2)))"

definition build_json_zb2 :: "(json \<Rightarrow> string) \<Rightarrow> gateway cmd" where
  "build_json_zb2 dump s =
     (case build_loop_zb2 dump 0 (unat (devsize s)) (take (unat (devsize s)) (mxj_device s)) json_head of
        Inl e \<Rightarrow> Inl (e, s)
      | Inr str2 \<Rightarrow>
          (case json_str s of
             None \<Rightarrow> Inl (NullDeref, s)
           | Some _ \<Rightarrow> Inr (s\<lparr>json_str := Some str2\<rparr>)))"

section \<open>recieve\_usart\<close>

definition rx_ctrl_up_zb2 :: "(json \<Rightarrow> string) \<Rightarrow> int \<Rightarrow> byte list \<Rightarrow> gateway cmd" where
  "rx_ctrl_up_zb2 dump nid rx = finding nid (\<lambda>i.
     if i = -1 then skip
     else block
       [reading (\<lambda>s.
          if d_type (mxj_device s ! nat i) = 4
          then block
            [if rx ! 5 = 1 then modify (set_state (nat i) 0 (rx ! 6)) else skip,
             if rx ! 5 = 2 then modify (set_state (nat i) 1 (rx ! 6)) else skip,
             if rx ! 5 = 3 then modify (set_state (nat i) 2 (rx ! 6)) else skip,
             if nid = uint CHUFANG_ID then modify (\<lambda>s. s\<lparr>humand := 0\<rparr>) else skip,
             build_json_zb2 dump]
          else skip),
        if nid = uint POWER_CIWO_ID
        then block
          [reading (\<lambda>s. MXJ_SendCtrlMessage POWER_CIWO_ID 1 (1 - d_state (mxj_device s ! nat i) ! 0) 0 0),
           modify (\<lambda>s. set_state (nat i) 0 (1 - d_state (mxj_device s ! nat i) ! 0) s)]
        else skip])"

definition rx_send_state_zb2 :: "(json \<Rightarrow> string) \<Rightarrow> int \<Rightarrow> byte list \<Rightarrow> byte \<Rightarrow> gateway cmd" where
  "rx_send_state_zb2 dump nid rx len = finding nid (\<lambda>i.
     if i \<ge> 0
     then block
       [if 5 + LINKQUALITY_ENABLE \<le> unat len then modify (set_state (nat i) 0 (rx ! 8)) else skip,
        if 6 \<le> unat len then modify (set_state (nat i) 1 (rx ! 9)) else skip,
        if 7 \<le> unat len then modify (set_state (nat i) 2 (rx ! 10)) else skip,
        build_json_zb2 dump]
     else skip)"

definition rx_xiaomi_register_zb2 ::
    "(json \<Rightarrow> string) \<Rightarrow> string \<Rightarrow> int \<Rightarrow> byte list \<Rightarrow> gateway cmd" where
  "rx_xiaomi_register_zb2 dump after nid rx =
     (case xiaomi_name after rx of
        Inl e \<Rightarrow> fault e
      | Inr temp_str \<Rightarrow>
          if temp_str = ''lumi.sensor_switch'' then block [add_xiaomi nid 0x0b, build_json_zb2 dump]
          else if temp_str = ''lumi.sensor_magnet'' then block [add_xiaomi nid 0x0a, build_json_zb2 dump]
          else if temp_str = ''lumi.sensor_motion'' then block [add_xiaomi nid 0x03, build_json_zb2 dump]
          else if temp_str = ''lumi.sensor_ht'' then block [add_xiaomi nid 0x09, build_json_zb2 dump]
          else skip)"

definition rx_double_kick_zb2 :: "int \<Rightarrow> gateway cmd" where
  "rx_double_kick_zb2 nid = block
     [if nid = uint XMKG_ZHU_ID \<or> nid = uint XMKG_CI_ID
      then block
        [MXJ_SendCtrlMessage ZHUWO_ID 3 0 0 0,
         MXJ_SendCtrlMessage CIWO_ID 3 0 0 0,
         MXJ_SendCtrlMessage CHUFANG_ID 3 0 0 0,
         MXJ_SendCtrlMessage CANTING_ID 3 0 0 0,
         MXJ_SendCtrlMessage KETING_ID_zb2 3 0 0 0,
         MXJ_SendCtrlMessage MENTING_ID 3 0 0 0,
         MXJ_SendCtrlMessage GUODAO_ID_zb2 3 0 0 0]
      else skip,
      if nid = uint XMKG_CL_ZHUWO_ID then zhuwo_curtain 0 0 1 else skip,
      if nid = uint XMKG_CL_KETING1_ID then keting_curtain 1 0 2 2 0 0 2 2 else skip,
      if nid = uint XMKG_CL_KETING2_ID then keting_curtain 2 2 1 0 2 2 0 0 else skip]"

definition rx_single_kick_zb2 :: "int \<Rightarrow> byte \<Rightarrow> gateway cmd" where
  "rx_single_kick_zb2 nid act = block
     [if nid = uint XMKG_ZHU_ID \<and> act = 1 then MXJ_SendCtrlMessage ZHUWO_ID 3 3 3 3 else skip,
      if nid = uint XMKG_CI_ID \<and> act = 1 then MXJ_SendCtrlMessage CIWO_ID 3 3 3 3 else skip,
      if nid = uint XMKG_CL_ZHUWO_ID \<and> act = 1 then zhuwo_curtain 1 0 0 else skip,
      if nid = uint XMKG_CL_KETING1_ID \<and> act = 1 then keting_curtain 0 1 2 2 0 0 2 2 else skip,
      if nid = uint XMKG_CL_KETING2_ID \<and> act = 1 then keting_curtain 2 2 0 1 2 2 0 0 else skip]"

definition rx_door_zb2 :: "byte \<Rightarrow> gateway cmd" where
  "rx_door_zb2 act = block
     [MXJ_SendCtrlMessage MENTING_ID 3 act act act,
      reading (\<lambda>s. post_alarm
        (if act = 1 then alarm_text_zb2 t_kaimen_zb2 (tblock s)
         else if act = 0 then alarm_text_zb2 t_guanmen_zb2 (tblock s) else []))]"

definition rx_leak_ciwo_zb2 :: "byte \<Rightarrow> gateway cmd" where
  "rx_leak_ciwo_zb2 act =
     (if act = 0
      then block
        [reading (\<lambda>s. post_alarm (alarm_text_zb2 t_ciwo_loushui_zb2 (tblock s))),
         MXJ_SendCtrlMessage ZHUWO_ID 3 1 0 0,
         MXJ_SendCtrlMessage CIWO_ID 3 1 0 0]
      else if act = 1 then reading (\<lambda>s. post_alarm (alarm_text_zb2 t_ciwo_jiechu_zb2 (tblock s)))
      else skip)"

definition rx_leak_chufang_zb2 :: "byte \<Rightarrow> gateway cmd" where
  "rx_leak_chufang_zb2 act =
     (if act = 0
      then block
        [reading (\<lambda>s. post_alarm (alarm_text_zb2 t_chufang_loushui_zb2 (tblock s))),
         MXJ_SendCtrlMessage ZHUWO_ID 3 1 0 0,
         MXJ_SendCtrlMessage CHUFANG_ID 3 1 0 0]
      else if act = 1 then reading (\<lambda>s. post_alarm (alarm_text_zb2 t_chufang_jiechu_zb2 (tblock s)))
      else skip)"

definition rx_onoff_zb2 :: "int \<Rightarrow> byte list \<Rightarrow> gateway cmd" where
  "rx_onoff_zb2 nid rx =
     (if rx ! 11 = 0x20 then rx_double_kick_zb2 nid
      else block
        [rx_single_kick_zb2 nid (rx ! 12),
         if nid = uint XMMENCI_ID then rx_door_zb2 (rx ! 12) else skip,
         if nid = uint XMLOUSHUI_CIWO_ID then rx_leak_ciwo_zb2 (rx ! 12) else skip,
         if nid = uint XMLOUSHUI_CHUFANG_ID then rx_leak_chufang_zb2 (rx ! 12) else skip])"

text \<open>The report of the motion sensor is handled as in \<^verbatim>\<open>zbclient.c\<close>.\<close>

definition rx_xiaomi18_zb2 ::
    "(json \<Rightarrow> string) \<Rightarrow> string \<Rightarrow> int \<Rightarrow> int \<Rightarrow> byte list \<Rightarrow> byte \<Rightarrow> gateway cmd" where
  "rx_xiaomi18_zb2 dump after nid cid rx len = finding nid (\<lambda>i. block
     [if 27 \<le> unat len \<and> cid = 0 \<and> uint (rx ! 12) \<le> uint len - 13 \<and> i = -1
      then rx_xiaomi_register_zb2 dump after nid rx else skip,
      if cid = 6 then (if len \<noteq> 14 then skip else rx_onoff_zb2 nid rx)
      else if cid = 0x406 then (if len \<noteq> 14 then skip else rx_motion nid)
      else skip])"

definition recieve_usart_zb2 :: "(json \<Rightarrow> string) \<Rightarrow> string \<Rightarrow> byte list \<Rightarrow> byte \<Rightarrow> gateway cmd" where
  "recieve_usart_zb2 dump after rx len =
     (let nid = rx_id rx len; cid = rx_cid rx len; c = rx ! 0
      in block
        [modify read_clock,
         if c = MXJ_CTRL_UP then rx_ctrl_up_zb2 dump nid rx
         else if c = MXJ_REGISTER_REQUEST
           then MXJ_SendRegisterMessage (word_of_int nid) MXJ_REGISTER_OK
         else if c = MXJ_SEND_STATE then rx_send_state_zb2 dump nid rx len
         else if c = MXJ_SENSOR_DATA then skip
         else if c = MXJ_GET_STATE then skip
         else if c = MXJ_SEND_RESPONSE then skip
         else if c = MXJ_XIAOMI18 then rx_xiaomi18_zb2 dump after nid cid rx len
         else if c = MXJ_XIAOMI1C then finding nid (\<lambda>i. skip)
         else skip])"

section \<open>thread\<close>

definition thread_byte_zb2 :: "(json \<Rightarrow> string) \<Rightarrow> string \<Rightarrow> byte \<Rightarrow> gateway cmd" where
  "thread_byte_zb2 dump after = thread_round (recieve_usart_zb2 dump after)"

definition deliver_zb2 :: "(json \<Rightarrow> string) \<Rightarrow> string \<Rightarrow> byte list \<Rightarrow> gateway cmd" where
  "deliver_zb2 dump after = handing (recieve_usart_zb2 dump after)"

section \<open>The same table with other rooms\<close>

text \<open>
  \<open>reroom\<close> gives an object of \<^verbatim>\<open>zbclient.c\<close> the room of \<^verbatim>\<open>zbclient2.c\<close>. With a renderer that does so first,
  \<^verbatim>\<open>build_json\<close> of \<^verbatim>\<open>zbclient.c\<close> is that of \<^verbatim>\<open>zbclient2.c\<close>, and so are all handlers that only differ in it.
\<close>

fun reroom :: "json \<Rightarrow> json" where
  "reroom (JObject ((k, JInt n) # nm # ty # st # rest)) =
     JObject ([(k, JInt n), nm, ty, st] @ name_field_zb2 (word_of_int n))"
| "reroom j = j"

lemma reroom_dev_obj: "reroom (dev_obj nm d) = dev_obj_zb2 nm d"
  by (simp add: dev_obj_def dev_obj_zb2_def)

lemma build_loop_zb2_eq: "build_loop_zb2 dump i n ds t = build_loop (dump \<circ> reroom) i n ds t"
proof (induction dump i n ds t rule: build_loop_zb2.induct)
  case (2 dump i n d ds t)
  then show ?case
    by (cases "d_name d") (auto simp: dev_json_zb2_def dev_json_def reroom_dev_obj split: sum.split)
qed simp

lemma build_json_zb2_eq: "build_json_zb2 dump = build_json (dump \<circ> reroom)"
  by (rule ext) (simp add: build_json_zb2_def build_json_def build_loop_zb2_eq)

lemma handlers_zb2_eq:
  "rx_ctrl_up_zb2 dump = rx_ctrl_up (dump \<circ> reroom)"
  "rx_send_state_zb2 dump = rx_send_state (dump \<circ> reroom)"
  "rx_xiaomi_register_zb2 dump = rx_xiaomi_register (dump \<circ> reroom)"
  unfolding rx_ctrl_up_zb2_def rx_ctrl_up_def rx_send_state_zb2_def rx_send_state_def
    rx_xiaomi_register_zb2_def rx_xiaomi_register_def build_json_zb2_eq fun_eq_iff by (rule refl allI)+

text \<open>What the two programs do differently: queries of a state, and the reports of cluster 6.\<close>

definition differs :: "byte list \<Rightarrow> byte \<Rightarrow> bool" where
  "differs rx len \<longleftrightarrow> rx ! 0 = MXJ_GET_STATE \<or> rx ! 0 = MXJ_XIAOMI18 \<and> rx_cid rx len = 6 \<and> len = 14"

lemma xiaomi18_zb2_eq:
  "\<not> (cid = 6 \<and> len = 14) \<Longrightarrow>
   rx_xiaomi18_zb2 dump after nid cid rx len = rx_xiaomi18 (dump \<circ> reroom) after nid cid rx len"
  unfolding rx_xiaomi18_zb2_def rx_xiaomi18_def handlers_zb2_eq by auto

lemma recieve_zb2_eq:
  "\<not> differs rx len \<Longrightarrow> recieve_usart_zb2 dump after rx len = recieve_usart (dump \<circ> reroom) after rx len"
  by (cases "rx ! 0 = MXJ_XIAOMI18")
    (simp_all add: recieve_usart_zb2_def recieve_usart_def Let_def differs_def handlers_zb2_eq xiaomi18_zb2_eq)

section \<open>What every message keeps\<close>

text \<open>
  The cases that differ, on the interface of the handlers of \<^verbatim>\<open>zbclient.c\<close>: what is closed under its writes
  is closed under the writes of this program.
\<close>

context handler_inv
begin

lemma post_alarm_zb2_inv:
  "length what \<le> 100 \<Longrightarrow> triple I (reading (\<lambda>s. post_alarm (alarm_text_zb2 what (tblock s)))) I E"
proof (rule triple_reading)
  fix r
  assume len: "length what \<le> 100"
  have "length (alarm_text_zb2 what (tblock r)) < ALARM_SIZE" if "I r"
    using len length_alarm_text_zb2 [of "tblock r" what] I_data [OF that]
    by (simp add: data_inv_def clock_ok_def)
  then show "triple (\<lambda>s. I s \<and> s = r) (post_alarm (alarm_text_zb2 what (tblock r))) I E"
    by (auto simp: triple_def post_alarm_def I_emit)
qed

lemma double_kick_zb2_inv: "triple I (rx_double_kick_zb2 nid) I E"
  unfolding rx_double_kick_zb2_def by (intro inv_rules curtain_inv prim_rules; simp)

lemma single_kick_zb2_inv: "triple I (rx_single_kick_zb2 nid act) I E"
  unfolding rx_single_kick_zb2_def by (intro inv_rules curtain_inv prim_rules; simp)

lemma leak_zb2_inv: "triple I (rx_leak_ciwo_zb2 act) I E" "triple I (rx_leak_chufang_zb2 act) I E"
  unfolding rx_leak_ciwo_zb2_def rx_leak_chufang_zb2_def
  by (intro inv_rules prim_rules post_alarm_zb2_inv; simp add: alarm_texts_zb2)+

lemma door_zb2_inv: "triple I (rx_door_zb2 act) I E"
proof -
  have "triple I (reading (\<lambda>s. post_alarm (alarm_text_zb2 t_kaimen_zb2 (tblock s)))) I E"
    "triple I (reading (\<lambda>s. post_alarm (alarm_text_zb2 t_guanmen_zb2 (tblock s)))) I E"
    by (intro post_alarm_zb2_inv; simp add: alarm_texts_zb2)+
  moreover have "triple I (reading (\<lambda>s. post_alarm [])) I E"
    by (simp add: triple_def post_alarm_def I_emit)
  ultimately have "triple I (reading (\<lambda>s. post_alarm
      (if act = 1 then alarm_text_zb2 t_kaimen_zb2 (tblock s)
       else if act = 0 then alarm_text_zb2 t_guanmen_zb2 (tblock s) else []))) I E"
    by (cases "act = 1"; cases "act = 0") simp_all
  then show ?thesis
    unfolding rx_door_zb2_def by (intro triple_block_inv list_all_ConsI list_all_NilI SendCtrl_inv) simp_all
qed

lemma onoff_zb2_inv: "triple I (rx_onoff_zb2 nid rx) I E"
  unfolding rx_onoff_zb2_def
  by (intro inv_rules double_kick_zb2_inv single_kick_zb2_inv leak_zb2_inv door_zb2_inv)

lemma differs_zb2_inv: "differs rx len \<Longrightarrow> triple I (recieve_usart_zb2 d after rx len) I E"
proof (cases "rx ! 0 = MXJ_GET_STATE")
  case True
  have "triple I (block [modify read_clock, skip]) I E" by (intro inv_rules read_clock_inv)
  with True show ?thesis by (simp add: recieve_usart_zb2_def Let_def)
next
  case False
  assume "differs rx len"
  with False have c: "rx ! 0 = MXJ_XIAOMI18" "rx_cid rx len = 6" "len = 14" by (auto simp: differs_def)
  have "triple I (block [modify read_clock, finding nid (\<lambda>i. block [skip, rx_onoff_zb2 nid rx])]) I E" for nid
    by (intro inv_rules read_clock_inv finding_inv onoff_zb2_inv)
  with c show ?thesis by (simp add: recieve_usart_zb2_def Let_def rx_xiaomi18_zb2_def)
qed

lemma recieve_zb2_inv:
  assumes "dump = d \<circ> reroom"
  shows "triple I (recieve_usart_zb2 d after rx len) I any_fault"
proof (cases "differs rx len")
  case True
  then show ?thesis by (intro triple_any_fault [OF differs_zb2_inv])
next
  case False
  then show ?thesis using recieve_inv [of after rx len] by (simp add: recieve_zb2_eq assms)
qed

end

lemmas data_zb2 = data.recieve_zb2_inv [OF refl]

interpretation zb2_link: frame_receiver "thread_byte_zb2 dump after" idle "deliver_zb2 dump after" "0x55" frame "msg_ok 200"
  for dump after
  unfolding thread_byte_zb2_def deliver_zb2_def by (rule round_receiver) (rule data_zb2)

end
