(* ===== verification/Frame_Machine.thy ===== *)
theory Frame_Machine
  imports Serial_Link
begin

text \<open>
  The state machine of a serial thread as a component of its own, with the variables it uses in one
  record and the size of the receive buffer as the length of the list. A program puts its handler behind
  it. The results: it accepts every well-formed frame, and it leaves its buffer on a bad length byte.
\<close>

record receiver =
  r_state :: byte
  r_len :: byte
  r_fcs :: byte
  r_count :: byte
  r_buf :: "byte list"

definition r_write :: "nat \<Rightarrow> byte \<Rightarrow> receiver cmd" where
  "r_write i b r = (if i < length (r_buf r) then Inr (r\<lparr>r_buf := (r_buf r)[i := b]\<rparr>) else Inl (OutOfBounds, r))"

text \<open>
  The checksum state: the sum of the message is stored behind it and compared with the received byte. The
  result says whether they agree.
\<close>

definition r_check :: "byte \<Rightarrow> receiver \<Rightarrow> (c_error \<times> receiver) + bool \<times> receiver" where
  "r_check ch r =
     (let r = r\<lparr>r_fcs := ch\<rparr>
      in case crc_loop 0 (1 + unat (r_len r)) (r_buf r) 0 of
           Inl e \<Rightarrow> Inl (e, r)
         | Inr crcout \<Rightarrow>
             (case r_write (unat (r_len r) + 1) crcout r of
                Inl f \<Rightarrow> Inl f
              | Inr r \<Rightarrow> Inr (crcout = r_fcs r, r)))"

text \<open>
  The other states. In the checksum state (5) the program calls \<open>r_check\<close> and its handler itself.
\<close>

definition r_step :: "byte \<Rightarrow> receiver cmd" where
  "r_step ch = reading (\<lambda>r.
     if r_state r = 0x55 then (if ch = 0x55 then modify (\<lambda>r. r\<lparr>r_state := 0xaa\<rparr>) else skip)
     else if r_state r = 0xaa
       then (if ch = 0xaa then modify (\<lambda>r. r\<lparr>r_state := 2\<rparr>) else modify (\<lambda>r. r\<lparr>r_state := 0x55\<rparr>))
     else if r_state r = 2 then block [r_write 0 ch, modify (\<lambda>r. r\<lparr>r_state := 3\<rparr>)]
     else if r_state r = 3
       then block [modify (\<lambda>r. r\<lparr>r_len := ch, r_count := 0\<rparr>), r_write 1 ch, modify (\<lambda>r. r\<lparr>r_state := 4\<rparr>)]
     else if r_state r = 4
       then block
         [reading (\<lambda>r. r_write (2 + unat (r_count r)) ch),
          modify (\<lambda>r. r\<lparr>r_count := r_count r + 1\<rparr>),
          reading (\<lambda>r. if uint (r_count r) = uint (r_len r) - 1 then modify (\<lambda>r. r\<lparr>r_state := 5\<rparr>) else skip)]
     else modify (\<lambda>r. r\<lparr>r_state := 0x55\<rparr>))"

text \<open>The receiver with a prefix of a message in its buffer.\<close>

definition r_loaded :: "byte list \<Rightarrow> byte list \<Rightarrow> receiver \<Rightarrow> receiver" where
  "r_loaded m rest r = r\<lparr>r_state := (if rest = [] then 5 else 4), r_len := m ! 1,
     r_count := of_nat (length m - 2), r_buf := fill m (r_buf r)\<rparr>"

lemma r_step_data:
  assumes "msg_ok (length (r_buf r)) (m @ b # rest)" and "2 \<le> length m" and "length (r_buf r) \<le> 200"
  shows "r_step b (r_loaded m (b # rest) r) = Inr (r_loaded (m @ [b]) rest r)"
proof -
  have len: "length m + length rest + 1 < length (r_buf r)" "unat (m ! 1) = length m + length rest"
    using assms(1,2) by (auto simp: msg_ok_def nth_append)
  let ?n = "length m - 2"
  have n: "2 + ?n = length m" "?n < 256" using assms(2,3) len(1) by auto
  have tdl: "unat (of_nat ?n :: byte) = ?n" using n(2) by (rule unat_of_nat_byte)
  have inc: "(of_nat ?n :: byte) + 1 = of_nat (length (m @ [b]) - 2)"
    using assms(2) by (simp add: Suc_diff_le)
  have cond: "uint (of_nat (length (m @ [b]) - 2) :: byte) = uint (m ! 1) - 1 \<longleftrightarrow> rest = []"
  proof -
    have "uint (of_nat (length (m @ [b]) - 2) :: byte) = int (length m - 1)"
      using assms(2,3) len(1) uint_of_nat_byte [of "length m - 1"] by (simp add: Suc_diff_le)
    moreover have "uint (m ! 1) = int (length m + length rest)"
      using len(2) by (metis uint_nat)
    ultimately show ?thesis using assms(2) by auto
  qed
  have m1: "(m @ [b]) ! 1 = m ! 1" using assms(2) by (simp add: nth_append)
  have buf: "length (fill m (r_buf r)) = length (r_buf r)" "length m < length (r_buf r)"
    using len(1) by (simp_all add: length_fill)
  show ?thesis
    using cond inc m1 buf tdl n(1) len(1)
    by (simp add: r_step_def r_loaded_def r_write_def fill_snoc)
qed

section \<open>A program that runs the machine\<close>

text \<open>
  A program keeps a receiver among its variables and runs the machine on it outside of the checksum
  state. The bytes before the checksum then load the message, whatever the program does with it.
\<close>

locale machine_client =
  fixes rx :: "byte \<Rightarrow> 's cmd"
    and get :: "'s \<Rightarrow> receiver"
    and put :: "receiver \<Rightarrow> 's \<Rightarrow> 's"
  assumes get_put: "get (put r s) = r"
    and put_put: "put r (put q s) = put r s"
    and put_get: "put (get s) s = s"
    and runs: "r_state (get s) \<noteq> 5 \<Longrightarrow> r_step b (get s) = Inr r \<Longrightarrow> rx b s = Inr (put r s)"
begin

lemma client_data:
  assumes "msg_ok (length (r_buf r)) (m @ rest)" and "2 \<le> length m" and "length (r_buf r) \<le> 200" and "rest \<noteq> []"
  shows "feed rx rest (put (r_loaded m rest r) s) = Inr (put (r_loaded (m @ rest) [] r) s)"
  using assms
proof (induction rest arbitrary: m)
  case Nil
  then show ?case by simp
next
  case (Cons b rest)
  have "r_step b (r_loaded m (b # rest) r) = Inr (r_loaded (m @ [b]) rest r)"
    using Cons.prems by (intro r_step_data) simp_all
  then have step: "rx b (put (r_loaded m (b # rest) r) s) = Inr (put (r_loaded (m @ [b]) rest r) s)"
    by (subst runs [of _ b "r_loaded (m @ [b]) rest r"]) (simp_all add: get_put put_put r_loaded_def)
  show ?case
  proof (cases "rest = []")
    case True
    with step show ?thesis by simp
  next
    case False
    have "feed rx rest (put (r_loaded (m @ [b]) rest r) s) = Inr (put (r_loaded ((m @ [b]) @ rest) [] r) s)"
      using Cons.prems False by (intro Cons.IH) auto
    with step show ?thesis by simp
  qed
qed

lemma client_header:
  assumes "r_state (get s) = 0x55" and "2 \<le> length (r_buf (get s))" and "rest \<noteq> []"
  shows "feed rx [0x55, 0xaa, c, l] s = Inr (put (r_loaded [c, l] rest (get s)) s)"
proof -
  obtain x y z where buf: "r_buf (get s) = x # y # z"
    using assms(2) by (metis Suc_le_length_iff numeral_2_eq_2)
  let ?r = "get s"
  have 1: "rx 0x55 s = Inr (put (?r\<lparr>r_state := 0xaa\<rparr>) s)"
    using assms(1) by (intro runs) (simp_all add: r_step_def)
  have 2: "rx 0xaa (put (?r\<lparr>r_state := 0xaa\<rparr>) s) = Inr (put (?r\<lparr>r_state := 2\<rparr>) s)"
    by (subst runs [of _ _ "?r\<lparr>r_state := 2\<rparr>"]) (simp_all add: r_step_def get_put put_put)
  have 3: "rx c (put (?r\<lparr>r_state := 2\<rparr>) s) = Inr (put (?r\<lparr>r_state := 3, r_buf := c # y # z\<rparr>) s)"
    using buf by (subst runs [of _ _ "?r\<lparr>r_state := 3, r_buf := c # y # z\<rparr>"])
      (simp_all add: r_step_def r_write_def get_put put_put)
  have 4: "rx l (put (?r\<lparr>r_state := 3, r_buf := c # y # z\<rparr>) s) = Inr (put (r_loaded [c, l] rest ?r) s)"
    using buf assms(3) by (subst runs [of _ _ "r_loaded [c, l] rest ?r"])
      (simp_all add: r_step_def r_write_def get_put put_put r_loaded_def fill_def)
  from 1 2 3 4 show ?thesis by simp
qed

lemma client_message:
  assumes "r_state (get s) = 0x55" and "length (r_buf (get s)) \<le> 200" and "msg_ok (length (r_buf (get s))) m"
  shows "feed rx ([0x55, 0xaa] @ m) s = Inr (put (r_loaded m [] (get s)) s)"
proof -
  obtain c l rest where m: "m = [c, l] @ rest" and rest: "rest \<noteq> []"
    using assms(3) by (auto simp: msg_ok_def Suc_le_length_iff eval_nat_numeral)
  have "2 \<le> length (r_buf (get s))" using assms(3) by (simp add: msg_ok_def)
  then have "feed rx [0x55, 0xaa, c, l] s = Inr (put (r_loaded [c, l] rest (get s)) s)"
    using assms(1) rest by (intro client_header)
  moreover have "feed rx rest (put (r_loaded [c, l] rest (get s)) s) = Inr (put (r_loaded ([c, l] @ rest) [] (get s)) s)"
    using assms(2,3) rest m by (intro client_data) simp_all
  moreover have "[0x55, 0xaa] @ m = [0x55, 0xaa, c, l] @ rest" by (simp add: m)
  ultimately show ?thesis by (simp only: feed_append sum.case m)
qed

end

text \<open>The receiver behind a complete frame.\<close>

definition r_arrived :: "byte list \<Rightarrow> byte \<Rightarrow> receiver \<Rightarrow> receiver" where
  "r_arrived m c r = r\<lparr>r_state := 5, r_len := m ! 1, r_fcs := c, r_count := of_nat (length m - 2),
     r_buf := fill (m @ [sum_list m]) (r_buf r)\<rparr>"

lemma r_check_loaded:
  assumes "msg_ok (length (r_buf r)) m"
  shows "r_check c (r_loaded m [] r) = Inr (c = sum_list m, r_arrived m c r)"
proof -
  have n: "1 + unat (m ! 1) = length m" "Suc (unat (m ! 1)) = length m" "length m < length (r_buf r)"
    using assms by (auto simp: msg_ok_def)
  have "crc_loop 0 (length m) (fill m (r_buf r)) 0 = Inr (sum_list m)"
    using n(3) by (simp add: crc_loop_ok length_fill take_fill)
  with n show ?thesis
    by (auto simp: r_check_def r_loaded_def r_write_def length_fill fill_snoc r_arrived_def)
qed

end
