(* ===== verification/Brower.thy ===== *)
theory Brower
  imports Frame_Machine Device_Table Web_Common
begin

text \<open>
  \<^verbatim>\<open>zbserver-brower.c\<close>: the gateway with a browser page. Devices register themselves, the page shows the
  table as JSON, a post of the page configures which lights a switch controls and sets the states of
  lights. The serial protocol is that of \<^verbatim>\<open>zbclient.c\<close> with a receive buffer of 100 bytes.
\<close>

section \<open>State\<close>

record br_device_t =
  e_id :: u16
  e_type :: byte
  e_ctrl :: byte
  e_devid :: u16
  e_idx :: byte
  e_light :: "byte list"
  e_state :: "byte list"
  e_registered :: byte

definition br_no_device :: br_device_t where
  "br_no_device = \<lparr>e_id = 0, e_type = 0, e_ctrl = 0, e_devid = 0, e_idx = 0, e_light = [0, 0, 0],
     e_state = [0, 0, 0], e_registered = 0\<rparr>"

record brower =
  br_device :: "br_device_t list"
  br_devsize :: byte
  br_rx :: receiver
  br_json :: "string option"
  br_str :: string
  br_out :: "event list"

definition BR_DEV_SIZE :: nat where [simp]: "BR_DEV_SIZE = 200"
definition BR_RXBUF_SIZE :: nat where [simp]: "BR_RXBUF_SIZE = 100"
definition BR_MAXNAMESIZE :: nat where [simp]: "BR_MAXNAMESIZE = 3000"

definition br_emit :: "event list \<Rightarrow> brower \<Rightarrow> brower" where
  "br_emit es s = s\<lparr>br_out := br_out s @ es\<rparr>"

section \<open>Sending\<close>

definition send_usart_brower :: "byte list \<Rightarrow> byte \<Rightarrow> brower cmd" where
  "send_usart_brower data len s =
     (case txbuf_bytes data len of
        Inl e \<Rightarrow> Inl (e, s)
      | Inr bs \<Rightarrow> Inr (br_emit (map TxByte bs) s))"

definition SendCtrlMessage_brower :: "u16 \<Rightarrow> byte \<Rightarrow> byte \<Rightarrow> byte \<Rightarrow> brower cmd" where
  "SendCtrlMessage_brower nid m1 m2 m3 = send_usart_brower [0, 6, hi nid, lo nid, m1, m2, m3] 7"

definition SendRegisterMessage_brower :: "u16 \<Rightarrow> byte \<Rightarrow> brower cmd" where
  "SendRegisterMessage_brower nid st =
     (if st = 3 then send_usart_brower [3, 4, hi nid, lo nid, 1] 5
      else if st = 4 then send_usart_brower [4, 4, hi nid, lo nid, 0] 5
      else skip)"

record br_config =
  c_id :: u16
  c_state1 :: byte
  c_state2 :: byte
  c_state3 :: byte
  c_enable :: byte

definition SendConfigMessage_brower :: "u16 \<Rightarrow> byte \<Rightarrow> byte \<Rightarrow> br_config \<Rightarrow> brower cmd" where
  "SendConfigMessage_brower nid ix st c = send_usart_brower
     [8, 11, hi nid, lo nid, ix, st, hi (c_id c), lo (c_id c), c_state1 c, c_state2 c, c_state3 c, c_enable c] 12"

definition GetConfigMessage_brower :: "u16 \<Rightarrow> brower cmd" where
  "GetConfigMessage_brower nid = send_usart_brower [10, 3, hi nid, lo nid] 4"

definition GetStateMessage_brower :: "u16 \<Rightarrow> brower cmd" where
  "GetStateMessage_brower nid = send_usart_brower [5, 3, hi nid, lo nid] 4"

section \<open>The table and the page text\<close>

function br_find_from :: "nat \<Rightarrow> int \<Rightarrow> brower \<Rightarrow> int" where
  "br_find_from i nid s =
     (if i < unat (br_devsize s)
      then (if uint (e_id (br_device s ! i)) = nid then int i else br_find_from (Suc i) nid s)
      else -1)"
  by pat_completeness auto
termination
  by (relation "measure (\<lambda>(i, _, s). unat (br_devsize s) - i)") auto

declare br_find_from.simps [simp del]

definition find_dev_brower :: "int \<Rightarrow> brower \<Rightarrow> int" where
  "find_dev_brower nid s = br_find_from 0 nid s"

definition append_brower :: "(br_device_t \<Rightarrow> br_device_t) \<Rightarrow> brower cmd" where
  "append_brower f s =
     (let n = unat (br_devsize s)
      in if n < length (br_device s)
         then Inr (s\<lparr>br_device := (br_device s)[n := f (br_device s ! n)],
                     br_devsize := (if n < BR_DEV_SIZE then br_devsize s + 1 else br_devsize s)\<rparr>)
         else Inl (OutOfBounds, s))"

definition del_dev_brower :: "brower cmd" where
  "del_dev_brower s =
     (let i = uint (br_devsize s) - 1
      in if 0 \<le> i \<and> nat i < length (br_device s)
         then Inr (s\<lparr>br_device := (br_device s)[nat i := (br_device s ! nat i)
                       \<lparr>e_id := 0, e_type := 0, e_idx := 0, e_registered := 0, e_ctrl := 0\<rparr>],
                     br_devsize := br_devsize s - 1\<rparr>)
         else Inl (OutOfBounds, s))"

text \<open>
  The text that \<^verbatim>\<open>build_json\<close> makes. Its calls of json-c, with the \<^verbatim>\<open>json_object_put\<close> calls that end a
  round, are in \<open>Json_Properties\<close>.
\<close>

definition br_obj :: "br_device_t \<Rightarrow> json" where
  "br_obj d =
     (let lights = JArray (map (\<lambda>k. JInt (int k)) (filter (\<lambda>k. e_light d ! k \<noteq> 0) [0, 1, 2]));
          states = JArray [JInt (uint (e_state d ! 0)), JInt (uint (e_state d ! 1)), JInt (uint (e_state d ! 2))];
          control = JObject [(''devid'', JInt (uint (e_devid d))), (''lights'', lights)]
      in JObject [(''id'', JInt (uint (e_id d))), (''type'', JInt (uint (e_type d))),
                  (''control'', control), (''status'', states)])"

definition br_strcat :: "string \<Rightarrow> string \<Rightarrow> c_error + string" where
  "br_strcat str2 t = (if length (str2 @ t) < 2000 then Inr (str2 @ t) else Inl BufferOverflow)"

fun br_build_loop :: "(json \<Rightarrow> string) \<Rightarrow> nat \<Rightarrow> nat \<Rightarrow> br_device_t list \<Rightarrow> string \<Rightarrow> c_error + string" where
  "br_build_loop dump i n [] str2 = Inr str2"
| "br_build_loop dump i n (d # ds) str2 =
     (case br_strcat str2 (dump (br_obj d)) of
        Inl e \<Rightarrow> Inl e
      | Inr str2 \<Rightarrow>
          (case br_strcat str2 (if i + 1 < n then '','' else '']}'') of
             Inl e \<Rightarrow> Inl e
           | Inr str2 \<Rightarrow> br_build_loop dump (Suc i) n ds str2))"

definition br_head :: string where
  "br_head = CHR 0x7B # CHR 0x22 # ''devices'' @ [CHR 0x22, CHR 0x3A, CHR 0x5B]"

definition build_json_brower :: "(json \<Rightarrow> string) \<Rightarrow> brower cmd" where
  "build_json_brower dump s =
     (case br_build_loop dump 0 (unat (br_devsize s)) (take (unat (br_devsize s)) (br_device s)) br_head of
        Inl e \<Rightarrow> Inl (e, s)
      | Inr str2 \<Rightarrow>
          (case br_json s of None \<Rightarrow> Inl (NullDeref, s) | Some _ \<Rightarrow> Inr (s\<lparr>br_json := Some str2\<rparr>)))"

section \<open>recieve\_usart\<close>

definition br_update :: "nat \<Rightarrow> (br_device_t \<Rightarrow> br_device_t) \<Rightarrow> brower \<Rightarrow> brower" where
  "br_update i f s = s\<lparr>br_device := (br_device s)[i := f (br_device s ! i)]\<rparr>"

text \<open>
  A remote control (type 7): the selected lights of the controlled device are toggled. The position of
  that device is \<^verbatim>\<open>-1\<close> when it is not in the table.
\<close>

definition br_toggle :: "br_device_t \<Rightarrow> int \<Rightarrow> brower \<Rightarrow> nat \<Rightarrow> c_error + byte" where
  "br_toggle d j s k =
     (if e_light d ! k = 1
      then (if j < 0 then Inl OutOfBounds
            else Inr (if e_state (br_device s ! nat j) ! k = 1 then 0 else 1))
      else Inr 2)"

definition br_remote :: "br_device_t \<Rightarrow> brower cmd" where
  "br_remote d = reading (\<lambda>s.
     let j = find_dev_brower (uint (e_devid d)) s
     in case br_toggle d j s 0 of
          Inl e \<Rightarrow> fault e
        | Inr t0 \<Rightarrow>
            (case br_toggle d j s 1 of
               Inl e \<Rightarrow> fault e
             | Inr t1 \<Rightarrow>
                 (case br_toggle d j s 2 of
                    Inl e \<Rightarrow> fault e
                  | Inr t2 \<Rightarrow> SendCtrlMessage_brower (e_devid d) t0 t1 t2)))"

text \<open>A motion sensor (type 3): the selected lights get the reported value.\<close>

definition br_motion :: "br_device_t \<Rightarrow> byte \<Rightarrow> brower cmd" where
  "br_motion d v =
     (let t = (\<lambda>k. if e_light d ! k = 1 then v else 2)
      in SendCtrlMessage_brower (e_devid d) (t 0) (t 1) (t 2))"

definition br_ctrl_up :: "int \<Rightarrow> byte list \<Rightarrow> brower cmd" where
  "br_ctrl_up nid rx = reading (\<lambda>s.
     let i = find_dev_brower nid s
     in if i = -1 then skip
        else (let d = br_device s ! nat i
              in if e_type d = 7 then br_remote d
                 else if e_type d = 3 then br_motion d (rx ! 6)
                 else skip))"

definition br_register :: "(json \<Rightarrow> string) \<Rightarrow> int \<Rightarrow> byte list \<Rightarrow> brower cmd" where
  "br_register dump nid rx = reading (\<lambda>s. block
     [if find_dev_brower nid s = -1
      then block
        [append_brower (\<lambda>d. d\<lparr>e_id := word_of_int nid, e_type := rx ! 4, e_idx := rx ! 5, e_registered := 1\<rparr>),
         build_json_brower dump]
      else skip,
      SendRegisterMessage_brower (word_of_int nid) 3])"

definition br_send_state :: "(json \<Rightarrow> string) \<Rightarrow> int \<Rightarrow> byte list \<Rightarrow> brower cmd" where
  "br_send_state dump nid rx = reading (\<lambda>s.
     let i = find_dev_brower nid s
     in if i \<ge> 0
        then block
          [modify (br_update (nat i) (\<lambda>d. d\<lparr>e_state := (e_state d)[0 := rx ! 4, 1 := rx ! 5, 2 := rx ! 6]\<rparr>)),
           build_json_brower dump]
        else skip)"

definition br_xiaomi :: "(json \<Rightarrow> string) \<Rightarrow> string \<Rightarrow> int \<Rightarrow> int \<Rightarrow> byte list \<Rightarrow> byte \<Rightarrow> brower cmd" where
  "br_xiaomi dump after nid cid rx len = reading (\<lambda>s.
     let add = (\<lambda>ty. block
           [append_brower (\<lambda>d. d\<lparr>e_id := word_of_int nid, e_type := ty, e_idx := 1, e_registered := 1\<rparr>),
            build_json_brower dump])
     in if 27 \<le> unat len \<and> cid = 0 \<and> uint (rx ! 12) \<le> uint len - 13 \<and> find_dev_brower nid s = -1
        then (case xiaomi_name after rx of
                Inl e \<Rightarrow> fault e
              | Inr temp_str \<Rightarrow>
                  if temp_str = ''lumi.sensor_switch'' then add 0x0b
                  else if temp_str = ''lumi.sensor_magnet'' then add 0x0a
                  else if temp_str = ''lumi.sensor_motion'' then add 0x03
                  else if temp_str = ''lumi.sensor_ht'' then add 0x09
                  else skip)
        else skip)"

text \<open>The reports of a known sensor are only printed.\<close>

definition recieve_usart_brower :: "(json \<Rightarrow> string) \<Rightarrow> string \<Rightarrow> byte list \<Rightarrow> byte \<Rightarrow> brower cmd" where
  "recieve_usart_brower dump after rx len =
     (let nid = rx_id rx len; cid = rx_cid rx len; c = rx ! 0
      in if c = 1 then br_ctrl_up nid rx
         else if c = 2 then br_register dump nid rx
         else if c = 6 then br_send_state dump nid rx
         else if c = 0x18 then br_xiaomi dump after nid cid rx len
         else skip)"

section \<open>The serial thread\<close>

definition lift_rx :: "receiver cmd \<Rightarrow> brower cmd" where
  "lift_rx c s = (case c (br_rx s) of Inl (e, r) \<Rightarrow> Inl (e, s\<lparr>br_rx := r\<rparr>) | Inr r \<Rightarrow> Inr (s\<lparr>br_rx := r\<rparr>))"

text \<open>
  A message from the address \<^verbatim>\<open>6eab\<close> is also forwarded to a fixed device, with its byte 6 as the state.
\<close>

definition br_forward :: "byte list \<Rightarrow> brower cmd" where
  "br_forward buf =
     (if join16 (buf ! 2) (buf ! 3) = 0x6eab
      then send_usart_brower ([0, 6, 0x5e, 0xe0, 1, 1, 1][4 := buf ! 6]) 7 else skip)"

definition br_fcs :: "(json \<Rightarrow> string) \<Rightarrow> string \<Rightarrow> byte \<Rightarrow> brower cmd" where
  "br_fcs dump after ch s =
     (case r_check ch (br_rx s) of
        Inl (e, r) \<Rightarrow> Inl (e, s\<lparr>br_rx := r\<rparr>)
      | Inr (ok, r) \<Rightarrow>
          block
            [if ok
             then block
               [br_forward (r_buf r), recieve_usart_brower dump after (r_buf r) (r_len r + 1)]
             else skip,
             modify (\<lambda>s. s\<lparr>br_rx := (br_rx s)\<lparr>r_state := 0x55\<rparr>\<rparr>)] (s\<lparr>br_rx := r\<rparr>))"

definition thread_byte_brower :: "(json \<Rightarrow> string) \<Rightarrow> string \<Rightarrow> byte \<Rightarrow> brower cmd" where
  "thread_byte_brower dump after ch = reading (\<lambda>s.
     if r_state (br_rx s) = 5 then br_fcs dump after ch else lift_rx (r_step ch))"

section \<open>The web page\<close>

text \<open>
  The answer of a connection is the pointer \<^verbatim>\<open>json_str\<close> itself, so a page shows what the text is when it
  is sent; the type of answers is therefore \<open>unit\<close>. A post works on the gateway and on its connection.
\<close>

type_synonym br_con = "unit post_con"

definition set_light :: "nat \<Rightarrow> int \<Rightarrow> brower cmd" where
  "set_light i tempint s =
     (if 0 \<le> tempint \<and> tempint < 3
      then Inr (br_update i (\<lambda>d. d\<lparr>e_light := (e_light d)[nat tempint := 1]\<rparr>) s)
      else Inl (OutOfBounds, s))"

definition post_lights :: "('j, 'x) json_array_lib_scheme \<Rightarrow> nat \<Rightarrow> 'j option \<Rightarrow> brower cmd" where
  "post_lights J i tempobj =
     (case tempobj of
        None \<Rightarrow> skip
      | Some _ \<Rightarrow>
          block
            [modify (br_update i (\<lambda>d. d\<lparr>e_light := [0, 0, 0]\<rparr>)),
             case array_length J tempobj of
               None \<Rightarrow> fault NullDeref
             | Some n \<Rightarrow>
                 block (map (\<lambda>k. set_light i (get_int J (array_get_idx J tempobj k))) [0..<n])])"

definition post_control :: "('j, 'x) json_array_lib_scheme \<Rightarrow> nat \<Rightarrow> 'j option \<Rightarrow> brower cmd" where
  "post_control J i val =
     (case val of
        None \<Rightarrow> skip
      | Some _ \<Rightarrow>
          block
            [modify (br_update i (\<lambda>d. d\<lparr>e_devid := word_of_int (get_int J (object_get_ex J val ''devid''))\<rparr>)),
             post_lights J i (object_get_ex J val ''lights'')])"

definition set_status :: "nat \<Rightarrow> nat \<Rightarrow> int \<Rightarrow> brower cmd" where
  "set_status i k tempint s =
     (if k < 3
      then (let d = br_device s ! i; v = word_of_int tempint
            in if uint (e_state d ! k) \<noteq> tempint
               then block
                 [modify (br_update i (\<lambda>d. d\<lparr>e_state := (e_state d)[k := v]\<rparr>)),
                  if k = 0 then SendCtrlMessage_brower (e_id d) v 2 2
                  else if k = 1 then SendCtrlMessage_brower (e_id d) 2 v 2
                  else SendCtrlMessage_brower (e_id d) 2 2 v] s
               else Inr s)
      else Inl (OutOfBounds, s))"

definition post_status :: "('j, 'x) json_array_lib_scheme \<Rightarrow> nat \<Rightarrow> 'j option \<Rightarrow> brower cmd" where
  "post_status J i val =
     (case array_length J val of
        None \<Rightarrow> fault NullDeref
      | Some n \<Rightarrow> block (map (\<lambda>k. set_status i k (get_int J (array_get_idx J val k))) [0..<n]))"

definition post_device :: "('j, 'x) json_array_lib_scheme \<Rightarrow> 'j option \<Rightarrow> brower cmd" where
  "post_device J obj = reading (\<lambda>s.
     let findedid = find_dev_brower (get_int J (object_get_ex J obj ''id'')) s
     in if findedid \<noteq> -1
        then block
          [post_control J (nat findedid) (object_get_ex J obj ''control''),
           post_status J (nat findedid) (object_get_ex J obj ''status'')]
        else skip)"

definition post_devices :: "('j, 'x) json_array_lib_scheme \<Rightarrow> 'j option \<Rightarrow> brower cmd" where
  "post_devices J my_object =
     (case array_length J my_object of
        None \<Rightarrow> fault NullDeref
      | Some n \<Rightarrow> block (map (\<lambda>k. post_device J (array_get_idx J my_object k)) [0..<n]))"

definition on_gateway :: "brower cmd \<Rightarrow> (brower \<times> br_con) cmd" where
  "on_gateway c sc = (case c (fst sc) of Inl (e, s) \<Rightarrow> Inl (e, (s, snd sc)) | Inr s \<Rightarrow> Inr (s, snd sc))"

definition set_answer :: "unit option \<Rightarrow> (brower \<times> br_con) cmd" where
  "set_answer a = modify (\<lambda>(s, con). (s, con\<lparr>pc_answer := a\<rparr>))"

definition returning :: "mhd_ret \<Rightarrow> 's cmd \<Rightarrow> 's \<Rightarrow> (c_error \<times> 's) + mhd_ret \<times> 's" where
  "returning r c s = (case c s of Inl f \<Rightarrow> Inl f | Inr t \<Rightarrow> Inr (r, t))"

definition br_open_config :: br_config where
  "br_open_config = \<lparr>c_id = 0xa9ed, c_state1 = 1, c_state2 = 2, c_state3 = 2, c_enable = 1\<rparr>"

definition press_open :: "(brower \<times> br_con) cmd" where
  "press_open = block
     [on_gateway (modify (\<lambda>s. s\<lparr>br_str := ''open ''\<rparr>)),
      on_gateway (SendConfigMessage_brower 0x171f 0 0 br_open_config),
      set_answer None]"

definition press_close :: "(brower \<times> br_con) cmd" where
  "press_close = block
     [on_gateway (modify (\<lambda>s. s\<lparr>br_str := ''close''\<rparr>)),
      on_gateway (GetConfigMessage_brower 0x171f),
      set_answer None]"

definition iterate_post_brower ::
    "('j, 'x) json_array_lib_scheme \<Rightarrow> (json \<Rightarrow> string) \<Rightarrow> item \<Rightarrow> brower \<times> br_con
     \<Rightarrow> (c_error \<times> (brower \<times> br_con)) + mhd_ret \<times> (brower \<times> br_con)" where
  "iterate_post_brower J dump x =
     (case x of (key, data, sz) \<Rightarrow>
        if 0 < sz
        then (case tokener_parse J data of
                None \<Rightarrow> returning MHD_NO skip
              | my_object2 \<Rightarrow>
                  (case object_get_ex J my_object2 ''devices'' of
                     None \<Rightarrow> returning MHD_NO skip
                   | my_object \<Rightarrow>
                       returning MHD_NO (block
                         [on_gateway (post_devices J my_object),
                          if sz \<le> BR_MAXNAMESIZE
                          then block [on_gateway (build_json_brower dump), set_answer (Some ())]
                          else set_answer None])))
        else if key = ''open'' then returning MHD_NO press_open
        else if key = ''close'' then returning MHD_NO press_close
        else returning MHD_YES skip)"

definition send_page_brower :: "web_env \<Rightarrow> string \<Rightarrow> brower \<Rightarrow> mhd_ret \<times> brower" where
  "send_page_brower env page s =
     (if \<not> we_create env then (MHD_NO, s) else (we_queue env, br_emit [Reply page] s))"

text \<open>
  \<^verbatim>\<open>answer_to_connection\<close>: with no connection object it makes one; then a GET sends the table, a POST
  hands its data to the post processor, and a POST without data left sends the answer. The items are the
  calls \<^verbatim>\<open>MHD_post_process\<close> makes for the data of this call.
\<close>

definition page_or_error :: "web_env \<Rightarrow> string option \<Rightarrow> brower \<Rightarrow> mhd_ret \<times> brower" where
  "page_or_error env page = send_page_brower env (case page of None \<Rightarrow> errorpage | Some p \<Rightarrow> p)"

definition answer_to_connection_brower ::
    "('j, 'x) json_array_lib_scheme \<Rightarrow> (json \<Rightarrow> string) \<Rightarrow> web_env \<Rightarrow> string \<Rightarrow> nat \<Rightarrow> item list
     \<Rightarrow> br_con option \<Rightarrow> brower \<Rightarrow> (c_error \<times> brower) + mhd_ret \<times> br_con option \<times> brower" where
  "answer_to_connection_brower J dump env method upload_data_size items con_cls s =
     (case con_cls of
        None \<Rightarrow>
          (case open_connection env method of
             None \<Rightarrow> Inr (MHD_NO, None, s)
           | Some con \<Rightarrow> Inr (MHD_YES, Some con, s))
      | Some con \<Rightarrow>
          if method = ''GET''
          then (case page_or_error env (br_json s) s of (r, t) \<Rightarrow> Inr (r, Some con, t))
          else if method = ''POST'' \<and> upload_data_size \<noteq> 0
          then (if pc_processor con
                then (case post_process (iterate_post_brower J dump) items (s, con) of
                        Inl (e, (t, _)) \<Rightarrow> Inl (e, t)
                      | Inr (t, con') \<Rightarrow> Inr (MHD_YES, Some con', t))
                else Inl (WildPointer, s))
          else (case page_or_error env
                  (if method = ''POST'' \<and> pc_answer con \<noteq> None then br_json s else None) s of
                  (r, t) \<Rightarrow> Inr (r, Some con, t)))"

text \<open>
  \<^verbatim>\<open>request_completed\<close>: the post processor is destroyed, which may call \<^verbatim>\<open>iterate_post\<close> once more (for a
  body that ends in \<^verbatim>\<open>open=\<close>, say), and the connection object is freed.
\<close>

definition request_completed_brower ::
    "('j, 'x) json_array_lib_scheme \<Rightarrow> (json \<Rightarrow> string) \<Rightarrow> item list \<Rightarrow> br_con option \<Rightarrow> brower
     \<Rightarrow> (c_error \<times> brower) + br_con option \<times> brower" where
  "request_completed_brower J dump items con_cls s =
     (case close_connection con_cls of
        Inl e \<Rightarrow> Inl (e, s)
      | Inr con \<Rightarrow>
          (case con_cls of
             None \<Rightarrow> Inr (con, s)
           | Some c \<Rightarrow>
               (case end_post (iterate_post_brower J dump) items c (s, c) of
                  Inl (e, (t, _)) \<Rightarrow> Inl (e, t)
                | Inr (t, _) \<Rightarrow> Inr (con, t))))"

text \<open>
  The answer is only set after \<^verbatim>\<open>build_json\<close> wrote to \<^verbatim>\<open>json_str\<close>, so with a set answer the pointer is not
  null (\<open>answer_has_page\<close> below).
\<close>

section \<open>main\<close>

record br_setup =
  bs_calloc :: bool            \<comment> \<open>\<^verbatim>\<open>calloc\<close> gives memory\<close>
  bs_wiringPi :: bool          \<comment> \<open>\<^verbatim>\<open>wiringPiSetup\<close> succeeds\<close>
  bs_serial :: bool            \<comment> \<open>\<^verbatim>\<open>serialOpen\<close> succeeds\<close>
  bs_thread :: bool            \<comment> \<open>\<^verbatim>\<open>pthread_create\<close> succeeds\<close>
  bs_daemon :: bool            \<comment> \<open>\<^verbatim>\<open>MHD_start_daemon\<close> returns a daemon\<close>

definition br_initial :: brower where
  "br_initial = \<lparr>br_device = replicate BR_DEV_SIZE br_no_device, br_devsize = 0,
     br_rx = \<lparr>r_state = 0x55, r_len = 0, r_fcs = 0, r_count = 0, r_buf = replicate BR_RXBUF_SIZE 0\<rparr>,
     br_json = None, br_str = ''undefine'', br_out = []\<rparr>"

text \<open>The set-up up to the loop; \<open>Inr None\<close> is an early \<^verbatim>\<open>return 1\<close>.\<close>

definition main_start_brower :: "(json \<Rightarrow> string) \<Rightarrow> br_setup \<Rightarrow> (c_error \<times> brower) + brower option" where
  "main_start_brower dump e =
     (let s = br_initial
            \<lparr>br_device := map (\<lambda>d. d\<lparr>e_registered := 0, e_ctrl := 0\<rparr>) (br_device br_initial),
             br_json := (if bs_calloc e then Some [] else None)\<rparr>
      in if \<not> bs_wiringPi e \<or> \<not> bs_serial e \<or> \<not> bs_thread e \<or> \<not> bs_daemon e then Inr None
         else (case block [SendRegisterMessage_brower 0x9b02 4, SendRegisterMessage_brower 0x49f0 4,
                           build_json_brower dump] s of
                 Inl f \<Rightarrow> Inl f
               | Inr t \<Rightarrow> Inr (Some t)))"

definition br_config_data :: "nat \<Rightarrow> byte list" where
  "br_config_data tt =
     [[8, 11, 0xf4, 0x09, 0, 0, 0x7b, 0x4f, 1, 2, 2, 1],
      [8, 11, 0xf4, 0x09, 0, 1, 0x7b, 0x4f, 0, 2, 2, 1],
      [8, 11, 0xf4, 0x09, 1, 0, 0x7b, 0x4f, 2, 1, 2, 1],
      [8, 11, 0xf4, 0x09, 1, 1, 0x7b, 0x4f, 2, 0, 2, 1],
      [8, 11, 0xf4, 0x09, 2, 0, 0x7b, 0x4f, 2, 2, 1, 1],
      [8, 11, 0xf4, 0x09, 2, 1, 0x7b, 0x4f, 2, 2, 0, 1],
      [8, 11, 0x7b, 0x4f, 0, 0, 0xe3, 0x19, 1, 2, 2, 1],
      [8, 11, 0x7b, 0x4f, 0, 1, 0xe3, 0x19, 0, 2, 2, 1],
      [8, 11, 0x7b, 0x4f, 1, 0, 0xe3, 0x19, 2, 1, 2, 1],
      [8, 11, 0x7b, 0x4f, 1, 1, 0xe3, 0x19, 2, 0, 2, 1],
      [8, 11, 0x7b, 0x4f, 2, 0, 0xe3, 0x19, 2, 2, 1, 1],
      [8, 11, 0x7b, 0x4f, 2, 1, 0xe3, 0x19, 2, 2, 0, 1]] ! (tt - 1)"

text \<open>One round of the loop, with the local variable \<^verbatim>\<open>tt\<close>.\<close>

definition main_tick_brower :: "nat \<times> brower \<Rightarrow> (c_error \<times> (nat \<times> brower)) + nat \<times> brower" where
  "main_tick_brower = (\<lambda>(tt, s).
     let tt' = (if tt = 5 then 13 else if 1 \<le> tt \<and> tt \<le> 12 then tt + 1 else tt)
     in case block
          [modify (br_emit [USleep 500000]),
           if tt = 13 then GetConfigMessage_brower 0xf409 else skip,
           if 1 \<le> tt \<and> tt \<le> 12 then send_usart_brower (br_config_data tt) 12 else skip] s of
          Inl (e, t) \<Rightarrow> Inl (e, (tt, t))
        | Inr t \<Rightarrow> Inr (tt', t))"

end
