(* ===== verification/Json_Properties.thy ===== *)
theory Json_Properties
  imports Json_Refs Zb2_Receive Brower
begin

text \<open>
  The calls of json-c that \<^verbatim>\<open>build_json\<close> of \<^verbatim>\<open>zbserver-brower.c\<close> makes, and what \<^verbatim>\<open>build_json\<close> of all three
  gateways does with the ownership of its objects.
\<close>

section \<open>zbserver-brower\<close>

definition ref_br_lights :: nat where [simp]: "ref_br_lights = 0"
definition ref_br_state :: nat where [simp]: "ref_br_state = 4"
definition ref_br_control :: nat where [simp]: "ref_br_control = 8"
definition ref_br_dev :: nat where [simp]: "ref_br_dev = 10"

definition br_dev_calls :: "br_device_t \<Rightarrow> json_call list" where
  "br_dev_calls d =
     New ref_br_lights (Items []) #
     concat (map (\<lambda>k. if e_light d ! k \<noteq> 0
       then [New (1 + k) (Leaf (JInt (int k))), ArrayAdd ref_br_lights (1 + k)] else []) [0, 1, 2]) @
     [New ref_br_state (Items []),
      New 5 (Leaf (JInt (uint (e_state d ! 0)))), ArrayAdd ref_br_state 5,
      New 6 (Leaf (JInt (uint (e_state d ! 1)))), ArrayAdd ref_br_state 6,
      New 7 (Leaf (JInt (uint (e_state d ! 2)))), ArrayAdd ref_br_state 7,
      New ref_br_control (Fields []),
      New 9 (Leaf (JInt (uint (e_devid d)))), ObjectAdd ref_br_control ''devid'' 9,
      ObjectAdd ref_br_control ''lights'' ref_br_lights,
      New ref_br_dev (Fields []),
      New 11 (Leaf (JInt (uint (e_id d)))), ObjectAdd ref_br_dev ''id'' 11,
      New 12 (Leaf (JInt (uint (e_type d)))), ObjectAdd ref_br_dev ''type'' 12,
      ObjectAdd ref_br_dev ''control'' ref_br_control,
      ObjectAdd ref_br_dev ''status'' ref_br_state]"

definition br_put_calls :: "json_call list" where
  "br_put_calls = [Put ref_br_lights, Put ref_br_state, Put ref_br_control, Put ref_br_dev]"

definition br_build_calls :: "json_call list \<Rightarrow> br_device_t list \<Rightarrow> json_call list" where
  "br_build_calls puts = json_rounds br_dev_calls (ToString ref_br_dev # puts)"

definition br_built :: "br_device_t \<Rightarrow> json_store" where
  "br_built d = (case json_run (br_dev_calls d) [] of Inl r \<Rightarrow> [] | Inr h \<Rightarrow> h)"

lemma br_dev_calls_build:
  "json_run (br_dev_calls d) [] = Inr (br_built d) \<and> stored 4 (br_built d) ref_br_dev = Some (br_obj d) \<and>
   json_run (ToString ref_br_dev # br_put_calls) (br_built d) = Inl ref_br_lights \<and>
   json_run [ToString ref_br_dev, Put ref_br_dev] (br_built d) = Inr []"
proof -
  have four: "(4 :: nat) = Suc (Suc (Suc (Suc 0)))" by simp
  show ?thesis
    by (cases "e_light d ! 0 = 0"; cases "e_light d ! 1 = 0"; cases "e_light d ! 2 = 0")
      (simp_all add: br_built_def br_dev_calls_def br_put_calls_def br_obj_def owned_def Let_def four del: One_nat_def)
qed

interpretation br_json: json_builder br_dev_calls ref_br_dev ref_br_lights br_put_calls
  by unfold_locales (simp_all only: json_run_append br_dev_calls_build sum.case)

section \<open>zbclient2\<close>

lemma one_name_zb2: "one_name name_field_zb2"
  by (simp add: one_name_def name_field_zb2_def)

lemma entry_json_zb2: "entry_json name_field_zb2 d = dev_obj_zb2 (the (d_name d)) d"
  by (simp add: entry_json_def dev_obj_zb2_def)

interpretation zb2_json: json_builder "dev_calls name_field_zb2" ref_dev ref_state put_calls
  by unfold_locales (rule dev_round [OF one_name_zb2])+

section \<open>The release of what was given away\<close>

text \<open>
  C18. Every time \<^verbatim>\<open>build_json\<close> of \<^verbatim>\<open>zbclient.c\<close>, \<^verbatim>\<open>zbclient2.c\<close> or \<^verbatim>\<open>zbserver-brower.c\<close> renders a device that
  has a name, it breaks the contract of json-c. Its calls build the object that is rendered; adding
  \<^verbatim>\<open>state\<close> (or \<^verbatim>\<open>lights\<close>) to its container gives it away, and the end of the round puts it nevertheless, so
  that it has one release too many when its container is put. With the put of \<^verbatim>\<open>dev\<close> as the only one,
  the contract is kept and every object of every round is freed.
\<close>

theorem json_release_unowned:
  assumes "list_all named (d # ds)"
  shows "stored 3 (built name_field d) ref_dev = Some (dev_obj (the (d_name d)) d) \<and>
   stored 3 (built name_field_zb2 d) ref_dev = Some (dev_obj_zb2 (the (d_name d)) d) \<and>
   stored 4 (br_built b) ref_br_dev = Some (br_obj b) \<and>
   json_run (build_calls put_calls name_field (d # ds)) [] = Inl ref_state \<and>
   json_run (build_calls put_calls name_field_zb2 (d # ds)) [] = Inl ref_state \<and>
   json_run (br_build_calls br_put_calls (b # bs)) [] = Inl ref_br_lights \<and>
   json_run (build_calls [Put ref_dev] name_field ds) [] = Inr [] \<and>
   json_run (build_calls [Put ref_dev] name_field_zb2 ds) [] = Inr [] \<and>
   json_run (br_build_calls [Put ref_br_dev] bs) [] = Inr []"
  unfolding build_calls_def br_build_calls_def
  by (intro conjI zb_json.rounds_fault zb2_json.rounds_fault br_json.rounds_fault zb_json.rounds_balanced
      zb2_json.rounds_balanced br_json.rounds_balanced list.distinct)
    (simp_all only: dev_calls_build(2) one_name_zb one_name_zb2 entry_json_zb entry_json_zb2 br_dev_calls_build)

theorem json_release_unowned_witness:
  "json_run (build_calls put_calls name_field [no_device\<lparr>d_name := Some ''lamp''\<rparr>]) [] = Inl ref_state"
  using json_release_unowned [of "no_device\<lparr>d_name := Some ''lamp''\<rparr>" "[]" br_no_device "[]"] by (simp add: named_def)

end
