(* ===== verification/Zb_Race.thy ===== *)
theory Zb_Race
  imports Zb_Messages Zb_Examples
begin

text \<open>
  The threads of \<^verbatim>\<open>zbclient.c\<close> without locks. Elsewhere a round of a thread is one step; here the accesses
  to what two threads share are steps of their own: the countdown \<^verbatim>\<open>humand\<close>, which \<^verbatim>\<open>main\<close> decrements while
  \<^verbatim>\<open>recieve_usart\<close> sets it on the serial thread, and the serial line, to which two threads in \<^verbatim>\<open>send_usart\<close>
  write byte by byte.
\<close>

section \<open>The countdown\<close>

text \<open>
  Where \<^verbatim>\<open>main\<close> stands: it sleeps; before the two tests of \<^verbatim>\<open>humand\<close>; before it sends; and within \<^verbatim>\<open>humand--\<close>,
  before the load and before the store of the value it has loaded.
\<close>

datatype main_pc = M_sleep | M_test1 | M_send | M_test2 | M_load | M_store int

text \<open>
  Where the serial thread stands: it waits; in the report of the motion sensor, before the search of the
  kitchen light, the tests, the message and the assignments; in the report of the kitchen light, before
  \<^verbatim>\<open>humand = 0\<close> and before \<^verbatim>\<open>build_json\<close>.
\<close>

datatype rx_pc = R_wait | R_find | R_test | R_send | R_set | R_test2 | R_set2 | R_zero | R_json

record threads =
  shared :: main_t
  mpc :: main_pc
  rpc :: rx_pc

definition on_shared :: "gateway cmd \<Rightarrow> threads cmd" where
  "on_shared c t = (case on_gw c (shared t) of
     Inl (e, m) \<Rightarrow> Inl (e, t\<lparr>shared := m\<rparr>) | Inr m \<Rightarrow> Inr (t\<lparr>shared := m\<rparr>))"

definition to_m :: "main_pc \<Rightarrow> threads cmd" where
  "to_m p = modify (\<lambda>t. t\<lparr>mpc := p\<rparr>)"

definition to_r :: "rx_pc \<Rightarrow> threads cmd" where
  "to_r p = modify (\<lambda>t. t\<lparr>rpc := p\<rparr>)"

abbreviation humand_of :: "threads \<Rightarrow> int" where
  "humand_of t \<equiv> humand (gw (shared t))"

text \<open>The part of a round before the countdown, which does not touch \<^verbatim>\<open>humand\<close>, is one step.\<close>

definition before_countdown :: "main_t cmd" where
  "before_countdown = block
     [modify (\<lambda>m. m\<lparr>flag_hour := flag_hour m + 1\<rparr>),
      reading (\<lambda>m. if flag_hour m \<ge> 7500
                   then block [modify (\<lambda>m. m\<lparr>flag_hour := 0\<rparr>), on_gw offline_check]
                   else skip),
      modify (\<lambda>m. m\<lparr>jcount := jcount m + 1\<rparr>),
      reading (\<lambda>m. if jcount m > 20 then modify (\<lambda>m. m\<lparr>jcount := 0\<rparr>) else skip),
      on_gw (usleep 1000000)]"

definition main_access :: "threads cmd" where
  "main_access t =
     (case mpc t of
        M_sleep \<Rightarrow> (case before_countdown (shared t) of
            Inl (e, m) \<Rightarrow> Inl (e, t\<lparr>shared := m\<rparr>)
          | Inr m \<Rightarrow> Inr (t\<lparr>shared := m, mpc := M_test1\<rparr>))
      | M_test1 \<Rightarrow> to_m (if humand_of t = 1 then M_send else M_test2) t
      | M_send \<Rightarrow> block [on_shared (MXJ_SendCtrlMessage CHUFANG_ID 3 0 0 0), to_m M_test2] t
      | M_test2 \<Rightarrow> to_m (if humand_of t > 0 then M_load else M_sleep) t
      | M_load \<Rightarrow> to_m (M_store (humand_of t)) t
      | M_store r \<Rightarrow> block [on_shared (modify (\<lambda>s. s\<lparr>humand := r - 1\<rparr>)), to_m M_sleep] t)"

text \<open>The last accesses of the report of the kitchen light: \<^verbatim>\<open>humand = 0; build_json();\<close>\<close>

definition light_zero :: "threads cmd" where [simp]:
  "light_zero = block [on_shared (modify (\<lambda>s. s\<lparr>humand := 0\<rparr>)), to_r R_json]"

definition light_render :: "(json \<Rightarrow> string) \<Rightarrow> threads cmd" where [simp]:
  "light_render dump = block [on_shared (build_json dump), to_r R_wait]"

text \<open>
  The kitchen light is looked up at the start of the report; whether it is known and off is read there,
  since only this thread writes the states.
\<close>

definition rx_access :: "(json \<Rightarrow> string) \<Rightarrow> threads cmd" where
  "rx_access dump t =
     (case rpc t of
        R_wait \<Rightarrow> skip t
      | R_find \<Rightarrow>
          (case find_dev (uint CHUFANG_ID) (gw (shared t)) of (j, s) \<Rightarrow>
             block [on_shared (modify (\<lambda>_. s)),
                    to_r (if j \<noteq> -1 \<and> d_state (mxj_device s ! nat j) ! 0 = 0 then R_test else R_test2)] t)
      | R_test \<Rightarrow> to_r (if humand_of t \<le> 1 then R_send else R_test2) t
      | R_send \<Rightarrow> block [on_shared (MXJ_SendCtrlMessage CHUFANG_ID 3 1 1 1), to_r R_set] t
      | R_set \<Rightarrow> block [on_shared (modify (\<lambda>s. s\<lparr>humand := 120\<rparr>)), to_r R_test2] t
      | R_test2 \<Rightarrow> to_r (if humand_of t > 1 then R_set2 else R_wait) t
      | R_set2 \<Rightarrow> block [on_shared (modify (\<lambda>s. s\<lparr>humand := 120\<rparr>)), to_r R_wait] t
      | R_zero \<Rightarrow> light_zero t
      | R_json \<Rightarrow> light_render dump t)"

text \<open>
  The arrival of the two messages: \<^verbatim>\<open>recieve_usart\<close> up to the first access to \<^verbatim>\<open>humand\<close>. The report of a
  light that is not in the table or not of type 4 ends there.
\<close>

definition motion_arrives :: "threads cmd" where
  "motion_arrives = block
     [on_shared (modify (\<lambda>s. snd (find_dev (uint XIAOMIRENTI_ID) (read_clock s)))), to_r R_find]"

definition light_arrives :: "byte list \<Rightarrow> threads cmd" where
  "light_arrives rx t =
     (case find_dev (uint CHUFANG_ID) (read_clock (gw (shared t))) of (i, s) \<Rightarrow>
        if i = -1 \<or> d_type (mxj_device s ! nat i) \<noteq> 4 then on_shared (modify (\<lambda>_. s)) t
        else block
          [on_shared (modify (\<lambda>_. s)),
           on_shared (if rx ! 5 = 1 then modify (set_state (nat i) 0 (rx ! 6)) else skip),
           on_shared (if rx ! 5 = 2 then modify (set_state (nat i) 1 (rx ! 6)) else skip),
           on_shared (if rx ! 5 = 3 then modify (set_state (nat i) 2 (rx ! 6)) else skip),
           to_r R_zero] t)"

inductive race_step :: "(json \<Rightarrow> string) \<Rightarrow> threads \<Rightarrow> threads \<Rightarrow> bool" for dump
  where
  main: "main_access t = Inr u \<Longrightarrow> race_step dump t u"
| motion: "rpc t = R_wait \<Longrightarrow> motion_arrives t = Inr u \<Longrightarrow> race_step dump t u"
| light: "rpc t = R_wait \<Longrightarrow> light_arrives rx t = Inr u \<Longrightarrow> race_step dump t u"
| serial: "rpc t \<noteq> R_wait \<Longrightarrow> rx_access dump t = Inr u \<Longrightarrow> race_step dump t u"

inductive_cases race_stepE: "race_step dump t u"

definition race_start :: "main_t \<Rightarrow> threads" where
  "race_start m = \<lparr>shared = m, mpc = M_sleep, rpc = R_wait\<rparr>"

lemma on_shared_modify [simp]: "on_shared (modify f) t = Inr (t\<lparr>shared := (shared t)\<lparr>gw := f (gw (shared t))\<rparr>\<rparr>)"
  by (simp add: on_shared_def on_gw_def)

lemma on_shared_skip [simp]: "on_shared skip t = Inr t"
  by (simp add: on_shared_def on_gw_def)

lemma on_shared_Inr: "c (gw (shared t)) = Inr s \<Longrightarrow> on_shared c t = Inr (t\<lparr>shared := (shared t)\<lparr>gw := s\<rparr>\<rparr>)"
  by (simp add: on_shared_def on_gw_def)

lemma on_sharedE:
  assumes "on_shared c t = Inr u"
  obtains s where "c (gw (shared t)) = Inr s" "u = t\<lparr>shared := (shared t)\<lparr>gw := s\<rparr>\<rparr>"
  using assms that by (auto simp: on_shared_def on_gw_def split: sum.splits)

lemma to_pc [simp]: "to_m p t = Inr (t\<lparr>mpc := p\<rparr>)" "to_r q t = Inr (t\<lparr>rpc := q\<rparr>)"
  by (simp_all add: to_m_def to_r_def)

section \<open>What keeps the countdown\<close>

text \<open>A command that keeps \<^verbatim>\<open>humand\<close>.\<close>

definition keeps_humand :: "gateway cmd \<Rightarrow> bool" where
  "keeps_humand c \<longleftrightarrow> (\<forall>s t. c s = Inr t \<longrightarrow> humand t = humand s)"

lemma keeps_humandD: "keeps_humand c \<Longrightarrow> c s = Inr t \<Longrightarrow> humand t = humand s"
  by (simp add: keeps_humand_def)

lemma find_dev_from_humand: "humand (snd (find_dev_from i nid s)) = humand s"
proof (induction i nid s rule: find_dev_from.induct)
  case (1 i nid s)
  then show ?case by (subst find_dev_from.simps) (auto simp: Let_def)
qed

lemma find_dev_humand: "find_dev nid s = (i, t) \<Longrightarrow> humand t = humand s"
  using find_dev_from_humand [of 0 nid s] by (simp add: find_dev_def)

lemma keeps_build_json: "keeps_humand (build_json dump)"
  by (auto simp: keeps_humand_def build_json_def split: sum.splits option.splits)

lemma keeps_if: "keeps_humand c \<Longrightarrow> keeps_humand d \<Longrightarrow> keeps_humand (if b then c else d)"
  by simp

lemma keeps_set_state: "keeps_humand (modify (set_state i k v))"
  by (simp add: keeps_humand_def set_state_def)

lemma keeps_skip: "keeps_humand skip"
  by (simp add: keeps_humand_def)

lemma keeps_block: "list_all keeps_humand cs \<Longrightarrow> keeps_humand (block cs)"
  unfolding keeps_humand_def
proof (intro allI impI)
  fix s t
  assume "list_all (\<lambda>c. \<forall>s t. c s = Inr t \<longrightarrow> humand t = humand s) cs" and "block cs s = Inr t"
  then show "humand t = humand s"
    by (induction cs arbitrary: s) (auto split: sum.splits)
qed

lemma keeps_offline_dev: "keeps_humand (offline_dev i)"
  by (auto simp: keeps_humand_def offline_dev_def post_alarm_def emit_def Let_def split: option.splits if_splits)

lemma keeps_offline_check: "keeps_humand offline_check"
proof -
  have "keeps_humand (block (map offline_dev xs))" for xs
    by (rule keeps_block) (simp add: list_all_iff keeps_offline_dev)
  then show ?thesis by (simp add: keeps_humand_def offline_check_def)
qed

lemma before_countdown_humand: "before_countdown m = Inr n \<Longrightarrow> humand (gw n) = humand (gw m)"
  using keeps_humandD [OF keeps_offline_check]
  by (auto simp: before_countdown_def on_gw_def usleep_emit split: sum.splits if_splits)

lemma on_shared_keeps:
  "keeps_humand c \<Longrightarrow> on_shared c t = Inr u \<Longrightarrow> humand_of u = humand_of t \<and> mpc u = mpc t \<and> rpc u = rpc t"
  by (auto elim!: on_sharedE dest: keeps_humandD)

section \<open>The bounds of the countdown without atomicity\<close>

text \<open>
  \<open>race_inv\<close>: the value that \<^verbatim>\<open>main\<close> has loaded is in the bounds the countdown has, and so is the countdown,
  but for the value -1, which a store can leave behind.
\<close>

definition race_inv :: "threads \<Rightarrow> bool" where
  "race_inv t \<longleftrightarrow> - 1 \<le> humand_of t \<and> humand_of t \<le> 120 \<and>
     (case mpc t of M_load \<Rightarrow> 0 \<le> humand_of t | M_store r \<Rightarrow> 0 \<le> r \<and> r \<le> 120 | _ \<Rightarrow> True)"

lemma race_inv_cong: "race_inv t \<Longrightarrow> humand_of u = humand_of t \<Longrightarrow> mpc u = mpc t \<Longrightarrow> race_inv u"
  by (auto simp: race_inv_def split: main_pc.splits)

text \<open>The serial thread assigns only 0 and 120.\<close>

lemma race_inv_set:
  "race_inv t \<Longrightarrow> humand_of u = humand_of t \<or> humand_of u \<in> {0, 120} \<Longrightarrow> mpc u = mpc t \<Longrightarrow> race_inv u"
  by (auto simp: race_inv_def split: main_pc.splits)

lemma main_access_inv: "race_inv t \<Longrightarrow> main_access t = Inr u \<Longrightarrow> race_inv u"
proof (cases "mpc t")
  case M_sleep
  then show "race_inv t \<Longrightarrow> main_access t = Inr u \<Longrightarrow> race_inv u"
    by (auto simp: main_access_def race_inv_def dest: before_countdown_humand split: sum.splits)
qed (auto simp: main_access_def race_inv_def SendCtrl_sent on_shared_def on_gw_def
    split: if_splits simp del: ctrl_msg_3)

lemma rx_access_inv: "race_inv t \<Longrightarrow> rx_access dump t = Inr u \<Longrightarrow> race_inv u"
proof (cases "rpc t")
  case R_find
  then show "race_inv t \<Longrightarrow> rx_access dump t = Inr u \<Longrightarrow> race_inv u"
    by (auto simp: rx_access_def dest: find_dev_humand split: prod.splits if_splits elim!: race_inv_cong)
next
  case R_json
  show "race_inv u" if "race_inv t" "rx_access dump t = Inr u"
    using that R_json
    by (auto simp: rx_access_def split: sum.splits elim!: on_sharedE race_inv_cong
        dest!: keeps_humandD [OF keeps_build_json])
qed (auto simp: rx_access_def SendCtrl_sent on_shared_def on_gw_def
    split: if_splits elim!: race_inv_set simp del: ctrl_msg_3)

lemma motion_arrives_inv: "race_inv t \<Longrightarrow> motion_arrives t = Inr u \<Longrightarrow> race_inv u"
  using find_dev_from_humand [of 0 "uint XIAOMIRENTI_ID" "read_clock (gw (shared t))"]
  by (auto simp: motion_arrives_def find_dev_def read_clock_def elim!: race_inv_cong)

lemma light_arrives_humand: "light_arrives rx t = Inr u \<Longrightarrow> humand_of u = humand_of t \<and> mpc u = mpc t"
  by (auto simp: light_arrives_def set_state_def read_clock_def split: prod.splits if_splits
      dest!: find_dev_humand)

lemma race_step_inv: "race_inv t \<Longrightarrow> race_step dump t u \<Longrightarrow> race_inv u"
proof (erule race_stepE)
  fix rx
  assume "race_inv t" "light_arrives rx t = Inr u"
  then show ?thesis using light_arrives_humand race_inv_cong by blast
qed (blast intro: main_access_inv motion_arrives_inv rx_access_inv)+

lemma race_start_inv: "home_inv dump (gw m) \<Longrightarrow> race_inv (race_start m)"
  by (simp add: race_start_def race_inv_def home_inv_def home_table_def data_inv_def)

interpretation race: step_system "\<lambda>t. \<exists>m. zb_init dump m \<and> t = race_start m" "race_step dump" race_inv for dump
  by unfold_locales (auto simp: main_inv_def dest!: zb_init_inv intro: race_start_inv race_step_inv)

section \<open>The atomic rounds are runs\<close>

lemma race_main: "main_access t = Inr u \<Longrightarrow> (race_step dump)\<^sup>*\<^sup>* u v \<Longrightarrow> (race_step dump)\<^sup>*\<^sup>* t v"
  by (rule converse_rtranclp_into_rtranclp) (rule race_step.main)

lemma race_serial:
  "rpc t \<noteq> R_wait \<Longrightarrow> rx_access dump t = Inr u \<Longrightarrow> (race_step dump)\<^sup>*\<^sup>* u v \<Longrightarrow> (race_step dump)\<^sup>*\<^sup>* t v"
  by (rule converse_rtranclp_into_rtranclp) (rule race_step.serial)

lemma block_last:
  "block [a, b, c, d, z, e] s = (case block [a, b, c, d, z] s of Inl f \<Rightarrow> Inl f | Inr t \<Rightarrow> e t)"
  using block_append [of "[a, b, c, d, z]" "[e]" s]
  by (cases "block [a, b, c, d, z] s") (simp_all only: append_Cons append_Nil sum.case block_single)

lemma main_tick_split:
  "main_tick m = (case before_countdown m of Inl f \<Rightarrow> Inl f | Inr k \<Rightarrow> on_gw countdown k)"
  unfolding main_tick_def before_countdown_def by (rule block_last)

abbreviation at :: "main_t \<Rightarrow> main_pc \<Rightarrow> rx_pc \<Rightarrow> threads" where
  "at m p q \<equiv> \<lparr>shared = m, mpc = p, rpc = q\<rparr>"

lemma countdown_run:
  assumes "countdown (gw k) = Inr s"
  shows "(race_step dump)\<^sup>*\<^sup>* (at k M_test1 q) (at (k\<lparr>gw := s\<rparr>) M_sleep q)"
proof -
  consider "humand (gw k) = 1" | "humand (gw k) > 1" | "humand (gw k) \<le> 0" by linarith
  then show ?thesis
  proof cases
    case 1
    let ?s = "sent (ctrl_msg CHUFANG_ID 3 0 0 0) (gw k)"
    have "main_access (at k M_test1 q) = Inr (at k M_send q)"
      "main_access (at k M_send q) = Inr (at (k\<lparr>gw := ?s\<rparr>) M_test2 q)"
      "main_access (at (k\<lparr>gw := ?s\<rparr>) M_test2 q) = Inr (at (k\<lparr>gw := ?s\<rparr>) M_load q)"
      "main_access (at (k\<lparr>gw := ?s\<rparr>) M_load q) = Inr (at (k\<lparr>gw := ?s\<rparr>) (M_store 1) q)"
      "main_access (at (k\<lparr>gw := ?s\<rparr>) (M_store 1) q) = Inr (at (k\<lparr>gw := ?s\<lparr>humand := 0\<rparr>\<rparr>) M_sleep q)"
      using 1 by (simp_all add: main_access_def SendCtrl_sent on_shared_def on_gw_def del: ctrl_msg_3)
    moreover have "s = ?s\<lparr>humand := 0\<rparr>" using assms countdown_eq(1) [OF 1] by (simp del: ctrl_msg_3)
    ultimately show ?thesis by (blast intro: race_main)
  next
    case 2
    let ?h = "humand (gw k)"
    have "main_access (at k M_test1 q) = Inr (at k M_test2 q)"
      "main_access (at k M_test2 q) = Inr (at k M_load q)"
      "main_access (at k M_load q) = Inr (at k (M_store ?h) q)"
      "main_access (at k (M_store ?h) q) = Inr (at (k\<lparr>gw := (gw k)\<lparr>humand := ?h - 1\<rparr>\<rparr>) M_sleep q)"
      using 2 by (simp_all add: main_access_def)
    moreover have "s = (gw k)\<lparr>humand := ?h - 1\<rparr>" using assms countdown_eq(2) [OF 2] by simp
    ultimately show ?thesis by (blast intro: race_main)
  next
    case 3
    then have "main_access (at k M_test1 q) = Inr (at k M_test2 q)"
      "main_access (at k M_test2 q) = Inr (at k M_sleep q)"
      by (simp_all add: main_access_def)
    moreover have "s = gw k" using assms countdown_eq(3) [OF 3] by simp
    ultimately show ?thesis by (auto intro: race_main)
  qed
qed

lemma main_tick_run:
  assumes "main_tick m = Inr n"
  shows "(race_step dump)\<^sup>*\<^sup>* (at m M_sleep q) (at n M_sleep q)"
proof -
  from assms obtain k s where k: "before_countdown m = Inr k" "countdown (gw k) = Inr s" "n = k\<lparr>gw := s\<rparr>"
    by (auto simp: main_tick_split on_gw_def split: sum.splits)
  then have "main_access (at m M_sleep q) = Inr (at k M_test1 q)" by (simp add: main_access_def)
  then show ?thesis unfolding k(3) using countdown_run [OF k(2)] by (rule race_main)
qed

text \<open>The report of the motion sensor.\<close>

definition motion_msg :: "byte list \<Rightarrow> bool" where
  "motion_msg rx \<longleftrightarrow> rx ! 0 = MXJ_XIAOMI18 \<and> rx_id rx 14 = uint XIAOMIRENTI_ID \<and> rx_cid rx 14 = 0x406"

lemma recieve_motion:
  "motion_msg rx \<Longrightarrow> recieve_usart dump after rx 14 s =
     rx_motion (uint XIAOMIRENTI_ID) (snd (find_dev (uint XIAOMIRENTI_ID) (read_clock s)))"
  unfolding motion_msg_def by (simp only: recieve_cluster Let_def) simp

lemma rx_motion_eq:
  assumes "find_dev (uint CHUFANG_ID) u = (j, s)"
  shows "rx_motion (uint XIAOMIRENTI_ID) u = Inr (
    if j \<noteq> -1 \<and> d_state (mxj_device s ! nat j) ! 0 = 0 \<and> humand s \<le> 1
    then (sent (ctrl_msg CHUFANG_ID 3 1 1 1) s)\<lparr>humand := 120\<rparr>
    else if humand s > 1 then s\<lparr>humand := 120\<rparr> else s)"
  unfolding rx_motion_def finding_def assms prod.case if_True simp_thms
  by (simp add: SendCtrl_sent del: ctrl_msg_3)

lemma rx_motion_run:
  assumes "rx_motion (uint XIAOMIRENTI_ID) (gw m) = Inr s"
  shows "(race_step dump)\<^sup>*\<^sup>* (at m p R_find) (at (m\<lparr>gw := s\<rparr>) p R_wait)"
proof -
  obtain j u where f: "find_dev (uint CHUFANG_ID) (gw m) = (j, u)" by (metis surj_pair)
  let ?n = "m\<lparr>gw := u\<rparr>" and ?d = "j \<noteq> -1 \<and> d_state (mxj_device u ! nat j) ! 0 = 0"
  let ?v = "sent (ctrl_msg CHUFANG_ID 3 1 1 1) u"
  have s: "s = (if ?d \<and> humand u \<le> 1 then ?v\<lparr>humand := 120\<rparr> else if humand u > 1 then u\<lparr>humand := 120\<rparr> else u)"
    using assms unfolding rx_motion_eq [OF f] by (simp only: sum.inject) auto
  have find: "rx_access dump (at m p R_find) = Inr (at ?n p (if ?d then R_test else R_test2))"
    unfolding rx_access_def threads.simps rx_pc.case f prod.case by simp
  have test: "rx_access dump (at k p R_test) = Inr (at k p (if humand (gw k) \<le> 1 then R_send else R_test2))"
    "rx_access dump (at k p R_test2) = Inr (at k p (if humand (gw k) > 1 then R_set2 else R_wait))"
    "rx_access dump (at k p R_set) = Inr (at (k\<lparr>gw := (gw k)\<lparr>humand := 120\<rparr>\<rparr>) p R_test2)"
    "rx_access dump (at k p R_set2) = Inr (at (k\<lparr>gw := (gw k)\<lparr>humand := 120\<rparr>\<rparr>) p R_wait)" for k
    by (simp_all add: rx_access_def)
  have send: "rx_access dump (at ?n p R_send) = Inr (at (m\<lparr>gw := ?v\<rparr>) p R_set)"
    by (simp add: rx_access_def SendCtrl_sent on_shared_def on_gw_def del: ctrl_msg_3)
  have test2: "(race_step dump)\<^sup>*\<^sup>* (at k p R_test2) (at (if humand (gw k) > 1 then k\<lparr>gw := (gw k)\<lparr>humand := 120\<rparr>\<rparr> else k) p R_wait)"
    for k
    by (rule race_serial [OF _ test(2)]) (auto intro: race_serial [OF _ test(4)])
  show ?thesis
  proof (cases "?d \<and> humand u \<le> 1")
    case True
    have "(race_step dump)\<^sup>*\<^sup>* (at (m\<lparr>gw := ?v\<rparr>) p R_set) (at (m\<lparr>gw := s\<rparr>) p R_wait)"
      using test2 [of "m\<lparr>gw := ?v\<lparr>humand := 120\<rparr>\<rparr>"] True s
      by (intro race_serial [OF _ test(3)]) (simp_all del: ctrl_msg_3)
    then have "(race_step dump)\<^sup>*\<^sup>* (at ?n p R_send) (at (m\<lparr>gw := s\<rparr>) p R_wait)"
      by (rule race_serial [OF _ send, rotated]) simp
    then have "(race_step dump)\<^sup>*\<^sup>* (at ?n p R_test) (at (m\<lparr>gw := s\<rparr>) p R_wait)"
      using True by (intro race_serial [OF _ test(1)]) simp_all
    then show ?thesis using True by (intro race_serial [OF _ find]) simp_all
  next
    case False
    have t2: "(race_step dump)\<^sup>*\<^sup>* (at ?n p R_test2) (at (m\<lparr>gw := s\<rparr>) p R_wait)"
      using test2 [of ?n] False s by (auto split: if_splits)
    then have "(race_step dump)\<^sup>*\<^sup>* (at ?n p R_test) (at (m\<lparr>gw := s\<rparr>) p R_wait)" if ?d
      using that False by (intro race_serial [OF _ test(1)]) simp_all
    with t2 show ?thesis by (intro race_serial [OF _ find]) simp_all
  qed
qed

lemma motion_run:
  assumes "motion_msg rx" and "recieve_usart dump after rx 14 (gw m) = Inr s"
  shows "(race_step dump)\<^sup>*\<^sup>* (at m p R_wait) (at (m\<lparr>gw := s\<rparr>) p R_wait)"
proof -
  let ?m = "m\<lparr>gw := snd (find_dev (uint XIAOMIRENTI_ID) (read_clock (gw m)))\<rparr>"
  have "race_step dump (at m p R_wait) (at ?m p R_find)"
    by (rule race_step.motion) (simp_all add: motion_arrives_def)
  moreover have "(race_step dump)\<^sup>*\<^sup>* (at ?m p R_find) (at (?m\<lparr>gw := s\<rparr>) p R_wait)"
    using assms(2) by (intro rx_motion_run) (simp add: recieve_motion [OF assms(1)])
  ultimately show ?thesis by simp
qed

text \<open>The report of the kitchen light.\<close>

definition kitchen_msg :: "byte list \<Rightarrow> byte \<Rightarrow> bool" where
  "kitchen_msg rx len \<longleftrightarrow> rx ! 0 = MXJ_CTRL_UP \<and> rx_id rx len = uint CHUFANG_ID"

lemma recieve_kitchen:
  "kitchen_msg rx len \<Longrightarrow> recieve_usart dump after rx len s = rx_ctrl_up dump (uint CHUFANG_ID) rx (read_clock s)"
  by (simp add: kitchen_msg_def recieve_usart_def Let_def split: sum.split)

definition with_states :: "nat \<Rightarrow> byte list \<Rightarrow> gateway \<Rightarrow> gateway" where
  "with_states i rx s =
     (let s = if rx ! 5 = 1 then set_state i 0 (rx ! 6) s else s;
          s = if rx ! 5 = 2 then set_state i 1 (rx ! 6) s else s
      in if rx ! 5 = 3 then set_state i 2 (rx ! 6) s else s)"

lemma ctrl_up_kitchen:
  assumes "find_dev (uint CHUFANG_ID) u = (i, s)" and "i \<noteq> -1" and "d_type (mxj_device s ! nat i) = 4"
  shows "rx_ctrl_up dump (uint CHUFANG_ID) rx u = build_json dump ((with_states (nat i) rx s)\<lparr>humand := 0\<rparr>)"
  unfolding rx_ctrl_up_def finding_def assms(1) prod.case
  using assms(2,3) by (auto simp: with_states_def Let_def split: sum.split)

lemma light_arrives_known:
  assumes "find_dev (uint CHUFANG_ID) (read_clock (gw m)) = (i, s)" and "i \<noteq> -1"
    and "d_type (mxj_device s ! nat i) = 4"
  shows "light_arrives rx (at m p R_wait) = Inr (at (m\<lparr>gw := with_states (nat i) rx s\<rparr>) p R_zero)"
  using assms unfolding light_arrives_def by (simp add: with_states_def Let_def)

lemma kitchen_run:
  assumes "kitchen_msg rx len" and "recieve_usart dump after rx len (gw m) = Inr t"
  shows "(race_step dump)\<^sup>*\<^sup>* (at m p R_wait) (at (m\<lparr>gw := t\<rparr>) p R_wait)"
proof -
  obtain i s where f: "find_dev (uint CHUFANG_ID) (read_clock (gw m)) = (i, s)" by (metis surj_pair)
  have run: "rx_ctrl_up dump (uint CHUFANG_ID) rx (read_clock (gw m)) = Inr t"
    using assms(2) by (simp only: recieve_kitchen [OF assms(1)])
  show ?thesis
  proof (cases "i \<noteq> -1 \<and> d_type (mxj_device s ! nat i) = 4")
    case True
    let ?z = "with_states (nat i) rx s"
    have b: "build_json dump (?z\<lparr>humand := 0\<rparr>) = Inr t"
      using run ctrl_up_kitchen [OF f] True by simp
    have "race_step dump (at m p R_wait) (at (m\<lparr>gw := ?z\<rparr>) p R_zero)"
      by (rule race_step.light [OF _ light_arrives_known [OF f]]) (use True in simp_all)
    moreover have "(race_step dump)\<^sup>*\<^sup>* (at (m\<lparr>gw := ?z\<rparr>) p R_zero) (at (m\<lparr>gw := t\<rparr>) p R_wait)"
    proof (rule race_serial)
      show "rx_access dump (at (m\<lparr>gw := ?z\<rparr>) p R_zero) = Inr (at (m\<lparr>gw := ?z\<lparr>humand := 0\<rparr>\<rparr>) p R_json)"
        by (simp add: rx_access_def)
      have "rx_access dump (at (m\<lparr>gw := ?z\<lparr>humand := 0\<rparr>\<rparr>) p R_json) = Inr (at (m\<lparr>gw := t\<rparr>) p R_wait)"
        using b by (simp add: rx_access_def on_shared_def on_gw_def)
      then show "(race_step dump)\<^sup>*\<^sup>* (at (m\<lparr>gw := ?z\<lparr>humand := 0\<rparr>\<rparr>) p R_json) (at (m\<lparr>gw := t\<rparr>) p R_wait)"
        by (intro race_serial [OF _ _ rtranclp.rtrancl_refl]) simp_all
    qed simp
    ultimately show ?thesis by (rule converse_rtranclp_into_rtranclp)
  next
    case False
    then have "t = s"
      using run unfolding rx_ctrl_up_def finding_def f prod.case by (auto split: if_splits)
    with False have "light_arrives rx (at m p R_wait) = Inr (at (m\<lparr>gw := t\<rparr>) p R_wait)"
      unfolding light_arrives_def threads.simps f prod.case by auto
    then show ?thesis by (intro r_into_rtranclp race_step.light) simp_all
  qed
qed

section \<open>Two threads on the serial line\<close>

text \<open>
  What two threads in \<^verbatim>\<open>send_usart\<close> have still to write, and what has gone over the line: each call of
  \<^verbatim>\<open>serialPutchar\<close> is a step of one of them.
\<close>

inductive wire_step :: "byte list \<times> byte list \<times> byte list \<Rightarrow> byte list \<times> byte list \<times> byte list \<Rightarrow> bool"
  where
  first: "wire_step (b # p, q, w) (p, q, w @ [b])"
| second: "wire_step (p, b # q, w) (p, q, w @ [b])"

lemma wire_shuffles:
  assumes "wire_step\<^sup>*\<^sup>* x y" and "z \<in> shuffles (fst y) (fst (snd y))"
  shows "\<exists>v \<in> shuffles (fst x) (fst (snd x)). snd (snd y) @ z = snd (snd x) @ v"
  using assms(1)
proof (induction rule: converse_rtranclp_induct)
  case base
  then show ?case using assms(2) by auto
next
  case (step x u)
  then obtain v where v: "v \<in> shuffles (fst u) (fst (snd u))" "snd (snd y) @ z = snd (snd u) @ v" by blast
  from step.hyps(1) obtain b where b: "snd (snd u) = snd (snd x) @ [b]" "b # v \<in> shuffles (fst x) (fst (snd x))"
    using v(1) by cases (auto intro: Cons_in_shuffles_leftI Cons_in_shuffles_rightI)
  with v(2) show ?case by auto
qed

lemma wire_run: "z \<in> shuffles p q \<Longrightarrow> wire_step\<^sup>*\<^sup>* (p, q, w) ([], [], w @ z)"
proof (induction z arbitrary: p q w)
  case Nil
  then show ?case by simp
next
  case (Cons b z)
  then consider p' where "p = b # p'" "z \<in> shuffles p' q" | q' where "q = b # q'" "z \<in> shuffles p q'"
    using Cons_in_shuffles_iff [of b z p q] by (metis list.collapse)
  then show ?case
  proof cases
    case 1
    have "wire_step (p, q, w) (p', q, w @ [b])" unfolding 1(1) by (rule wire_step.first)
    then show ?thesis using Cons.IH [OF 1(2), of "w @ [b]"] by (simp add: converse_rtranclp_into_rtranclp)
  next
    case 2
    have "wire_step (p, q, w) (p, q', w @ [b])" unfolding 2(1) by (rule wire_step.second)
    then show ?thesis using Cons.IH [OF 2(2), of "w @ [b]"] by (simp add: converse_rtranclp_into_rtranclp)
  qed
qed

text \<open>The complete runs give exactly the shuffles of the two texts.\<close>

lemma wire_complete: "wire_step\<^sup>*\<^sup>* (p, q, []) ([], [], w) \<longleftrightarrow> w \<in> shuffles p q"
  using wire_shuffles [of "(p, q, [])" "([], [], w)" "[]"] wire_run [of w p q "[]"] by auto

lemma append_in_shuffles: "p @ q \<in> shuffles p q"
proof (induction p)
  case (Cons b p)
  then show ?case by (simp add: Cons_in_shuffles_leftI)
qed simp

text \<open>One frame within the other, right behind its first byte, makes both disappear.\<close>

lemma split_frame_lost:
  assumes "idle s" and "0x55 \<notin> set (tl (frame m1)) \<union> set (tl (frame m2))"
  shows "feed (thread_byte dump after) (0x55 # frame m2 @ tl (frame m1)) s = Inr s"
proof -
  let ?rx = "thread_byte dump after"
  have ww: "rx_state s = WW_STATE" using assms(1) by (simp add: idle_def)
  have a: "?rx 0x55 s = Inr (s\<lparr>rx_state := AA_STATE\<rparr>)"
    using ww by (simp add: thread_byte_def thread_round_def goto_state_def)
  have "?rx 0x55 (s\<lparr>rx_state := AA_STATE\<rparr>) = Inr (s\<lparr>rx_state := WW_STATE\<rparr>)"
    by (simp add: thread_byte_def thread_round_def goto_state_def)
  also have "s\<lparr>rx_state := WW_STATE\<rparr> = s" by (rule gateway.equality) (simp_all add: ww)
  finally have b: "?rx 0x55 (s\<lparr>rx_state := AA_STATE\<rparr>) = Inr s" .
  have "feed ?rx (0x55 # 0x55 # tl (frame m2) @ tl (frame m1)) s = feed ?rx (tl (frame m2) @ tl (frame m1)) s"
    by (simp only: feed.simps a b sum.case)
  also have "\<dots> = Inr s" using assms by (intro zb_link.noise_ignored) simp_all
  finally show ?thesis by (simp add: frame_def)
qed

end
