(* ===== verification/Zb_Race_Properties.thy ===== *)
theory Zb_Race_Properties
  imports Zb_Race
begin

text \<open>
  What the missing locks of \<^verbatim>\<open>zbclient.c\<close> mean for the kitchen light and for the serial line.
\<close>

section \<open>The reports in the running program\<close>

lemma find_dev_type:
  assumes "home_inv dump s" and "i < 200"
  shows "d_type (mxj_device (snd (find_dev nid s)) ! i) = d_type (mxj_device s ! i)"
proof -
  have wf: "table_wf s" using assms by (simp add: home_inv_def home_table_def data_inv_def)
  then have "i < length (mxj_device s)" using assms(2) by (simp add: table_wf_def)
  then show ?thesis by (simp add: find_dev_eq [OF wf] bump_heart_nth)
qed

text \<open>Motion sets the countdown, in the dark with a message, and otherwise when it runs.\<close>

lemma motion_sets:
  assumes s: "home_inv dump s" and rx: "motion_msg rx"
    and h: "humand s > 1 \<or> humand s \<le> 1 \<and> d_state (mxj_device s ! 2) ! 0 = 0"
  obtains t where "recieve_usart dump after rx 14 s = Inr t" "humand t = 120" "home_inv dump t"
    "d_type (mxj_device t ! 2) = d_type (mxj_device s ! 2)"
    "tx_bytes (out t) = tx_bytes (out s) @ (if humand s > 1 then [] else frame (ctrl_msg CHUFANG_ID 3 1 1 1))"
proof -
  let ?u = "snd (find_dev (uint XIAOMIRENTI_ID) (read_clock s))"
  have r: "home_inv dump (read_clock s)" using s by (rule home_inv_read_clock)
  note u = home_find [OF r, of "uint XIAOMIRENTI_ID"]
  have hu: "humand ?u = humand s" "tx_bytes (out ?u) = tx_bytes (out s)"
    using u(2,4) by simp_all
  have len: "2 < length (mxj_device ?u)"
    using u(1) by (simp add: home_inv_def home_table_def data_inv_def table_wf_def)
  have dev: "d_state (mxj_device (bump_heart 2 ?u) ! 2) = d_state (mxj_device s ! 2)"
    "d_type (mxj_device (bump_heart 2 ?u) ! 2) = d_type (mxj_device s ! 2)"
    using find_dev_state [OF r, of 2] find_dev_type [OF r, of 2] len by (simp_all add: bump_heart_nth)
  have b: "home_inv dump (bump_heart 2 ?u)" using u(1) by (rule home_inv_bump_heart)
  note run = recieve_motion [OF rx, of dump after s] rx_motion_eq [OF home_chufang [OF u(1)]]
  show thesis
  proof (cases "humand s > 1")
    case True
    then have "recieve_usart dump after rx 14 s = Inr ((bump_heart 2 ?u)\<lparr>humand := 120\<rparr>)"
      unfolding run using hu(1) by simp
    with True show thesis using b dev(2) hu(2) home_inv_humand [OF b, of 120]
      by (intro that [of "(bump_heart 2 ?u)\<lparr>humand := 120\<rparr>"]) simp_all
  next
    case False
    let ?v = "sent (ctrl_msg CHUFANG_ID 3 1 1 1) (bump_heart 2 ?u)"
    have "recieve_usart dump after rx 14 s = Inr (?v\<lparr>humand := 120\<rparr>)"
      unfolding run using hu(1) dev(1) h False by (simp del: ctrl_msg_3)
    with False show thesis
      using dev(2) hu(2) home_inv_humand [OF home_inv_sent [OF b], of 120]
      by (intro that [of "?v\<lparr>humand := 120\<rparr>"]) (simp_all del: ctrl_msg_3)
  qed
qed

lemma kitchen_first:
  assumes "home_inv dump (gw m)" and "d_type (mxj_device (gw m) ! 2) = 4"
  shows "\<exists>s. light_arrives rx (at m p R_wait) = Inr (at (m\<lparr>gw := s\<rparr>) p R_zero)"
proof -
  have r: "home_inv dump (read_clock (gw m))" using assms(1) by (rule home_inv_read_clock)
  then have len: "2 < length (mxj_device (gw m))"
    by (simp add: home_inv_def home_table_def data_inv_def table_wf_def)
  then have "d_type (mxj_device (bump_heart 2 (read_clock (gw m))) ! nat 2) = 4"
    using assms(2) by (simp add: bump_heart_nth)
  from light_arrives_known [OF home_chufang [OF r] _ this] show ?thesis by auto
qed

lemma before_countdown_runs:
  assumes "main_inv dump m"
  obtains n where "before_countdown m = Inr n" "humand (gw n) = humand (gw m)"
    "tx_bytes (out (gw n)) = tx_bytes (out (gw m))"
proof -
  have "\<exists>n. before_countdown m = Inr n \<and> tx_bytes (out (gw n)) = tx_bytes (out (gw m))"
  proof (cases "flag_hour m = 7499")
    case True
    with home_offline_check [of dump "gw m"] assms show ?thesis
      by (simp add: before_countdown_def on_gw_def main_inv_def usleep_emit)
  next
    case False
    with assms show ?thesis by (simp add: before_countdown_def on_gw_def main_inv_def usleep_emit)
  qed
  with that before_countdown_humand show thesis by blast
qed

lemma zb_init_kitchen:
  assumes "zb_init dump m"
  shows "home_inv dump (gw m)" "d_state (mxj_device (gw m) ! 2) ! 0 = 0" "d_type (mxj_device (gw m) ! 2) = 4"
    "humand (gw m) = 0"
proof -
  obtain e cl where e: "json_calloc e" "\<And>n. tm_int32 (cl n)" "dump_bound dump"
      "main_start dump e (initial cl) = Inr (None, gw m)"
    using assms by (auto simp: zb_init_def)
  have "main_setup e = None" using e(4) by (rule main_start_up)
  with e(1) obtain t where t: "main_start dump e (initial cl) = Inr (None, t)" "home_inv dump t"
      "mxj_device t = map mk_dev boot_list @ replicate 181 no_device" "humand t = 0"
    using e(2,3) by (rule main_start_home)
  have "gw m = t" using e(4) t(1) by simp
  with t show "home_inv dump (gw m)" "humand (gw m) = 0" "d_state (mxj_device (gw m) ! 2) ! 0 = 0"
    "d_type (mxj_device (gw m) ! 2) = 4"
    by (simp_all add: boot_list_def mk_dev_def no_device_def)
qed

definition motion_bytes :: "byte list" where
  "motion_bytes = [0x18, 13, 0x3b, 0x6b, 4, 6, 1, 0, 0, 0, 0, 0x18, 1, 0]"

lemma motion_bytes_msg: "motion_msg motion_bytes"
  by (simp add: motion_msg_def motion_bytes_def rx_id_def rx_cid_def join16_def)

text \<open>
  The store of \<^verbatim>\<open>humand--\<close> after the report of the kitchen light: \<^verbatim>\<open>main\<close> has tested a running countdown,
  the report stops it, and \<^verbatim>\<open>main\<close> goes on below zero.
\<close>

lemma below_zero:
  assumes "home_inv dump (gw m)" and "d_type (mxj_device (gw m) ! 2) = 4" and "humand (gw m) = 120"
  shows "\<exists>t. (race_step dump)\<^sup>*\<^sup>* (at m M_test1 R_wait) t \<and> humand_of t = - 1"
proof -
  obtain s where "light_arrives motion_bytes (at m M_load R_wait) = Inr (at (m\<lparr>gw := s\<rparr>) M_load R_zero)"
    using kitchen_first [OF assms(1,2)] by blast
  then have light: "race_step dump (at m M_load R_wait) (at (m\<lparr>gw := s\<rparr>) M_load R_zero)"
    by (intro race_step.light) simp_all
  let ?m = "m\<lparr>gw := s\<lparr>humand := 0\<rparr>\<rparr>" and ?n = "m\<lparr>gw := s\<lparr>humand := - 1\<rparr>\<rparr>"
  have a: "main_access (at ?m M_load R_json) = Inr (at ?m (M_store 0) R_json)"
    "main_access (at ?m (M_store 0) R_json) = Inr (at ?n M_sleep R_json)"
    by (simp_all add: main_access_def)
  have z: "rx_access dump (at (m\<lparr>gw := s\<rparr>) M_load R_zero) = Inr (at ?m M_load R_json)"
    by (simp add: rx_access_def)
  have "(race_step dump)\<^sup>*\<^sup>* (at ?m M_load R_json) (at ?n M_sleep R_json)"
    by (intro race_main [OF a(1)] race_main [OF a(2)] rtranclp.rtrancl_refl)
  then have "(race_step dump)\<^sup>*\<^sup>* (at (m\<lparr>gw := s\<rparr>) M_load R_zero) (at ?n M_sleep R_json)"
    by (intro race_serial [OF _ z]) simp_all
  with light have r: "(race_step dump)\<^sup>*\<^sup>* (at m M_load R_wait) (at ?n M_sleep R_json)"
    by (rule converse_rtranclp_into_rtranclp)
  have "main_access (at m M_test1 R_wait) = Inr (at m M_test2 R_wait)"
    "main_access (at m M_test2 R_wait) = Inr (at m M_load R_wait)"
    using assms(3) by (simp_all add: main_access_def)
  with r have "(race_step dump)\<^sup>*\<^sup>* (at m M_test1 R_wait) (at ?n M_sleep R_json)" by (blast intro: race_main)
  then show ?thesis by (intro exI [of _ "at ?n M_sleep R_json"]) simp
qed

section \<open>The countdown\<close>

text \<open>
  C11. With every access to \<^verbatim>\<open>humand\<close> a step of its own, the countdown of the running program stays within
  -1..120, and -1 is reached: the test and the decrement of \<^verbatim>\<open>main\<close> are not atomic, and a report of the
  kitchen light between them sets the countdown to 0.
\<close>

theorem race_countdown_bounds:
  assumes "zb_init dump m"
  shows "(\<forall>t. (race_step dump)\<^sup>*\<^sup>* (race_start m) t \<longrightarrow> - 1 \<le> humand_of t \<and> humand_of t \<le> 120) \<and>
    (\<exists>t. (race_step dump)\<^sup>*\<^sup>* (race_start m) t \<and> humand_of t = - 1)"
proof (intro conjI allI impI)
  fix t
  assume "(race_step dump)\<^sup>*\<^sup>* (race_start m) t"
  with assms have "race_inv t" by (blast intro: race.reachable_inv)
  then show "- 1 \<le> humand_of t" "humand_of t \<le> 120" by (simp_all add: race_inv_def)
next
  note k = zb_init_kitchen [OF assms]
  from k(1) motion_bytes_msg obtain s where s: "recieve_usart dump [] motion_bytes 14 (gw m) = Inr s"
      "humand s = 120" "home_inv dump s" "d_type (mxj_device s ! 2) = d_type (mxj_device (gw m) ! 2)"
    by (rule motion_sets [where after = "[]"]) (use k(2,4) in simp)
  let ?m = "m\<lparr>gw := s\<rparr>" and ?n = "m\<lparr>gw := emit [USleep 1000000] s, flag_hour := 1, jcount := 1\<rparr>"
  have "before_countdown ?m = Inr ?n"
    using assms by (simp add: zb_init_def before_countdown_def on_gw_def usleep_emit)
  then have "main_access (at ?m M_sleep R_wait) = Inr (at ?n M_test1 R_wait)" by (simp add: main_access_def)
  moreover obtain t where t: "(race_step dump)\<^sup>*\<^sup>* (at ?n M_test1 R_wait) t" "humand_of t = - 1"
    using below_zero [of dump ?n] home.I_emit [OF s(3)] s k(3) by auto
  ultimately have "(race_step dump)\<^sup>*\<^sup>* (at ?m M_sleep R_wait) t" by (blast intro: race_main)
  with motion_run [OF motion_bytes_msg s(1), of M_sleep] t(2)
  show "\<exists>t. (race_step dump)\<^sup>*\<^sup>* (race_start m) t \<and> humand_of t = - 1"
    unfolding race_start_def by (blast intro: rtranclp_trans)
qed

theorem race_countdown_bounds_witness:
  "\<exists>t. (race_step spaced)\<^sup>*\<^sup>* (race_start started_main) t \<and> humand_of t = - 1"
  using race_countdown_bounds [OF started_init] by blast

text \<open>
  A round of \<^verbatim>\<open>main\<close> and the two reports that touch the countdown are runs of the single accesses,
  whatever the other thread was about to do: what the other definitions take as one step is one of the
  possible interleavings.
\<close>

theorem atomic_is_run:
  "(main_tick m = Inr n \<longrightarrow> (race_step dump)\<^sup>*\<^sup>* (at m M_sleep q) (at n M_sleep q)) \<and>
   (motion_msg rx \<and> recieve_usart dump after rx 14 (gw m) = Inr s \<longrightarrow>
      (race_step dump)\<^sup>*\<^sup>* (at m p R_wait) (at (m\<lparr>gw := s\<rparr>) p R_wait)) \<and>
   (kitchen_msg rx len \<and> recieve_usart dump after rx len (gw m) = Inr s \<longrightarrow>
      (race_step dump)\<^sup>*\<^sup>* (at m p R_wait) (at (m\<lparr>gw := s\<rparr>) p R_wait))"
  using main_tick_run motion_run kitchen_run by blast

theorem atomic_is_run_witness:
  "\<exists>n s. main_tick started_main = Inr n \<and> recieve_usart spaced [] motion_bytes 14 (gw started_main) = Inr s \<and>
     (race_step spaced)\<^sup>*\<^sup>* (at started_main M_sleep R_find) (at n M_sleep R_find) \<and>
     (race_step spaced)\<^sup>*\<^sup>* (at started_main M_load R_wait) (at (started_main\<lparr>gw := s\<rparr>) M_load R_wait)"
proof -
  obtain n where n: "main_tick started_main = Inr n" using main_tick_inv [OF started_main_inv] by blast
  note k = zb_init_kitchen [OF started_init]
  from k(1) motion_bytes_msg obtain s where s: "recieve_usart spaced [] motion_bytes 14 (gw started_main) = Inr s"
    by (rule motion_sets [where after = "[]"]) (use k(2,4) in simp)
  from atomic_is_run n s motion_bytes_msg show ?thesis by blast
qed

text \<open>
  C16. A report of motion is lost when it comes between the load and the store of \<^verbatim>\<open>humand--\<close>: with the
  countdown at 2, the report is handled completely and starts the countdown anew at 120, but the store of
  \<^verbatim>\<open>main\<close> overwrites it, and its next three accesses send the message that switches the kitchen light
  off.
\<close>

theorem motion_lost:
  assumes "main_inv dump m" and "humand (gw m) = 2" and "motion_msg rx"
  shows "\<exists>s v. recieve_usart dump after rx 14 (gw m) = Inr s \<and> humand s = 120 \<and>
    (race_step dump)\<^sup>*\<^sup>* (at m M_load R_wait) (at (m\<lparr>gw := s\<rparr>) (M_store 2) R_wait) \<and>
    block (replicate 4 main_access) (at (m\<lparr>gw := s\<rparr>) (M_store 2) R_wait) = Inr v \<and>
    tx_bytes (out (gw (shared v))) = tx_bytes (out (gw m)) @ frame (ctrl_msg CHUFANG_ID 3 0 0 0)"
proof -
  have home: "home_inv dump (gw m)" and h: "humand (gw m) > 1" using assms(1,2) by (simp_all add: main_inv_def)
  obtain s where s: "recieve_usart dump after rx 14 (gw m) = Inr s" "humand s = 120" "home_inv dump s"
      "tx_bytes (out s) = tx_bytes (out (gw m)) @ (if humand (gw m) > 1 then [] else frame (ctrl_msg CHUFANG_ID 3 1 1 1))"
    by (rule motion_sets [OF home assms(3)]) (use h in blast)
  have "main_access (at m M_load R_wait) = Inr (at m (M_store 2) R_wait)"
    using assms(2) by (simp add: main_access_def)
  then have run: "(race_step dump)\<^sup>*\<^sup>* (at m M_load R_wait) (at (m\<lparr>gw := s\<rparr>) (M_store 2) R_wait)"
    using motion_run [OF assms(3) s(1)] by (rule race_main)
  let ?k = "m\<lparr>gw := s\<lparr>humand := 1\<rparr>\<rparr>"
  have "main_inv dump ?k" using assms(1) home_inv_humand [OF s(3), of 1] by (simp add: main_inv_def)
  then obtain n where n: "before_countdown ?k = Inr n" "humand (gw n) = humand (gw ?k)"
      "tx_bytes (out (gw n)) = tx_bytes (out (gw ?k))"
    by (rule before_countdown_runs)
  let ?v = "at (n\<lparr>gw := sent (ctrl_msg CHUFANG_ID 3 0 0 0) (gw n)\<rparr>) M_test2 R_wait"
  have acc: "main_access (at (m\<lparr>gw := s\<rparr>) (M_store 2) R_wait) = Inr (at ?k M_sleep R_wait)"
    "main_access (at ?k M_sleep R_wait) = Inr (at n M_test1 R_wait)"
    "main_access (at n M_test1 R_wait) = Inr (at n M_send R_wait)"
    "main_access (at n M_send R_wait) = Inr ?v"
    using n(1,2) by (simp_all add: main_access_def SendCtrl_sent on_shared_def on_gw_def del: ctrl_msg_3)
  have four: "replicate 4 c = [c, c, c, c]" for c :: "threads cmd" by (simp add: eval_nat_numeral)
  have "block (replicate 4 main_access) (at (m\<lparr>gw := s\<rparr>) (M_store 2) R_wait) = Inr ?v"
    by (simp only: four block.simps acc sum.case)
  moreover have "tx_bytes (out (gw (shared ?v))) = tx_bytes (out (gw m)) @ frame (ctrl_msg CHUFANG_ID 3 0 0 0)"
    using n(3) s(4) h by (simp del: ctrl_msg_3)
  ultimately show ?thesis using s(1,2) run by blast
qed

theorem motion_lost_witness:
  "\<exists>s v. humand s = 120 \<and>
    (race_step spaced)\<^sup>*\<^sup>* (at (started_main\<lparr>gw := started\<lparr>humand := 2\<rparr>\<rparr>) M_load R_wait)
      (at (started_main\<lparr>gw := s\<rparr>) (M_store 2) R_wait) \<and>
    block (replicate 4 main_access) (at (started_main\<lparr>gw := s\<rparr>) (M_store 2) R_wait) = Inr v \<and>
    tx_bytes (out (gw (shared v))) = tx_bytes (out started) @ frame (ctrl_msg CHUFANG_ID 3 0 0 0)"
proof -
  have "main_inv spaced (started_main\<lparr>gw := started\<lparr>humand := 2\<rparr>\<rparr>)"
    using started_main_inv home_inv_humand [OF started_run(2), of 2] by (simp add: main_inv_def)
  from motion_lost [OF this _ motion_bytes_msg, of "[]"] show ?thesis by (auto simp del: ctrl_msg_3)
qed

section \<open>The serial line\<close>

text \<open>
  Two threads in \<^verbatim>\<open>send_usart\<close> at the same time: what goes over the line is any shuffle of the two
  frames. One after the other, both messages reach a receiver of the protocol; but there is a shuffle with
  which the receiver takes neither of them, without any trace, when no byte behind the first is the start
  byte. The receiver is that of the gateway, which reads the same protocol as the coordinator at the other
  end; the code of the coordinator is not in the repository.
\<close>

theorem unlocked_sends:
  assumes "txbuf_bytes data1 len1 = Inr (frame m1)" "txbuf_bytes data2 len2 = Inr (frame m2)"
    and "msg_ok 200 m1" "msg_ok 200 m2" "0x55 \<notin> set (tl (frame m1)) \<union> set (tl (frame m2))"
    and "idle s"
  shows "(\<forall>w. wire_step\<^sup>*\<^sup>* (frame m1, frame m2, []) ([], [], w) \<longleftrightarrow> w \<in> shuffles (frame m1) (frame m2)) \<and>
    wire_step\<^sup>*\<^sup>* (frame m1, frame m2, []) ([], [], frame m1 @ frame m2) \<and>
    feed (thread_byte dump after) (frame m1 @ frame m2) s = block [deliver dump after m1, deliver dump after m2] s \<and>
    (\<exists>w. wire_step\<^sup>*\<^sup>* (frame m1, frame m2, []) ([], [], w) \<and> feed (thread_byte dump after) w s = Inr s)"
proof (intro conjI allI)
  show "wire_step\<^sup>*\<^sup>* (frame m1, frame m2, []) ([], [], w) \<longleftrightarrow> w \<in> shuffles (frame m1) (frame m2)" for w
    by (rule wire_complete)
  show "wire_step\<^sup>*\<^sup>* (frame m1, frame m2, []) ([], [], frame m1 @ frame m2)"
    unfolding wire_complete by (rule append_in_shuffles)
  show "feed (thread_byte dump after) (frame m1 @ frame m2) s = block [deliver dump after m1, deliver dump after m2] s"
    using zb_link.stream_of_frames [OF assms(6), of "[([], m1), ([], m2)]" dump after] assms(3,4) by simp
  have "0x55 # frame m2 @ tl (frame m1) \<in> shuffles (0x55 # tl (frame m1)) (frame m2)"
    using append_in_shuffles [of "frame m2" "tl (frame m1)"]
    by (intro Cons_in_shuffles_leftI) (simp add: shuffles_commutes)
  then have "0x55 # frame m2 @ tl (frame m1) \<in> shuffles (frame m1) (frame m2)" by (simp add: frame_def)
  then show "\<exists>w. wire_step\<^sup>*\<^sup>* (frame m1, frame m2, []) ([], [], w) \<and> feed (thread_byte dump after) w s = Inr s"
    unfolding wire_complete using split_frame_lost [OF assms(6,5)] by blast
qed

theorem unlocked_sends_witness:
  "\<exists>w. wire_step\<^sup>*\<^sup>* (frame [0, 6, 0x8d, 0xc0, 0, 0, 0], frame [0, 6, 0x8d, 0xc0, 1, 1, 1], []) ([], [], w) \<and>
     feed (thread_byte spaced []) w started = Inr started"
proof -
  have "txbuf_bytes [0, 6, 0x8d, 0xc0, k, k, k] 7 = Inr (frame [0, 6, 0x8d, 0xc0, k, k, k])" for k
    using txbuf_bytes_frame [of 7 "[0, 6, 0x8d, 0xc0, k, k, k]"] by simp
  moreover have "msg_ok 200 [0, 6, 0x8d, 0xc0, k, k, k]" for k by (simp add: msg_ok_def)
  moreover have "0x55 \<notin> set (tl (frame [0, 6, 0x8d, 0xc0, 0, 0, 0])) \<union> set (tl (frame [0, 6, 0x8d, 0xc0, 1, 1, 1]))"
    by (simp add: frame_def)
  ultimately show ?thesis using unlocked_sends [OF _ _ _ _ _ started_idle, where dump = spaced and after = "[]"] by blast
qed

end
