(* ===== verification/Zb2_Home.thy ===== *)
theory Zb2_Home
  imports Zb_Home Zb2_Receive
begin

text \<open>
  \<^verbatim>\<open>main\<close> of \<^verbatim>\<open>zbclient2.c\<close>: the table of known devices with their GBK names, the start, one round of the
  loop; and the invariant of the running program, which has the shape of that of \<^verbatim>\<open>zbclient.c\<close>.
\<close>

section \<open>Start and loop\<close>

definition boot_lights_zb2 :: "gateway cmd" where
  "boot_lights_zb2 = block
     [reg_dev KETING_ID_zb2 4 1 n_keting_zb2,
      reg_dev CANTING_ID 4 1 n_canting_zb2,
      reg_dev CHUFANG_ID 4 1 n_chufang_zb2,
      reg_dev MENTING_ID 4 1 n_menting_zb2,
      reg_dev GUODAO_ID_zb2 4 2 n_guodao_zb2,
      reg_dev ZHUWO_ID 4 1 n_zhuwo_zb2,
      reg_dev CIWO_ID 4 1 n_ciwo_zb2]"

definition boot_sensors_zb2 :: "gateway cmd" where
  "boot_sensors_zb2 = block
     [reg_dev XMKG_ZHU_ID 14 1 n_xmkg_zhu_zb2,
      reg_dev XMKG_CI_ID 14 1 n_xmkg_ci_zb2,
      reg_dev XMMENCI_ID 10 1 n_xmmenci_zb2,
      reg_dev XIAOMIRENTI_ID 3 1 n_xiaomirenti_zb2,
      reg_dev XMKG_WAI_ID 14 1 n_xmkg_wai_zb2,
      reg_dev XMLOUSHUI_CIWO_ID 10 1 n_loushui_ciwo_zb2,
      reg_dev XMLOUSHUI_CHUFANG_ID 10 1 n_loushui_chufang_zb2,
      reg_dev POWER_CIWO_ID 6 1 n_power_ciwo_zb2]"

definition boot_curtains_zb2 :: "gateway cmd" where
  "boot_curtains_zb2 = block
     [reg_dev CHUANGLIAN_ZHUWO_ID 4 3 n_chuanglian_zhuwo_zb2,
      reg_dev CHUANGLIAN_KETING1_ID 4 2 n_chuanglian_keting1_zb2,
      reg_dev XMKG_CL_KETING1_ID 4 2 n_xmkg_cl_keting1_zb2,
      reg_dev XMKG_CL_KETING2_ID 4 2 n_xmkg_cl_keting2_zb2]"

definition main_boot_zb2 :: "(json \<Rightarrow> string) \<Rightarrow> gateway cmd" where
  "main_boot_zb2 dump = block
     [modify read_clock,
      reading (\<lambda>s. post_alarm (alarm_text_zb2 t_qidong_zb2 (tblock s))),
      boot_lights_zb2, boot_sensors_zb2, boot_curtains_zb2,
      MXJ_GetStateMessage 0xffff,
      build_json_zb2 dump]"

text \<open>The set-up calls and their early returns are those of \<^verbatim>\<open>zbclient.c\<close>.\<close>

definition main_start_zb2 ::
    "(json \<Rightarrow> string) \<Rightarrow> setup_env \<Rightarrow> gateway \<Rightarrow> (c_error \<times> gateway) + int option \<times> gateway" where
  "main_start_zb2 dump e s =
     (let s = s\<lparr>json_str := (if json_calloc e then Some [] else None)\<rparr>
      in case main_setup e of
           Some r \<Rightarrow> Inr (Some r, s)
         | None \<Rightarrow> (case main_boot_zb2 dump s of Inl f \<Rightarrow> Inl f | Inr t \<Rightarrow> Inr (None, t)))"

definition offline_text_zb2 :: "string \<Rightarrow> u16 \<Rightarrow> tm \<Rightarrow> string" where
  "offline_text_zb2 nm nid t =
     alarm_text_zb2 (t_shebei_zb2 @ nm @ '' ID:'' @ dec (uint nid) @ t_lixian_zb2) t"

definition offline_dev_zb2 :: "nat \<Rightarrow> gateway cmd" where
  "offline_dev_zb2 i = reading (\<lambda>s.
     let d = mxj_device s ! i
     in if d_heart d = 0 \<and> leak_sensor (d_id d)
        then (case d_name d of
                None \<Rightarrow> fault NullDeref
              | Some nm \<Rightarrow> post_alarm (offline_text_zb2 nm (d_id d) (tblock s)))
        else modify (\<lambda>s. s\<lparr>mxj_device := (mxj_device s)[i := d\<lparr>d_heart := 0\<rparr>]\<rparr>))"

definition offline_check_zb2 :: "gateway cmd" where
  "offline_check_zb2 = reading (\<lambda>s. block (map offline_dev_zb2 [0..<unat (devsize s)]))"

definition main_tick_zb2 :: "main_t cmd" where
  "main_tick_zb2 = block
     [modify (\<lambda>m. m\<lparr>flag_hour := flag_hour m + 1\<rparr>),
      reading (\<lambda>m. if flag_hour m \<ge> 7500
                   then block [modify (\<lambda>m. m\<lparr>flag_hour := 0\<rparr>), on_gw offline_check_zb2]
                   else skip),
      modify (\<lambda>m. m\<lparr>jcount := jcount m + 1\<rparr>),
      reading (\<lambda>m. if jcount m > 20 then modify (\<lambda>m. m\<lparr>jcount := 0\<rparr>) else skip),
      on_gw (usleep 1000000),
      on_gw countdown]"

section \<open>The table after the start\<close>

definition boot_list_zb2 :: "(u16 \<times> byte \<times> byte \<times> string) list" where
  "boot_list_zb2 =
     [(KETING_ID_zb2, 4, 1, n_keting_zb2), (CANTING_ID, 4, 1, n_canting_zb2),
      (CHUFANG_ID, 4, 1, n_chufang_zb2), (MENTING_ID, 4, 1, n_menting_zb2),
      (GUODAO_ID_zb2, 4, 2, n_guodao_zb2), (ZHUWO_ID, 4, 1, n_zhuwo_zb2), (CIWO_ID, 4, 1, n_ciwo_zb2),
      (XMKG_ZHU_ID, 14, 1, n_xmkg_zhu_zb2), (XMKG_CI_ID, 14, 1, n_xmkg_ci_zb2),
      (XMMENCI_ID, 10, 1, n_xmmenci_zb2), (XIAOMIRENTI_ID, 3, 1, n_xiaomirenti_zb2),
      (XMKG_WAI_ID, 14, 1, n_xmkg_wai_zb2), (XMLOUSHUI_CIWO_ID, 10, 1, n_loushui_ciwo_zb2),
      (XMLOUSHUI_CHUFANG_ID, 10, 1, n_loushui_chufang_zb2), (POWER_CIWO_ID, 6, 1, n_power_ciwo_zb2),
      (CHUANGLIAN_ZHUWO_ID, 4, 3, n_chuanglian_zhuwo_zb2),
      (CHUANGLIAN_KETING1_ID, 4, 2, n_chuanglian_keting1_zb2),
      (XMKG_CL_KETING1_ID, 4, 2, n_xmkg_cl_keting1_zb2), (XMKG_CL_KETING2_ID, 4, 2, n_xmkg_cl_keting2_zb2)]"

definition boot_names_zb2 :: "(u16 \<times> string option) list" where
  "boot_names_zb2 = map (id_name \<circ> mk_dev) boot_list_zb2"

lemma boot_names_zb2_list: "boot_names_zb2 = map (\<lambda>(nid, _, _, nm). (nid, Some nm)) boot_list_zb2"
  by (simp add: boot_names_zb2_def boot_list_zb2_def id_name_def mk_dev_def)

lemma length_boot_names_zb2 [simp]: "length boot_names_zb2 = 19"
  by (simp add: boot_names_zb2_def boot_list_zb2_def)

lemma boot_blocks_zb2: "block [boot_lights_zb2, boot_sensors_zb2, boot_curtains_zb2] s = reg_all boot_list_zb2 s"
  by (simp add: reg_all_def boot_lights_zb2_def boot_sensors_zb2_def boot_curtains_zb2_def boot_list_zb2_def
      split: sum.split)

section \<open>Room for the rendered table\<close>

definition dump_bound_zb2 :: "(json \<Rightarrow> string) \<Rightarrow> bool" where
  "dump_bound_zb2 dump \<longleftrightarrow>
     (\<forall>nm d. plain nm \<longrightarrow>
        length (dump (dev_obj_zb2 nm d)) \<le> 76 + length nm + (if name_field_zb2 (d_id d) = [] then 0 else 22))"

definition text_weight_zb2 :: "u16 \<times> string option \<Rightarrow> nat" where
  "text_weight_zb2 p = 77 + length (the (snd p)) + (if name_field_zb2 (fst p) = [] then 0 else 22)"

lemma length_dev_text_zb2:
  assumes "dump_bound_zb2 dump" and "plain_name (id_name d)"
  shows "length (dev_text (dump \<circ> reroom) d) + 1 \<le> text_weight_zb2 (id_name d)"
proof -
  have "plain (the (d_name d))"
    using assms(2) by (auto simp: plain_name_def id_name_def split: option.splits)
  with assms(1) have "length (dump (dev_obj_zb2 (the (d_name d)) d)) \<le>
      76 + length (the (d_name d)) + (if name_field_zb2 (d_id d) = [] then 0 else 22)"
    unfolding dump_bound_zb2_def by blast
  then show ?thesis by (simp add: dev_text_def text_weight_zb2_def id_name_def reroom_dev_obj)
qed

lemma boot_weight_zb2: "sum_list (map text_weight_zb2 boot_names_zb2) \<le> 1986"
  by (simp add: boot_names_zb2_list boot_list_zb2_def text_weight_zb2_def name_field_zb2_def name_texts_zb2)

lemma boot_plain_zb2: "list_all plain_name boot_names_zb2"
  by (simp add: boot_names_zb2_list boot_list_zb2_def plain_name_def plain_def name_texts_zb2)

section \<open>The invariant of the running program\<close>

definition home_zb2 :: "(json \<Rightarrow> string) \<Rightarrow> gateway \<Rightarrow> bool" where
  "home_zb2 dump s \<longleftrightarrow> dump_bound_zb2 dump \<and> home_table boot_names_zb2 s"

text \<open>The text of the page.\<close>

definition json_text_zb2 :: "(json \<Rightarrow> string) \<Rightarrow> gateway \<Rightarrow> string" where
  "json_text_zb2 dump = json_text (dump \<circ> reroom)"

lemma home_zb2_live: "home_zb2 dump s \<Longrightarrow> map id_name (live_devs s) = boot_names_zb2"
  by (simp add: home_zb2_def home_table_def live_devs_def take_map [symmetric])

lemma home_zb2_fits: "home_zb2 dump s \<Longrightarrow> length (json_text_zb2 dump s) < JSON_SIZE"
proof -
  assume s: "home_zb2 dump s"
  have w: "plain_name (id_name d) \<Longrightarrow> length (dev_text (dump \<circ> reroom) d) + 1 \<le> text_weight_zb2 (id_name d)" for d
    using s length_dev_text_zb2 by (simp add: home_zb2_def)
  show ?thesis
    unfolding json_text_zb2_def
    by (rule json_fits_weight [OF w]) (simp_all add: boot_weight_zb2 boot_plain_zb2 home_zb2_live [OF s])
qed

lemma home_build_json_zb2:
  assumes s: "home_zb2 dump s"
  shows "build_json_zb2 dump s = Inr (s\<lparr>json_str := Some (json_text_zb2 dump s)\<rparr>)"
proof -
  obtain j where "json_str s = Some j" using s by (auto simp: home_zb2_def home_table_def)
  moreover have "list_all named (live_devs s)"
    using boot_plain_zb2 home_zb2_live [OF s] by (intro named_by_id_name) simp
  moreover have "table_wf s" using s by (simp add: home_zb2_def home_table_def data_inv_def)
  ultimately show ?thesis
    using home_zb2_fits [OF s] build_json_eq [of s j "dump \<circ> reroom"] by (simp add: build_json_zb2_eq json_text_zb2_def)
qed

lemma home_zb2_build: "triple (home_zb2 dump) (build_json (dump \<circ> reroom)) (home_zb2 dump) no_fault"
  unfolding triple_def
proof (intro allI impI)
  fix s
  assume s: "home_zb2 dump s"
  then have "home_zb2 dump (s\<lparr>json_str := Some (json_text_zb2 dump s)\<rparr>)"
    using home_zb2_fits [OF s] data_inv_json [of s "json_text_zb2 dump s"] by (simp add: home_zb2_def home_table_def)
  then show "case build_json (dump \<circ> reroom) s of Inl (e, t) \<Rightarrow> no_fault e t | Inr t \<Rightarrow> home_zb2 dump t"
    using home_build_json_zb2 [OF s] by (simp add: build_json_zb2_eq)
qed

lemma home_zb2_register:
  "triple (\<lambda>s. home_zb2 dump s \<and> P s) (block [add_xiaomi nid ty, build_json d]) (home_zb2 dump) any_fault"
  by (rule triple_conseq [OF home_table_register [of boot_names_zb2 P nid ty d]]) (auto simp: home_zb2_def)

lemma home_zb2_data: "home_zb2 dump s \<Longrightarrow> data_inv s"
  by (auto simp: home_zb2_def intro: home_table_data)

interpretation home_zb2: handler_inv "home_zb2 dump" "dump \<circ> reroom" no_fault for dump
  by unfold_locales
    (rule home_zb2_build home_zb2_register | erule home_zb2_data | simp add: home_zb2_def home_table_read_clock
      home_table_emit home_table_set_state home_table_humand home_table_bump_heart)+

lemma home_zb2_sent: "home_zb2 dump s \<Longrightarrow> home_zb2 dump (sent m s)"
  by (simp add: sent_def home_zb2.I_emit home_zb2.I_read_clock)

section \<open>The start\<close>

lemma main_start_zb2_up: "main_start_zb2 dump e s = Inr (None, t) \<Longrightarrow> main_setup e = None"
  by (auto simp: main_start_zb2_def Let_def split: option.splits sum.splits)

lemma main_start_zb2_home:
  assumes e: "json_calloc e" "main_setup e = None" and cl: "\<And>n. tm_int32 (cl n)" and dump: "dump_bound_zb2 dump"
  obtains t where "main_start_zb2 dump e (initial cl) = Inr (None, t)" "home_zb2 dump t" "rx_state t = WW_STATE"
    "mxj_device t = map mk_dev boot_list_zb2 @ replicate 181 no_device" "humand t = 0"
    "json_str t = Some (json_text_zb2 dump t)"
    "out t = Post (alarm_text_zb2 t_qidong_zb2 (cl 0)) # map TxByte (frame (query_msg 5 0xffff))"
proof -
  let ?a = "posted (alarm_text_zb2 t_qidong_zb2 (cl 0)) cl"
  have len: "length (alarm_text_zb2 t_qidong_zb2 (cl 0)) < 200"
    using length_alarm_text_zb2 [OF cl, of t_qidong_zb2 0] by (simp add: alarm_texts_zb2)
  have ps: "length boot_list_zb2 = 19" "distinct (map (\<lambda>p. uint (fst p)) boot_list_zb2)"
    by (simp_all add: boot_list_zb2_def)
  obtain b where b: "reg_all boot_list_zb2 ?a = Inr b" "only_table ?a b"
      "home_table (map (id_name \<circ> mk_dev) boot_list_zb2) b"
      "mxj_device b = map mk_dev boot_list_zb2 @ replicate 181 no_device"
    by (rule boot_home [OF posted_booting [OF cl] ps])
  from b(2) obtain ds n where bt: "b = ?a\<lparr>mxj_device := ds, devsize := n\<rparr>" unfolding only_table_def by blast
  have home: "home_zb2 dump b" using b(3) dump by (simp add: home_zb2_def boot_names_zb2_def)
  let ?c = "sent (query_msg 5 0xffff) b"
  let ?t = "?c\<lparr>json_str := Some (json_text_zb2 dump ?c)\<rparr>"
  have build: "build_json_zb2 dump ?c = Inr ?t" using home by (intro home_build_json_zb2 home_zb2_sent)
  have "main_boot_zb2 dump ((initial cl)\<lparr>json_str := Some []\<rparr>) =
      block [MXJ_GetStateMessage 0xffff, build_json_zb2 dump] b"
    using len b(1) boot_blocks_zb2 [of ?a] block_append [of "[boot_lights_zb2, boot_sensors_zb2, boot_curtains_zb2]"
        "[MXJ_GetStateMessage 0xffff, build_json_zb2 dump]" ?a]
    by (simp add: main_boot_zb2_def posted_def initial_def post_alarm_def)
  then have "main_start_zb2 dump e (initial cl) = Inr (None, ?t)"
    using build e by (simp add: main_start_zb2_def tx_simps)
  moreover have "home_zb2 dump ?t"
    using triple_Inr [OF home_zb2_build home_zb2_sent [OF home]] build by (simp add: build_json_zb2_eq)
  ultimately show thesis
    using that [of ?t] b(4) by (simp add: bt posted_def initial_def json_text_zb2_def json_text_def live_devs_def)
qed

section \<open>The rounds of the loop\<close>

lemma home_zb2_offline_dev: "triple (home_zb2 dump) (offline_dev_zb2 i) (home_zb2 dump) any_fault"
proof (rule tripleI)
  fix s t
  assume s: "home_zb2 dump s" and t: "offline_dev_zb2 i s = Inr t"
  have "home_table boot_names_zb2 (s\<lparr>mxj_device := (mxj_device s)[i := (mxj_device s ! i)\<lparr>d_heart := 0\<rparr>]\<rparr>)"
    using s by (intro home_table_entry) (auto simp: home_zb2_def id_name_def dev_ok_def)
  with s t home_zb2.I_emit [OF s] show "home_zb2 dump t"
    by (auto simp: offline_dev_zb2_def Let_def post_alarm_def home_zb2_def split: if_splits option.splits)
qed simp

lemma home_zb2_countdown: "triple (home_zb2 dump) countdown (home_zb2 dump) any_fault"
proof (rule tripleI)
  fix s t
  assume s: "home_zb2 dump s" and t: "countdown s = Inr t"
  have h: "0 \<le> humand s" "humand s \<le> 120" using s by (simp_all add: home_zb2_def home_table_def data_inv_def)
  consider "humand s = 1" | "humand s > 1" | "humand s \<le> 0" by linarith
  then show "home_zb2 dump t"
    using t s h home_zb2.I_humand [OF s, of "humand s - 1"] home_zb2.I_humand [OF home_zb2_sent [OF s], of 0]
    by cases (auto simp: countdown_eq)
qed simp

definition main_inv_zb2 :: "(json \<Rightarrow> string) \<Rightarrow> main_t \<Rightarrow> bool" where
  "main_inv_zb2 dump m \<longleftrightarrow> home_zb2 dump (gw m) \<and> 0 \<le> flag_hour m \<and> flag_hour m < 7500 \<and> 0 \<le> jcount m \<and> jcount m \<le> 20"

lemma main_tick_zb2_inv: "main_inv_zb2 dump m \<Longrightarrow> main_tick_zb2 m = Inr n \<Longrightarrow> main_inv_zb2 dump n"
proof -
  assume m: "main_inv_zb2 dump m" and n: "main_tick_zb2 m = Inr n"
  have check: "triple (home_zb2 dump) offline_check_zb2 (home_zb2 dump) any_fault"
    unfolding offline_check_zb2_def
    by (intro triple_reading_inv triple_block_inv) (simp add: list_all_iff home_zb2_offline_dev)
  have keeps: "home_zb2 dump s \<Longrightarrow> countdown (emit [USleep k] s) = Inr t \<Longrightarrow> home_zb2 dump t"
    "home_zb2 dump s \<Longrightarrow> offline_check_zb2 s = Inr u \<Longrightarrow> countdown (emit [USleep k] u) = Inr t \<Longrightarrow> home_zb2 dump t"
    for s t u k
    using triple_Inr [OF check] triple_Inr [OF home_zb2_countdown] home_zb2.I_emit by blast+
  show ?thesis
    using m n by (auto simp: main_tick_zb2_def main_inv_zb2_def on_gw_def usleep_emit split: sum.splits if_splits intro: keeps)
qed

end
