(* ===== verification/Zb2_Http.thy ===== *)
theory Zb2_Http
  imports Zb_Http Zb2_Home
begin

text \<open>
  The web side of \<^verbatim>\<open>zbclient2.c\<close>. It differs from that of \<^verbatim>\<open>zbclient.c\<close> in that the sender of a chat
  message is not checked, so no branch returns from within the loop, in the GBK texts of the commands, and
  in the messages for two lights of the corridor. The commands are no UTF-8 text, so what libxml2 hands out
  never is one.
\<close>

section \<open>Commands in JSON\<close>

definition named_id_zb2 :: "string option \<Rightarrow> u16 \<Rightarrow> u16" where
  "named_id_zb2 nm nid =
     (let q = (\<lambda>t. Some ([CHR 0x22] @ t @ [CHR 0x22]))
      in if nm = q ''KETING_ID'' then KETING_ID_zb2
         else if nm = q ''CANTING_ID'' then CANTING_ID
         else if nm = q ''CHUFANG_ID'' then CHUFANG_ID
         else if nm = q ''MENTING_ID'' then MENTING_ID
         else if nm = q ''GUODAO_ID'' then GUODAO_ID_zb2
         else if nm = q ''ZHUWO_ID'' then ZHUWO_ID
         else if nm = q ''CIWO_ID'' then CIWO_ID
         else nid)"

definition json_command_zb2 :: "'j json_lib \<Rightarrow> 'j option \<Rightarrow> gateway cmd" where
  "json_command_zb2 jl my_object =
     (let get = object_get_ex jl my_object;
          nid = word_of_int (get_int jl (get ''devid''));
          state11 = ucast (word_of_int (get_int jl (get ''state1'')) :: u16);
          state22 = ucast (word_of_int (get_int jl (get ''state2'')) :: u16);
          state33 = ucast (word_of_int (get_int jl (get ''state3'')) :: u16);
          name = to_json_string jl (get ''name'');
          q = (\<lambda>t. [CHR 0x22] @ t @ [CHR 0x22])
      in block
        [modify (\<lambda>s. s\<lparr>post_type := 1\<rparr>),
         case to_json_string jl (get ''type'') of
           None \<Rightarrow> fault NullDeref
         | Some type \<Rightarrow>
             if type = q ''control_down''
             then (if name = None then fault NullDeref
                   else MXJ_SendCtrlMessage (named_id_zb2 name nid) 3 state11 state22 state33)
             else if type = q ''register_ok'' then MXJ_SendRegisterMessage nid MXJ_REGISTER_OK
             else if type = q ''register_failed'' then MXJ_SendRegisterMessage nid MXJ_REGISTER_FAILED
             else if type = q ''ask_state'' then MXJ_GetStateMessage nid
             else if type = q ''any_data'' then MXJ_SendCtrlMessage nid 3 state11 state22 state33
             else skip])"

section \<open>Chat messages in XML\<close>

definition wechat_light_zb2 :: "string \<Rightarrow> gateway cmd option" where
  "wechat_light_zb2 uri =
     (if uri = w_kai_keting_zb2 then Some (MXJ_SendCtrlMessage KETING_ID_zb2 3 1 1 1)
      else if uri = w_guan_keting_zb2 then Some (MXJ_SendCtrlMessage KETING_ID_zb2 3 0 0 0)
      else if uri = w_kai_canting_zb2 then Some (MXJ_SendCtrlMessage CANTING_ID 3 1 0 0)
      else if uri = w_guan_canting_zb2 then Some (MXJ_SendCtrlMessage CANTING_ID 3 0 0 0)
      else if uri = w_kai_chufang_zb2 then Some (MXJ_SendCtrlMessage CHUFANG_ID 3 1 0 0)
      else if uri = w_guan_chufang_zb2 then Some (MXJ_SendCtrlMessage CHUFANG_ID 3 0 0 0)
      else if uri = w_kai_menting_zb2 then Some (MXJ_SendCtrlMessage MENTING_ID 3 1 0 0)
      else if uri = w_guan_menting_zb2 then Some (MXJ_SendCtrlMessage MENTING_ID 3 0 0 0)
      else if uri = w_kai_zhuwo_zb2 then Some (MXJ_SendCtrlMessage ZHUWO_ID 3 1 0 0)
      else if uri = w_guan_zhuwo_zb2 then Some (MXJ_SendCtrlMessage ZHUWO_ID 3 0 0 0)
      else if uri = w_kai_ciwo_zb2 then Some (MXJ_SendCtrlMessage CIWO_ID 3 1 0 0)
      else if uri = w_guan_ciwo_zb2 then Some (MXJ_SendCtrlMessage CIWO_ID 3 0 0 0)
      else if uri = w_kai_guodao_zb2 then Some (MXJ_SendCtrlMessage GUODAO_ID_zb2 3 2 1 2)
      else if uri = w_guan_guodao_zb2 then Some (MXJ_SendCtrlMessage GUODAO_ID_zb2 3 2 0 2)
      else if uri = w_kai_cesuo_zb2 then Some (MXJ_SendCtrlMessage GUODAO_ID_zb2 3 1 2 2)
      else if uri = w_guan_cesuo_zb2 then Some (MXJ_SendCtrlMessage GUODAO_ID_zb2 3 0 2 2)
      else None)"

definition wechat_other_zb2 :: "string \<Rightarrow> gateway cmd option" where
  "wechat_other_zb2 uri =
     (if uri = w_kai_chazuo_zb2 then Some (MXJ_SendCtrlMessage POWER_CIWO_ID 1 1 2 2)
      else if uri = w_guan_chazuo_zb2 then Some (MXJ_SendCtrlMessage POWER_CIWO_ID 1 0 2 2)
      else if uri = w_guan_zhuwo_chuanglian_zb2 then Some (zhuwo_curtain 0 0 1)
      else if uri = w_kai_zhuwo_chuanglian_zb2 then Some (zhuwo_curtain 1 0 0)
      else if uri = w_guan_keting_shalian_zb2 then Some (keting_curtain 0 1 2 2 0 0 2 2)
      else if uri = w_kai_keting_shalian_zb2 then Some (keting_curtain 1 0 2 2 0 0 2 2)
      else if uri = w_guan_keting_bulian_zb2 then Some (keting_curtain 2 2 0 1 2 2 0 0)
      else if uri = w_kai_keting_bulian_zb2 then Some (keting_curtain 2 2 1 0 2 2 0 0)
      else None)"

definition wechat_command_zb2 :: "string \<Rightarrow> gateway cmd option" where
  "wechat_command_zb2 uri = (case wechat_light_zb2 uri of Some c \<Rightarrow> Some c | None \<Rightarrow> wechat_other_zb2 uri)"

definition xml_content_zb2 :: "xml_vars \<Rightarrow> string \<Rightarrow> gateway cmd" where
  "xml_content_zb2 v uri =
     (case wechat_command_zb2 uri of
        Some c \<Rightarrow> block [c, write_strxml v uri]
      | None \<Rightarrow> write_strxml v help_text_zb2)"

fun xml_loop_zb2 :: "(string \<times> string option) list \<Rightarrow> xml_vars \<Rightarrow> gateway \<Rightarrow> (c_error \<times> gateway) + xml_vars \<times> gateway" where
  "xml_loop_zb2 [] v s = Inr (v, s)"
| "xml_loop_zb2 ((name, content) # cs) v s =
     (if name = ''CreateTime'' then xml_loop_zb2 cs (v\<lparr>v_uri := Some content\<rparr>) s
      else if name = ''FromUserName''
      then xml_loop_zb2 cs (v\<lparr>v_uri := Some content, v_from := Some content\<rparr>) s
      else if name = ''ToUserName''
      then xml_loop_zb2 cs (v\<lparr>v_uri := Some content, v_to := Some content\<rparr>) s
      else if name = ''MsgType'' then xml_loop_zb2 cs (v\<lparr>v_uri := Some content\<rparr>) s
      else if name = ''Content''
      then (case content of
              None \<Rightarrow> Inl (NullDeref, s)
            | Some u \<Rightarrow>
                (case xml_content_zb2 (v\<lparr>v_uri := Some content\<rparr>) u s of
                   Inl f \<Rightarrow> Inl f
                 | Inr s \<Rightarrow> xml_loop_zb2 cs (v\<lparr>v_uri := Some content\<rparr>) s))
      else xml_loop_zb2 cs v s)"

definition xml_message_zb2 :: "xml_lib \<Rightarrow> string \<Rightarrow> gateway cmd" where
  "xml_message_zb2 xml re_body s =
     (let s = s\<lparr>post_type := 2\<rparr>
      in case xml re_body of
           NoDoc \<Rightarrow> Inr s
         | NoRoot \<Rightarrow> Inr s
         | Children cs \<Rightarrow>
             (case xml_loop_zb2 cs no_vars s of
                Inl f \<Rightarrow> Inl f
              | Inr (v, s) \<Rightarrow> if v_uri v = None then Inl (WildPointer, s) else Inr s))"

section \<open>answer\_to\_connection\<close>

definition handle_body_zb2 :: "'j json_lib \<Rightarrow> xml_lib \<Rightarrow> http_env \<Rightarrow> string \<Rightarrow> gateway cmd" where
  "handle_body_zb2 jl xml env re_body s =
     (if re_body = [] then Inr s
      else if \<not> cstr_ends (re_body @ heap_after env) then Inl (OverRead, s)
      else (let my_object = tokener_parse jl (cstr (re_body @ heap_after env));
                txt = to_json_string jl my_object
            in if txt \<noteq> None \<and> txt \<noteq> Some ''null'' then json_command_zb2 jl my_object s
               else xml_message_zb2 xml re_body s))"

definition post_upload_zb2 :: "'j json_lib \<Rightarrow> xml_lib \<Rightarrow> http_env \<Rightarrow> request \<Rightarrow> gateway cmd" where
  "post_upload_zb2 jl xml env rq s =
     (case content_length rq of
        None \<Rightarrow> Inr (s\<lparr>post_type := 0\<rparr>)
      | Some len_text \<Rightarrow>
          (case copy_body env rq len_text of
             Inl e \<Rightarrow> Inl (e, s)
           | Inr re_body \<Rightarrow> handle_body_zb2 jl xml env re_body s))"

definition post_request_zb2 ::
    "'j json_lib \<Rightarrow> xml_lib \<Rightarrow> http_env \<Rightarrow> request \<Rightarrow> con_info \<Rightarrow> gateway \<Rightarrow> (c_error \<times> gateway) + answer \<times> gateway" where
  "post_request_zb2 jl xml env rq con s =
     (let s = (if rq_url rq = ''/zbClient/API/permit'' then s\<lparr>permitjoin := 1\<rparr> else s)
      in if upload_size rq \<noteq> 0
         then (case post_upload_zb2 jl xml env rq s of
                 Inl f \<Rightarrow> Inl f
               | Inr s \<Rightarrow> Inr (\<lparr>a_ret = MHD_YES, a_con = Some con, a_left = 0\<rparr>, s))
         else if post_type s = 2 then Inr (reply env rq con (strxml s) s)
         else if post_type s = 1 \<and> json_str s \<noteq> None then Inr (reply env rq con (the (json_str s)) s)
         else Inr (reply env rq con errorpage s))"

definition answer_to_connection_zb2 ::
    "'j json_lib \<Rightarrow> xml_lib \<Rightarrow> http_env \<Rightarrow> request \<Rightarrow> con_info option \<Rightarrow> gateway \<Rightarrow>
     (c_error \<times> gateway) + answer \<times> gateway" where
  "answer_to_connection_zb2 jl xml env rq con_cls s =
     (let s = read_clock s
      in case con_cls of
           None \<Rightarrow>
             if \<not> malloc_ok env then Inr (\<lparr>a_ret = MHD_NO, a_con = None, a_left = upload_size rq\<rparr>, s)
             else Inr (\<lparr>a_ret = MHD_YES,
                        a_con = Some \<lparr>connectiontype = malloc_word env, answerstring = None\<rparr>,
                        a_left = upload_size rq\<rparr>, s)
         | Some con \<Rightarrow>
             if rq_method rq = ''GET''
             then (case json_str s of
                     Some page \<Rightarrow> Inr (reply env rq con page s)
                   | None \<Rightarrow> Inr (reply env rq con errorpage s))
             else if rq_method rq = ''POST'' then post_request_zb2 jl xml env rq con s
             else Inr (reply env rq con errorpage s))"

section \<open>One child of a message\<close>

text \<open>Every child but the content only sets variables of the function.\<close>

lemma xml_loop_zb2_step:
  obtains (pass) w where "xml_loop_zb2 ((name, content) # cs) v s = xml_loop_zb2 cs w s"
  | (null) "xml_loop_zb2 ((name, content) # cs) v s = Inl (NullDeref, s)"
  | (told) u where "content = Some u" "xml_loop_zb2 ((name, content) # cs) v s =
      (case xml_content_zb2 (v\<lparr>v_uri := Some (Some u)\<rparr>) u s of
         Inl f \<Rightarrow> Inl f | Inr t \<Rightarrow> xml_loop_zb2 cs (v\<lparr>v_uri := Some (Some u)\<rparr>) t)"
proof (cases "name = ''Content''")
  case True
  show thesis
  proof (cases content)
    case None
    with True show thesis by (intro null) simp
  next
    case (Some u)
    with True show thesis by (intro told [of u]) simp_all
  qed
next
  case False
  define w where "w = (if name = ''CreateTime'' then v\<lparr>v_uri := Some content\<rparr>
    else if name = ''FromUserName'' then v\<lparr>v_uri := Some content, v_from := Some content\<rparr>
    else if name = ''ToUserName'' then v\<lparr>v_uri := Some content, v_to := Some content\<rparr>
    else if name = ''MsgType'' then v\<lparr>v_uri := Some content\<rparr> else v)"
  have "xml_loop_zb2 ((name, content) # cs) v s = xml_loop_zb2 cs w s"
    unfolding w_def xml_loop_zb2.simps using False by (simp only: if_False if_distrib [of "\<lambda>w. xml_loop_zb2 cs w s"])
  then show thesis by (rule pass)
qed

section \<open>The invariant\<close>

context web_inv
begin

lemma json_command_zb2_inv: "triple I (json_command_zb2 jl obj) I any_fault"
proof -
  have pt: "triple I (modify (\<lambda>s. s\<lparr>post_type := 1\<rparr>)) I any_fault"
    by (intro triple_modify I_post_type)
  note sends = triple_any_fault [OF SendCtrl_inv] triple_any_fault [OF SendRegister_inv(1)]
    triple_any_fault [OF SendRegister_inv(2)] triple_any_fault [OF GetState_inv]
  show ?thesis
  proof (cases "to_json_string jl (object_get_ex jl obj ''type'')")
    case None
    show ?thesis
      unfolding json_command_zb2_def Let_def None option.case by (intro inv_rules pt triple_fault_any)
  next
    case (Some type)
    show ?thesis
      unfolding json_command_zb2_def Let_def Some option.case
      by (intro inv_rules pt triple_fault_any sends; simp)
  qed
qed

lemma wechat_command_zb2_inv: "wechat_command_zb2 uri = Some c \<Longrightarrow> triple I c I E"
  unfolding wechat_command_zb2_def wechat_light_zb2_def wechat_other_zb2_def
  by (auto intro!: SendCtrl_inv curtain_inv split: option.splits if_splits)

lemma xml_content_zb2_inv: "I s \<Longrightarrow> xml_content_zb2 v uri s = Inr u \<Longrightarrow> I u"
proof (cases "wechat_command_zb2 uri")
  case None
  assume "I s" "xml_content_zb2 v uri s = Inr u"
  with None show ?thesis by (simp add: xml_content_zb2_def write_strxml_inv)
next
  case (Some c)
  assume s: "I s" and u: "xml_content_zb2 v uri s = Inr u"
  from u Some obtain t where t: "c s = Inr t" "write_strxml v uri t = Inr u"
    by (auto simp: xml_content_zb2_def split: sum.splits)
  with triple_Inr [OF wechat_command_zb2_inv [OF Some] s] show ?thesis using write_strxml_inv by blast
qed

lemma xml_loop_zb2_inv: "I s \<Longrightarrow> xml_loop_zb2 cs v s = Inr (r, t) \<Longrightarrow> I t"
proof (induction cs arbitrary: v s)
  case Nil
  then show ?case by simp
next
  case (Cons p cs)
  obtain name content where p: "p = (name, content)" by (cases p)
  note run = Cons.prems(2) [unfolded p]
  show ?case
  proof (cases rule: xml_loop_zb2_step [of name content cs v s])
    case (pass w)
    with run Cons show ?thesis by simp
  next
    case null
    with run show ?thesis by simp
  next
    case (told u)
    with run obtain x where x: "xml_content_zb2 (v\<lparr>v_uri := Some (Some u)\<rparr>) u s = Inr x"
        "xml_loop_zb2 cs (v\<lparr>v_uri := Some (Some u)\<rparr>) x = Inr (r, t)"
      by (auto split: sum.splits)
    show ?thesis using Cons.IH [OF xml_content_zb2_inv [OF Cons.prems(1) x(1)] x(2)] .
  qed
qed

lemma post_upload_zb2_inv: "I s \<Longrightarrow> post_upload_zb2 jl xml env rq s = Inr t \<Longrightarrow> I t"
  unfolding post_upload_zb2_def handle_body_zb2_def xml_message_zb2_def Let_def
  by (auto split: if_splits option.splits sum.splits xml_doc.splits
      intro: I_post_type xml_loop_zb2_inv triple_Inr [OF json_command_zb2_inv])

lemma answer_zb2_inv:
  assumes "I s" and "answer_to_connection_zb2 jl xml env rq con s = Inr (a, t)"
  shows "I t"
proof -
  have "I (read_clock s)" using assms(1) by (rule I_read_clock)
  with assms(2) show ?thesis
    unfolding answer_to_connection_zb2_def post_request_zb2_def Let_def
    by (auto split: option.splits if_splits sum.splits intro: post_upload_zb2_inv reply_inv I_permitjoin)
qed

end

lemma home_table_web:
  "home_table names s \<Longrightarrow> home_table names (s\<lparr>post_type := p\<rparr>)"
  "home_table names s \<Longrightarrow> home_table names (s\<lparr>permitjoin := j\<rparr>)"
  "home_table names s \<Longrightarrow> home_table names (s\<lparr>reads := n\<rparr>)"
  "home_table names s \<Longrightarrow> length x < STRXML_SIZE \<Longrightarrow> home_table names (s\<lparr>strxml := x\<rparr>)"
  by (auto simp: home_table_def data_inv_def gateway_typed_def table_wf_def dev_ids_def clock_ok_def)

interpretation home_web_zb2: web_inv "home_zb2 dump" "dump \<circ> reroom" no_fault for dump
  by unfold_locales (auto simp: home_zb2_def simp del: STRXML_SIZE_def intro: home_table_web)

section \<open>What a chat message does\<close>

text \<open>libxml2 hands out UTF-8.\<close>

definition utf8_doc :: "(string \<times> string option) list \<Rightarrow> bool" where
  "utf8_doc cs \<longleftrightarrow> list_all (\<lambda>(n, c). case c of None \<Rightarrow> True | Some t \<Rightarrow> utf8_start t) cs"

lemma wechat_zb2_utf8: "utf8_start u \<Longrightarrow> wechat_command_zb2 u = None"
proof -
  assume u: "utf8_start u"
  have "list_all (\<lambda>w. u \<noteq> w) ws" if "list_all (\<lambda>w. \<not> utf8_start w) ws" for ws
    using that u by (auto simp: list_all_iff)
  from this [OF words_not_utf8] show ?thesis
    by (simp add: wechat_command_zb2_def wechat_light_zb2_def wechat_other_zb2_def)
qed

text \<open>What a chat message may change: the reply and the count of clock readings.\<close>

definition only_reply :: "gateway \<Rightarrow> gateway \<Rightarrow> bool" where
  "only_reply s t \<longleftrightarrow> (\<exists>x n. t = s\<lparr>strxml := x, reads := n\<rparr>)"

definition only_reply_result :: "gateway \<Rightarrow> (c_error \<times> gateway) + 'a \<times> gateway \<Rightarrow> bool" where
  "only_reply_result s r \<longleftrightarrow> (case r of Inl (e, t) \<Rightarrow> only_reply s t | Inr (a, t) \<Rightarrow> only_reply s t)"

lemma only_reply_refl: "only_reply s s"
  unfolding only_reply_def by (intro exI [of _ "strxml s"] exI [of _ "reads s"]) simp

lemma only_reply_trans:
  assumes "only_reply s t" and "only_reply t u"
  shows "only_reply s u"
proof -
  from assms obtain x n y m where "t = s\<lparr>strxml := x, reads := n\<rparr>" "u = t\<lparr>strxml := y, reads := m\<rparr>"
    unfolding only_reply_def by blast
  then have "u = s\<lparr>strxml := y, reads := m\<rparr>" by simp
  then show ?thesis unfolding only_reply_def by blast
qed

lemma write_strxml_only:
  "case write_strxml v x s of Inl (e, t) \<Rightarrow> only_reply s t | Inr t \<Rightarrow> only_reply s t"
proof -
  have r: "only_reply s (s\<lparr>reads := n\<rparr>)" for n
    unfolding only_reply_def by (intro exI [of _ "strxml s"] exI [of _ n]) simp
  have w: "only_reply s (s\<lparr>reads := n, strxml := y\<rparr>)" for n y
    unfolding only_reply_def by (intro exI [of _ y] exI [of _ n]) simp
  show ?thesis
    by (auto simp: write_strxml_def read_time_def Let_def r w only_reply_refl split: sum.split)
qed

lemma xml_content_zb2_utf8:
  "utf8_start u \<Longrightarrow> xml_content_zb2 v u s = write_strxml v help_text_zb2 s"
  by (simp add: xml_content_zb2_def wechat_zb2_utf8)

lemma xml_loop_zb2_only: "utf8_doc cs \<Longrightarrow> only_reply_result s (xml_loop_zb2 cs v s)"
proof (induction cs arbitrary: v s)
  case Nil
  then show ?case by (simp add: only_reply_result_def only_reply_refl)
next
  case (Cons p cs)
  obtain name content where p: "p = (name, content)" by (cases p)
  have cs: "utf8_doc cs" using Cons.prems by (simp add: utf8_doc_def)
  show ?case
  proof (cases rule: xml_loop_zb2_step [of name content cs v s])
    case (pass w)
    then show ?thesis using Cons.IH [OF cs] by (simp add: p)
  next
    case null
    then show ?thesis by (simp add: p only_reply_result_def only_reply_refl)
  next
    case (told u)
    let ?w = "v\<lparr>v_uri := Some (Some u)\<rparr>"
    have "utf8_start u" using Cons.prems told(1) p by (simp add: utf8_doc_def)
    then have run: "xml_loop_zb2 (p # cs) v s = (case write_strxml ?w help_text_zb2 s of
        Inl f \<Rightarrow> Inl f | Inr t \<Rightarrow> xml_loop_zb2 cs ?w t)"
      using told(2) by (simp only: p xml_content_zb2_utf8)
    show ?thesis
    proof (cases "write_strxml ?w help_text_zb2 s")
      case (Inl f)
      then show ?thesis
        using write_strxml_only [where v = ?w and x = help_text_zb2 and s = s] unfolding run by (cases f) (simp add: only_reply_result_def)
    next
      case (Inr t)
      then have st: "only_reply s t" using write_strxml_only [where v = ?w and x = help_text_zb2 and s = s] by simp
      show ?thesis
        using Cons.IH [OF cs, where v = ?w and s = t] only_reply_trans [OF st] unfolding run Inr
        by (auto simp: only_reply_result_def split: sum.splits)
    qed
  qed
qed

end
