(* ===== verification/Zb2_System.thy ===== *)
theory Zb2_System
  imports Zb2_Http Zb_System
begin

text \<open>
  The whole gateway of \<^verbatim>\<open>zbclient2.c\<close>: its serial thread, its web server and its main loop on the same global
  variables, one byte, one call or one round at a time, in every order.
\<close>

inductive zb2_step :: "(json \<Rightarrow> string) \<Rightarrow> 'j json_lib \<Rightarrow> xml_lib \<Rightarrow> main_t \<Rightarrow> main_t \<Rightarrow> bool"
  for dump :: "json \<Rightarrow> string" and jl :: "'j json_lib" and xml :: xml_lib
  where
  serial: "thread_byte_zb2 dump after b (gw m) = Inr t \<Longrightarrow> zb2_step dump jl xml m (m\<lparr>gw := t\<rparr>)"
| web: "answer_to_connection_zb2 jl xml env rq con (gw m) = Inr (a, t) \<Longrightarrow> zb2_step dump jl xml m (m\<lparr>gw := t\<rparr>)"
| tick: "main_tick_zb2 m = Inr n \<Longrightarrow> zb2_step dump jl xml m n"

inductive_cases zb2_stepE: "zb2_step dump jl xml m n"

definition zb2_init :: "(json \<Rightarrow> string) \<Rightarrow> main_t \<Rightarrow> bool" where
  "zb2_init dump m \<longleftrightarrow> dump_bound_zb2 dump \<and> flag_hour m = 0 \<and> jcount m = 0 \<and>
     (\<exists>e cl. json_calloc e \<and> (\<forall>n. tm_int32 (cl n)) \<and>
        main_start_zb2 dump e (initial cl) = Inr (None, gw m))"

lemma thread_byte_zb2_home:
  "home_zb2 dump s \<Longrightarrow> thread_byte_zb2 dump after b s = Inr t \<Longrightarrow> home_zb2 dump t"
proof -
  assume s: "home_zb2 dump s" and t: "thread_byte_zb2 dump after b s = Inr t"
  have h: "triple (home_table boot_names_zb2) (recieve_usart_zb2 dump after rx len) (home_table boot_names_zb2) any_fault" for rx len
    by (rule handler_inv.recieve_zb2_inv [OF home_table_handled refl]) simp
  have "triple (home_table boot_names_zb2) (thread_byte_zb2 dump after b) (home_table boot_names_zb2) any_fault"
    unfolding thread_byte_zb2_def by (rule thread_round_home) (rule h)
  from triple_Inr [OF this _ t] s show ?thesis by (simp add: home_zb2_def)
qed

lemma zb2_step_inv: "main_inv_zb2 dump m \<Longrightarrow> zb2_step dump jl xml m n \<Longrightarrow> main_inv_zb2 dump n"
proof (erule zb2_stepE)
  fix after b t
  assume "main_inv_zb2 dump m" "thread_byte_zb2 dump after b (gw m) = Inr t" "n = m\<lparr>gw := t\<rparr>"
  then show ?thesis by (auto simp: main_inv_zb2_def intro: thread_byte_zb2_home)
next
  fix env :: http_env and rq :: request and con a t
  assume m: "main_inv_zb2 dump m" and t: "answer_to_connection_zb2 jl xml env rq con (gw m) = Inr (a, t)"
    and n: "n = m\<lparr>gw := t\<rparr>"
  with home_web_zb2.answer_zb2_inv [OF _ t] show ?thesis by (auto simp: main_inv_zb2_def)
next
  assume "main_inv_zb2 dump m" "main_tick_zb2 m = Inr n"
  then show ?thesis by (rule main_tick_zb2_inv)
qed

lemma zb2_init_inv: "zb2_init dump m \<Longrightarrow> main_inv_zb2 dump m"
proof -
  assume m: "zb2_init dump m"
  then obtain e cl where e: "json_calloc e" "\<And>n. tm_int32 (cl n)" "main_start_zb2 dump e (initial cl) = Inr (None, gw m)"
    and d: "dump_bound_zb2 dump" and c: "flag_hour m = 0" "jcount m = 0"
    by (auto simp: zb2_init_def)
  have up: "main_setup e = None" using e(3) by (rule main_start_zb2_up)
  obtain t where "main_start_zb2 dump e (initial cl) = Inr (None, t)" "home_zb2 dump t"
    by (rule main_start_zb2_home [OF e(1) up e(2) d])
  with e(3) c show ?thesis by (simp add: main_inv_zb2_def)
qed

interpretation zb2: step_system "zb2_init dump" "zb2_step dump jl xml" "main_inv_zb2 dump" for dump jl xml
  by unfold_locales (auto intro: zb2_init_inv zb2_step_inv)

end
