(* ===== verification/Zb2_Properties.thy ===== *)
theory Zb2_Properties
  imports Zb2_System Zb_Examples
begin

text \<open>
  The properties of \<^verbatim>\<open>zbclient2.c\<close>, and the concrete cases to which they are applied.
\<close>

section \<open>Concrete cases\<close>

lemma name_field_zb2_cases:
  "name_field_zb2 nid = [] \<or> (\<exists>t. name_field_zb2 nid = [(''name'', JString t)] \<and> length t \<le> 10)"
  by (simp add: name_field_zb2_def)

lemma dump_bound_zb2_spaced: "dump_bound_zb2 spaced"
  unfolding dump_bound_zb2_def dev_obj_zb2_def by (intro allI impI spaced_dev_bound name_field_zb2_cases)

definition started_zb2 :: gateway where
  "started_zb2 = (case main_start_zb2 spaced good_setup (initial (\<lambda>n. noon)) of Inl (e, s) \<Rightarrow> s | Inr (r, s) \<Rightarrow> s)"

definition started_main_zb2 :: main_t where
  "started_main_zb2 = \<lparr>gw = started_zb2, flag_hour = 0, jcount = 0\<rparr>"

lemma started_zb2_run:
  "main_start_zb2 spaced good_setup (initial (\<lambda>n. noon)) = Inr (None, started_zb2)" "home_zb2 spaced started_zb2"
  "rx_state started_zb2 = WW_STATE"
proof -
  have "json_calloc good_setup" "main_setup good_setup = None" by (simp_all add: good_setup_def main_setup_def)
  then obtain t where t: "main_start_zb2 spaced good_setup (initial (\<lambda>n. noon)) = Inr (None, t)" "home_zb2 spaced t"
      "rx_state t = WW_STATE"
    using noon_int32 dump_bound_zb2_spaced by (rule main_start_zb2_home)
  then have "started_zb2 = t" by (simp add: started_zb2_def)
  with t show "main_start_zb2 spaced good_setup (initial (\<lambda>n. noon)) = Inr (None, started_zb2)"
    "home_zb2 spaced started_zb2" "rx_state started_zb2 = WW_STATE" by simp_all
qed

lemma started_zb2_init: "zb2_init spaced started_main_zb2"
proof -
  have "json_calloc good_setup" by (simp add: good_setup_def)
  with started_zb2_run(1) noon_int32 dump_bound_zb2_spaced show ?thesis
    by (auto simp: zb2_init_def started_main_zb2_def intro!: exI [of _ good_setup] exI [of _ "\<lambda>n. noon"])
qed

section \<open>The running program\<close>

text \<open>
  C22. From the start of the main loop of \<^verbatim>\<open>zbclient2.c\<close> on, whatever bytes arrive, whatever web requests are
  made and however they interleave with the rounds of the loop: as long as no step faults, the table lists
  exactly the devices \<^verbatim>\<open>main\<close> entered with their GBK names, the buffers keep their sizes, the rendered
  table fits its 2000 bytes and the countdown of the kitchen light stays within 0..120.
\<close>

theorem zb2_invariant:
  assumes "zb2_init dump m" and "(zb2_step dump jl xml)\<^sup>*\<^sup>* m n"
  shows "main_inv_zb2 dump n"
  using assms by (rule zb2.reachable_inv)

theorem zb2_invariant_witness:
  "zb2_init spaced started_main_zb2 \<and>
   (zb2_step spaced toy_json toy_xml)\<^sup>*\<^sup>* started_main_zb2
     (started_main_zb2\<lparr>gw := started_zb2\<lparr>rx_state := CMD_STATE1\<rparr>\<rparr>) \<and>
   main_inv_zb2 spaced (started_main_zb2\<lparr>gw := started_zb2\<lparr>rx_state := CMD_STATE1\<rparr>\<rparr>)"
proof -
  let ?m = "started_main_zb2\<lparr>gw := started_zb2\<lparr>rx_state := AA_STATE\<rparr>\<rparr>"
  let ?n = "started_main_zb2\<lparr>gw := started_zb2\<lparr>rx_state := CMD_STATE1\<rparr>\<rparr>"
  have w: "gw started_main_zb2 = started_zb2" by (simp add: started_main_zb2_def)
  have "thread_byte_zb2 spaced [] 0x55 (gw started_main_zb2) = Inr (started_zb2\<lparr>rx_state := AA_STATE\<rparr>)"
    using started_zb2_run(3) by (simp add: w thread_byte_zb2_def thread_round_def goto_state_def)
  then have a: "zb2_step spaced toy_json toy_xml started_main_zb2 ?m" by (rule zb2_step.serial)
  have "thread_byte_zb2 spaced [] 0xaa (gw ?m) = Inr (started_zb2\<lparr>rx_state := CMD_STATE1\<rparr>)"
    by (simp add: thread_byte_zb2_def thread_round_def goto_state_def)
  then have "zb2_step spaced toy_json toy_xml ?m (?m\<lparr>gw := started_zb2\<lparr>rx_state := CMD_STATE1\<rparr>\<rparr>)"
    by (rule zb2_step.serial)
  with a have r: "(zb2_step spaced toy_json toy_xml)\<^sup>*\<^sup>* started_main_zb2 ?n" by simp
  show ?thesis using started_zb2_init r zb2_invariant [OF started_zb2_init r] by blast
qed

section \<open>Against zbclient.c\<close>

text \<open>
  C23. The message handlers of the two programs differ in two reactions only: \<^verbatim>\<open>zbclient2.c\<close> does not answer a
  query of a state, and it reacts in its own way to the reports of buttons, contacts and leak sensors. On
  all other messages it does, fault for fault, what \<^verbatim>\<open>zbclient.c\<close> does with a renderer that gives a device
  the room its address has in \<^verbatim>\<open>zbclient2.c\<close>.
\<close>

theorem zb2_same_reactions:
  "(\<not> differs rx len \<longrightarrow> recieve_usart_zb2 dump after rx len s = recieve_usart (\<lambda>j. dump (reroom j)) after rx len s) \<and>
   (rx ! 0 = MXJ_GET_STATE \<longrightarrow> recieve_usart_zb2 dump after rx len s = Inr (read_clock s) \<and>
      recieve_usart d after rx len s = Inr (sent (ctrl_msg (word_of_int (rx_id rx len)) 1 2 2 2) (read_clock s))) \<and>
   reroom (dev_obj nm e) = dev_obj_zb2 nm e"
proof (intro conjI impI)
  assume "\<not> differs rx len"
  then show "recieve_usart_zb2 dump after rx len s = recieve_usart (\<lambda>j. dump (reroom j)) after rx len s"
    by (simp add: recieve_zb2_eq comp_def)
next
  assume c: "rx ! 0 = MXJ_GET_STATE"
  then show "recieve_usart_zb2 dump after rx len s = Inr (read_clock s)"
    by (simp add: recieve_usart_zb2_def Let_def)
  from c show "recieve_usart d after rx len s = Inr (sent (ctrl_msg (word_of_int (rx_id rx len)) 1 2 2 2) (read_clock s))"
    by (simp add: recieve_usart_def Let_def SendCtrl_sent)
qed (rule reroom_dev_obj)

theorem zb2_same_reactions_witness:
  "recieve_usart_zb2 spaced [] [6, 7, 0x8d, 0xc0, 1, 0, 0, 0, 1, 0, 0] 9 started_zb2 =
     recieve_usart (\<lambda>j. spaced (reroom j)) [] [6, 7, 0x8d, 0xc0, 1, 0, 0, 0, 1, 0, 0] 9 started_zb2 \<and>
   recieve_usart_zb2 spaced [] [5, 3, 0x8d, 0xc0] 4 started_zb2 = Inr (read_clock started_zb2)"
  using zb2_same_reactions [of "[6, 7, 0x8d, 0xc0, 1, 0, 0, 0, 1, 0, 0]" 9 spaced "[]" started_zb2]
    zb2_same_reactions [of "[5, 3, 0x8d, 0xc0]" 4 spaced "[]" started_zb2]
  by (simp add: differs_def)

section \<open>Chat messages\<close>

lemma answer_carries_zb2:
  assumes "carries env rq txt" and "to_json_string jl (tokener_parse jl txt) = Some ''null''"
  shows "answer_to_connection_zb2 jl xml env rq (Some con) s =
    (case xml_message_zb2 xml txt (read_clock s) of
       Inl f \<Rightarrow> Inl f
     | Inr t \<Rightarrow> Inr (\<lparr>a_ret = MHD_YES, a_con = Some con, a_left = 0\<rparr>, t))"
proof -
  from assms(1) obtain h where h: "heap_after env = NUL # h" by (auto simp: carries_def)
  have "cstr (txt @ NUL # h) = txt" using assms(1) by (intro cstr_text_zero) (auto simp: carries_def)
  moreover have "txt \<noteq> []" "cstr_ends (txt @ NUL # h)" "content_length rq = Some (dec (int (length txt)))"
    using assms(1) by (auto simp: carries_def cstr_ends_def)
  ultimately have "post_upload_zb2 jl xml env rq u = xml_message_zb2 xml txt u" for u
    by (simp add: post_upload_zb2_def copy_body_carries [OF assms(1)] handle_body_zb2_def h assms(2))
  then show ?thesis
    using assms(1) by (simp add: answer_to_connection_zb2_def post_request_zb2_def carries_def)
qed

text \<open>
  C24. libxml2 hands out UTF-8, but the program compares with words in GBK. So whatever chat message comes,
  from whatever sender, no command runs: apart from the kind of the request, the reply to send and the
  count of clock readings, nothing changes, and nothing goes to the serial line. What can still happen is
  a fault on a missing sender or on a reply too long for its buffer.
\<close>

theorem zb2_chat_never_acts:
  assumes "carries env rq txt" and "to_json_string jl (tokener_parse jl txt) = Some ''null''"
    and "\<And>cs. xml txt = Children cs \<Longrightarrow> utf8_doc cs"
  shows "case answer_to_connection_zb2 jl xml env rq (Some con) s of
      Inl (e, t) \<Rightarrow> only_reply ((read_clock s)\<lparr>post_type := 2\<rparr>) t
    | Inr (a, t) \<Rightarrow> a = \<lparr>a_ret = MHD_YES, a_con = Some con, a_left = 0\<rparr> \<and>
        only_reply ((read_clock s)\<lparr>post_type := 2\<rparr>) t"
proof -
  let ?s = "(read_clock s)\<lparr>post_type := 2\<rparr>"
  have "case xml_message_zb2 xml txt (read_clock s) of Inl (e, t) \<Rightarrow> only_reply ?s t | Inr t \<Rightarrow> only_reply ?s t"
  proof (cases "xml txt")
    case (Children cs)
    have "only_reply_result ?s (xml_loop_zb2 cs no_vars ?s)" using assms(3) [OF Children] by (rule xml_loop_zb2_only)
    then show ?thesis
      by (auto simp: xml_message_zb2_def Children only_reply_result_def split: sum.splits)
  qed (simp_all add: xml_message_zb2_def only_reply_refl)
  then show ?thesis by (auto simp: answer_carries_zb2 [OF assms(1,2)] split: sum.splits)
qed

theorem zb2_chat_never_acts_witness:
  "case answer_to_connection_zb2 toy_json toy_xml calm_env (post_of chat_text) (Some some_con) started_zb2 of
      Inl (e, t) \<Rightarrow> only_reply ((read_clock started_zb2)\<lparr>post_type := 2\<rparr>) t
    | Inr (a, t) \<Rightarrow> a = \<lparr>a_ret = MHD_YES, a_con = Some some_con, a_left = 0\<rparr> \<and>
        only_reply ((read_clock started_zb2)\<lparr>post_type := 2\<rparr>) t"
proof (rule zb2_chat_never_acts [OF carries_texts(2)])
  show "to_json_string toy_json (tokener_parse toy_json chat_text) = Some ''null''"
    by (simp add: toy_json_def chat_text_def page_text_def)
  show "utf8_doc cs" if "toy_xml chat_text = Children cs" for cs
    using that by (auto simp: toy_xml_def wechat_doc_def utf8_doc_def utf8_start_def continuation_byte_def
        owner_def w_kai_keting_def)
qed

section \<open>The door\<close>

lemma recieve_zb2_cluster6:
  assumes "rx ! 0 = MXJ_XIAOMI18" and "rx_cid rx 14 = 6"
  shows "recieve_usart_zb2 dump after rx 14 s =
    rx_onoff_zb2 (rx_id rx 14) rx (snd (find_dev (rx_id rx 14) (read_clock s)))"
  using assms
  by (simp add: recieve_usart_zb2_def rx_xiaomi18_zb2_def finding_def Let_def split: prod.split)

text \<open>
  The contact of the flat's door: a report that it opened switches the light of the hall on, a report
  that it closed switches it off, by exactly one message, and posts the event with the time of that
  message.
\<close>

theorem zb2_door_contact:
  assumes "home_zb2 dump s" and "rx ! 0 = MXJ_XIAOMI18" "rx_id rx 14 = uint XMMENCI_ID" "rx_cid rx 14 = 6"
    and "rx ! 11 \<noteq> 0x20" "rx ! 12 = (if opened then 1 else 0)"
  shows "\<exists>t. recieve_usart_zb2 dump after rx 14 s = Inr t \<and> home_zb2 dump t \<and>
    out t = out s @ map TxByte (frame (ctrl_msg MENTING_ID 3 (rx ! 12) (rx ! 12) (rx ! 12))) @
      [Post (alarm_text_zb2 (if opened then t_kaimen_zb2 else t_guanmen_zb2) (clock s (reads s + 1)))]"
proof -
  let ?nid = "uint XMMENCI_ID"
  let ?u = "snd (find_dev ?nid (read_clock s))"
  have r: "home_zb2 dump (read_clock s)" using assms(1) by (rule home_zb2.I_read_clock)
  have wf: "table_wf (read_clock s)" using home_zb2_data [OF r] by (rule data_inv_wf)
  have u: "home_zb2 dump ?u" "out ?u = out s" "clock ?u = clock s" "reads ?u = reads s + 1"
    using r by (simp_all add: find_dev_eq [OF wf] home_zb2.I_bump) (simp_all add: read_clock_def)
  let ?v = "sent (ctrl_msg MENTING_ID 3 (rx ! 12) (rx ! 12) (rx ! 12)) ?u"
  let ?p = "alarm_text_zb2 (if opened then t_kaimen_zb2 else t_guanmen_zb2) (tblock ?v)"
  have v: "home_zb2 dump ?v" using u(1) by (rule home_zb2_sent)
  have "tm_int32 (tblock ?v)" using home_zb2_data [OF v] by (simp add: data_inv_def clock_ok_def)
  from length_alarm_text_zb2 [OF this] have
    "length (alarm_text_zb2 t_kaimen_zb2 (tblock ?v)) \<le> length t_kaimen_zb2 + 85"
    "length (alarm_text_zb2 t_guanmen_zb2 (tblock ?v)) \<le> length t_guanmen_zb2 + 85" by blast+
  then have fits: "length ?p < 200" by (simp add: alarm_texts_zb2)
  have kick: "rx_single_kick_zb2 ?nid (rx ! 12) ?u = Inr ?u"
    by (simp add: rx_single_kick_zb2_def)
  have door: "rx_door_zb2 (rx ! 12) ?u = Inr (emit [Post ?p] ?v)"
  proof (cases opened)
    case True
    with assms(6) have "rx ! 12 = 1" by simp
    with True fits show ?thesis by (simp add: rx_door_zb2_def SendCtrl_sent post_alarm_def del: ctrl_msg_3)
  next
    case False
    with assms(6) have "rx ! 12 = 0" by simp
    with False fits show ?thesis by (simp add: rx_door_zb2_def SendCtrl_sent post_alarm_def del: ctrl_msg_3)
  qed
  have "rx_onoff_zb2 ?nid rx ?u = Inr (emit [Post ?p] ?v)"
    using assms(5) kick door by (simp add: rx_onoff_zb2_def)
  then have "recieve_usart_zb2 dump after rx 14 s = Inr (emit [Post ?p] ?v)"
    by (simp only: recieve_zb2_cluster6 [OF assms(2,4)] assms(3))
  moreover have "tblock ?v = clock s (reads s + 1)" using u(3,4) by (simp add: sent_def)
  ultimately show ?thesis
    using u(2) home_zb2.I_emit [OF v] by (intro exI [of _ "emit [Post ?p] ?v"]) (simp del: ctrl_msg_3)
qed

theorem zb2_door_contact_witness:
  "\<exists>t. recieve_usart_zb2 spaced [] [0x18, 13, 0x53, 0x5e, 0, 6, 1, 0, 0, 0, 0, 0x18, 1, 0] 14 started_zb2 = Inr t \<and>
    out t = out started_zb2 @ map TxByte (frame [0, 6, hi MENTING_ID, lo MENTING_ID, 1, 1, 1]) @
      [Post (alarm_text_zb2 t_kaimen_zb2 (clock started_zb2 (reads started_zb2 + 1)))]"
  using zb2_door_contact [OF started_zb2_run(2), where
      rx = "[0x18, 13, 0x53, 0x5e, 0, 6, 1, 0, 0, 0, 0, 0x18, 1, 0]" and opened = True and after = "[]"]
  by (auto simp: rx_id_def rx_cid_def join16_def)

end
