(* ===== verification/Brower_Table.thy ===== *)
theory Brower_Table
  imports Brower Step_System
begin

text \<open>
  Lemmas on \<^verbatim>\<open>zbserver-brower.c\<close>: its table keeps the contract of a device table, its serial thread the
  contract of a receiver, its connections are closed as they were opened, and serial bytes, web calls
  and rounds of the main loop keep its invariant in every order.
\<close>

section \<open>Sending\<close>

definition br_sent :: "byte list \<Rightarrow> brower \<Rightarrow> brower" where
  "br_sent m = br_emit (map TxByte (frame m))"

lemma br_emit_fields [simp]:
  "br_device (br_emit es s) = br_device s" "br_devsize (br_emit es s) = br_devsize s"
  "br_rx (br_emit es s) = br_rx s" "br_json (br_emit es s) = br_json s" "br_str (br_emit es s) = br_str s"
  "br_out (br_emit es s) = br_out s @ es"
  by (simp_all add: br_emit_def)

lemma send_usart_brower_sent:
  "unat len \<le> length data \<Longrightarrow> unat len + 2 < TXBUF_SIZE \<Longrightarrow>
   send_usart_brower data len s = Inr (br_sent (take (unat len) data) s)"
  by (simp add: send_usart_brower_def txbuf_bytes_frame br_sent_def)

lemma messages_sent [simp]:
  "SendCtrlMessage_brower nid m1 m2 m3 s = Inr (br_sent [0, 6, hi nid, lo nid, m1, m2, m3] s)"
  "SendRegisterMessage_brower nid 3 s = Inr (br_sent [3, 4, hi nid, lo nid, 1] s)"
  "SendRegisterMessage_brower nid 4 s = Inr (br_sent [4, 4, hi nid, lo nid, 0] s)"
  "SendConfigMessage_brower nid ix st c s = Inr (br_sent
     [8, 11, hi nid, lo nid, ix, st, hi (c_id c), lo (c_id c), c_state1 c, c_state2 c, c_state3 c, c_enable c] s)"
  "GetConfigMessage_brower nid s = Inr (br_sent [10, 3, hi nid, lo nid] s)"
  "GetStateMessage_brower nid s = Inr (br_sent [5, 3, hi nid, lo nid] s)"
  by (simp_all add: SendCtrlMessage_brower_def SendRegisterMessage_brower_def SendConfigMessage_brower_def
      GetConfigMessage_brower_def GetStateMessage_brower_def send_usart_brower_sent)

section \<open>The table\<close>

definition br_ids :: "brower \<Rightarrow> int list" where
  "br_ids s = map (\<lambda>d. uint (e_id d)) (take (unat (br_devsize s)) (br_device s))"

definition br_dev_ok :: "br_device_t \<Rightarrow> bool" where
  "br_dev_ok d \<longleftrightarrow> length (e_light d) = 3 \<and> length (e_state d) = 3"

definition br_table_ok :: "brower \<Rightarrow> bool" where
  "br_table_ok s \<longleftrightarrow> length (br_device s) = BR_DEV_SIZE \<and> unat (br_devsize s) \<le> BR_DEV_SIZE \<and>
     list_all br_dev_ok (br_device s)"

lemma length_br_ids: "br_table_ok s \<Longrightarrow> length (br_ids s) = unat (br_devsize s)"
  by (simp add: br_ids_def br_table_ok_def)

lemma find_dev_brower_index:
  assumes "br_table_ok s"
  shows "find_dev_brower nid s = first_index nid (br_ids s)"
  unfolding find_dev_brower_def
proof (rule search_first_index)
  fix i
  show "br_find_from i nid s =
      (if i < length (br_ids s) then if br_ids s ! i = nid then int i else br_find_from (Suc i) nid s else -1)"
    using assms by (subst br_find_from.simps) (simp add: length_br_ids br_ids_def br_table_ok_def)
qed

lemma find_dev_brower_range:
  assumes "br_table_ok s" "find_dev_brower nid s \<noteq> -1"
  shows "0 \<le> find_dev_brower nid s" "nat (find_dev_brower nid s) < unat (br_devsize s)"
    "nat (find_dev_brower nid s) < length (br_device s)"
    "uint (e_id (br_device s ! nat (find_dev_brower nid s))) = nid"
proof -
  have i: "nid \<in> set (br_ids s)" using assms by (simp add: find_dev_brower_index)
  show r: "0 \<le> find_dev_brower nid s" "nat (find_dev_brower nid s) < unat (br_devsize s)"
    using first_index_nonneg [OF i] assms(1) by (simp_all add: find_dev_brower_index length_br_ids)
  then show "nat (find_dev_brower nid s) < length (br_device s)"
    using assms(1) by (simp add: br_table_ok_def)
  show "uint (e_id (br_device s ! nat (find_dev_brower nid s))) = nid"
    using first_index_nth [OF i] r(2) assms(1) by (simp add: find_dev_brower_index br_ids_def br_table_ok_def)
qed

definition br_entry :: "u16 \<Rightarrow> byte \<Rightarrow> byte \<Rightarrow> br_device_t \<Rightarrow> br_device_t" where
  "br_entry nid ty ix d = d\<lparr>e_id := nid, e_type := ty, e_idx := ix, e_registered := 1\<rparr>"

definition br_add :: "int \<Rightarrow> byte \<times> byte \<Rightarrow> brower cmd" where
  "br_add nid = (\<lambda>(ty, ix). append_brower (br_entry (word_of_int nid) ty ix))"

definition br_added :: "int \<Rightarrow> byte \<Rightarrow> byte \<Rightarrow> brower \<Rightarrow> brower" where
  "br_added nid ty ix s = s\<lparr>br_device := (br_device s)[unat (br_devsize s) :=
       br_entry (word_of_int nid) ty ix (br_device s ! unat (br_devsize s))], br_devsize := br_devsize s + 1\<rparr>"

lemma unat_inc_byte: "unat (x :: byte) < 255 \<Longrightarrow> unat (x + 1) = Suc (unat x)"
  by (simp add: unat_word_ariths)

lemma br_add_eq:
  "br_table_ok s \<Longrightarrow> br_add nid (ty, ix) s =
     (if unat (br_devsize s) < BR_DEV_SIZE then Inr (br_added nid ty ix s) else Inl (OutOfBounds, s))"
  by (simp add: br_add_def append_brower_def br_table_ok_def br_added_def Let_def)

lemma br_added_ok:
  assumes "br_table_ok s" "unat (br_devsize s) < BR_DEV_SIZE"
  shows "br_table_ok (br_added nid ty ix s)"
    "0 \<le> nid \<Longrightarrow> nid < 65536 \<Longrightarrow> br_ids (br_added nid ty ix s) = br_ids s @ [nid]"
proof -
  have n: "unat (br_devsize s + 1) = Suc (unat (br_devsize s))" using assms(2) by (intro unat_inc_byte) simp
  have len: "unat (br_devsize s) < length (br_device s)" using assms by (simp add: br_table_ok_def)
  then have "br_dev_ok (br_device s ! unat (br_devsize s))"
    using assms(1) by (simp add: br_table_ok_def list_all_length)
  then have "br_dev_ok (br_entry (word_of_int nid) ty ix (br_device s ! unat (br_devsize s)))"
    by (simp add: br_dev_ok_def br_entry_def)
  then show "br_table_ok (br_added nid ty ix s)"
    using assms n by (auto simp: br_table_ok_def br_added_def list_all_length nth_list_update)
  assume "0 \<le> nid" "nid < 65536"
  then have "uint (word_of_int nid :: u16) = nid" by (simp add: uint_word_of_int)
  then show "br_ids (br_added nid ty ix s) = br_ids s @ [nid]"
    using n len by (simp add: br_ids_def br_added_def take_Suc_conv_app_nth br_entry_def)
qed

interpretation br_table: device_table br_ids "\<lambda>a s. (find_dev_brower a s, s)" br_add br_table_ok
proof unfold_locales
  fix s a x t
  assume s: "br_table_ok s"
  show "fst (find_dev_brower a s, s) = first_index a (br_ids s)"
    using s by (simp add: find_dev_brower_index)
  assume t: "br_add a x s = Inr t"
  obtain ty ix where x: "x = (ty, ix)" by (cases x)
  from s t x have room: "unat (br_devsize s) < BR_DEV_SIZE" and t: "t = br_added a ty ix s"
    by (auto simp: br_add_eq split: if_splits)
  show "br_table_ok t" using br_added_ok(1) [OF s room] t by simp
  show "0 \<le> a \<Longrightarrow> a < 65536 \<Longrightarrow> br_ids t = br_ids s @ [a]"
    using br_added_ok(2) [OF s room] t by simp
qed simp_all

section \<open>What every handler keeps\<close>

text \<open>The table is well formed, no address is in it twice, and the receiver is as it was.\<close>

definition br_keep :: "receiver \<Rightarrow> brower \<Rightarrow> bool" where
  "br_keep v s \<longleftrightarrow> br_table_ok s \<and> distinct (br_ids s) \<and> br_rx s = v"

lemma br_keep_emit [simp]: "br_keep v (br_emit es s) \<longleftrightarrow> br_keep v s"
  by (simp add: br_keep_def br_table_ok_def br_ids_def br_emit_def)

lemma br_keep_sent [simp]: "br_keep v (br_sent m s) \<longleftrightarrow> br_keep v s"
  by (simp add: br_sent_def)

lemma br_keep_json [simp]: "br_keep v (s\<lparr>br_json := j\<rparr>) \<longleftrightarrow> br_keep v s"
  by (simp add: br_keep_def br_table_ok_def br_ids_def)

lemma br_keep_str [simp]: "br_keep v (s\<lparr>br_str := j\<rparr>) \<longleftrightarrow> br_keep v s"
  by (simp add: br_keep_def br_table_ok_def br_ids_def)

lemma keep_sent: "(\<And>s. c s = Inr (br_sent m s)) \<Longrightarrow> triple (br_keep v) c (br_keep v) E"
  by (simp add: triple_def)

lemma keep_build: "triple (br_keep v) (build_json_brower dump) (br_keep v) any_fault"
  by (rule tripleI) (auto simp: build_json_brower_def split: sum.splits option.splits)

lemma keep_update:
  assumes "\<And>d. e_id (f d) = e_id d" "\<And>d. br_dev_ok d \<Longrightarrow> br_dev_ok (f d)"
  shows "br_keep v s \<Longrightarrow> br_keep v (br_update i f s)"
proof (cases "i < length (br_device s)")
  case True
  assume s: "br_keep v s"
  let ?ds = "br_device s" and ?es = "(br_device s)[i := f (br_device s ! i)]"
  have "list_all br_dev_ok ?es"
    using s True assms(2) by (auto simp: br_keep_def br_table_ok_def list_all_length nth_list_update)
  moreover have "map (\<lambda>d. uint (e_id d)) ?es = map (\<lambda>d. uint (e_id d)) ?ds"
    using True assms(1) by (metis list_update_id map_update)
  then have "br_ids (br_update i f s) = br_ids s"
    by (simp add: br_ids_def br_update_def take_map [symmetric])
  ultimately show ?thesis using s by (simp add: br_keep_def br_table_ok_def br_update_def)
next
  case False
  assume "br_keep v s"
  moreover have "br_update i f s = s" using False by (simp add: br_update_def list_update_beyond)
  ultimately show ?thesis by simp
qed

lemma keep_modify_update:
  "(\<And>d. e_id (f d) = e_id d) \<Longrightarrow> (\<And>d. br_dev_ok d \<Longrightarrow> br_dev_ok (f d)) \<Longrightarrow>
   triple (br_keep v) (modify (br_update i f)) (br_keep v) E"
  by (intro triple_modify keep_update)

lemma keep_fault_case:
  "(\<And>x. triple (br_keep v) (f x) (br_keep v) any_fault) \<Longrightarrow>
   triple (br_keep v) (case r of Inl e \<Rightarrow> fault e | Inr x \<Rightarrow> f x) (br_keep v) any_fault"
  by (cases r) (simp_all add: triple_fault_any)

lemma keep_ctrl_up: "triple (br_keep v) (br_ctrl_up nid rx) (br_keep v) any_fault"
  unfolding br_ctrl_up_def br_remote_def br_motion_def Let_def
  by (intro inv_rules keep_fault_case keep_sent) simp_all

lemma keep_send_state: "triple (br_keep v) (br_send_state dump nid rx) (br_keep v) any_fault"
  unfolding br_send_state_def Let_def
  by (intro inv_rules keep_build keep_modify_update) (simp_all add: br_dev_ok_def)

text \<open>An address that was not found is appended.\<close>

lemma keep_add:
  assumes "0 \<le> nid" "nid < 65536"
  shows "triple (\<lambda>s. br_keep v s \<and> find_dev_brower nid s = -1) (br_add nid x) (br_keep v) any_fault"
proof (rule tripleI)
  fix s t
  assume s: "br_keep v s \<and> find_dev_brower nid s = -1" and t: "br_add nid x s = Inr t"
  then have w: "br_table_ok s" "distinct (br_ids s)" by (simp_all add: br_keep_def)
  obtain ty ix where x: "x = (ty, ix)" by (cases x)
  have "br_rx t = br_rx s" using t x w(1) by (auto simp: br_add_eq br_added_def split: if_splits)
  moreover have "br_table_ok t" "distinct (br_ids t)"
    using br_table.register_distinct [OF w assms, of x t] s t by simp_all
  ultimately show "br_keep v t" using s by (simp add: br_keep_def)
qed simp

lemma append_as_add:
  "append_brower (\<lambda>d. d\<lparr>e_id := word_of_int nid, e_type := ty, e_idx := ix, e_registered := 1\<rparr>) = br_add nid (ty, ix)"
  by (simp add: br_add_def br_entry_def [abs_def])

lemma keep_add_build:
  assumes "0 \<le> nid" "nid < 65536"
  shows "triple (\<lambda>s. br_keep v s \<and> find_dev_brower nid s = -1)
    (block [br_add nid x, build_json_brower dump]) (br_keep v) any_fault"
  by (rule triple_block_Cons [OF keep_add [OF assms]]) (intro inv_rules keep_build)

lemma keep_register:
  assumes "0 \<le> nid" "nid < 65536"
  shows "triple (br_keep v) (br_register dump nid rx) (br_keep v) any_fault"
  unfolding br_register_def append_as_add
proof (rule triple_reading, rule triple_block_Cons)
  fix r
  show "triple (\<lambda>s. br_keep v s \<and> s = r)
     (if find_dev_brower nid r = -1 then block [br_add nid (rx ! 4, rx ! 5), build_json_brower dump] else skip)
     (br_keep v) any_fault"
  proof (rule triple_if)
    assume "find_dev_brower nid r = -1"
    then show "triple (\<lambda>s. br_keep v s \<and> s = r)
        (block [br_add nid (rx ! 4, rx ! 5), build_json_brower dump]) (br_keep v) any_fault"
      by (intro triple_conseq [OF keep_add_build [OF assms]]) auto
  next
    show "triple (\<lambda>s. br_keep v s \<and> s = r) skip (br_keep v) any_fault" by (simp add: triple_def)
  qed
  show "triple (br_keep v) (block [SendRegisterMessage_brower (word_of_int nid) 3]) (br_keep v) any_fault"
    by (intro inv_rules keep_sent) simp
qed

lemma keep_xiaomi:
  assumes "0 \<le> nid" "nid < 65536"
  shows "triple (br_keep v) (br_xiaomi dump after nid cid rx len) (br_keep v) any_fault"
  unfolding br_xiaomi_def append_as_add Let_def
proof (rule triple_reading, rule triple_if)
  fix r
  let ?P = "\<lambda>s. br_keep v s \<and> s = r"
  show "triple ?P skip (br_keep v) any_fault" by (simp add: triple_def)
  assume g: "27 \<le> unat len \<and> cid = 0 \<and> uint (rx ! 12) \<le> uint len - 13 \<and> find_dev_brower nid r = -1"
  have add: "triple ?P (block [br_add nid x, build_json_brower dump]) (br_keep v) any_fault" for x
    using g by (intro triple_conseq [OF keep_add_build [OF assms]]) auto
  have none: "triple ?P skip (br_keep v) any_fault" by (simp add: triple_def)
  show "triple ?P (case xiaomi_name after rx of Inl e \<Rightarrow> fault e
     | Inr temp_str \<Rightarrow>
         if temp_str = ''lumi.sensor_switch'' then block [br_add nid (0x0b, 1), build_json_brower dump]
         else if temp_str = ''lumi.sensor_magnet'' then block [br_add nid (0x0a, 1), build_json_brower dump]
         else if temp_str = ''lumi.sensor_motion'' then block [br_add nid (0x03, 1), build_json_brower dump]
         else if temp_str = ''lumi.sensor_ht'' then block [br_add nid (0x09, 1), build_json_brower dump]
         else skip) (br_keep v) any_fault"
    by (cases "xiaomi_name after rx") (simp_all only: sum.case triple_fault_any, intro triple_if add none)
qed

lemma keep_recieve: "triple (br_keep v) (recieve_usart_brower dump after rx len) (br_keep v) any_fault"
  unfolding recieve_usart_brower_def Let_def
  by (intro inv_rules keep_ctrl_up keep_register keep_send_state keep_xiaomi rx_id_range)

lemma keep_forward: "triple (br_keep v) (br_forward buf) (br_keep v) any_fault"
  unfolding br_forward_def
  by (intro inv_rules keep_sent [of _ "[0, 6, 0x5e, 0xe0, buf ! 6, 1, 1]"])
    (simp add: send_usart_brower_sent)

section \<open>The serial thread\<close>

definition br_idle :: "brower \<Rightarrow> bool" where
  "br_idle s \<longleftrightarrow> br_table_ok s \<and> distinct (br_ids s) \<and> length (r_buf (br_rx s)) = BR_RXBUF_SIZE \<and>
     r_state (br_rx s) = 0x55"

text \<open>
  What a complete message does: a message of \<^verbatim>\<open>6eab\<close> is forwarded, then \<^verbatim>\<open>recieve_usart\<close> gets it with its
  length, and the receiver waits for the next frame.
\<close>

definition br_deliver :: "(json \<Rightarrow> string) \<Rightarrow> string \<Rightarrow> byte list \<Rightarrow> brower cmd" where
  "br_deliver dump after m s =
     (let r = r_arrived m (sum_list m) (br_rx s)
      in block
           [br_forward (r_buf r), recieve_usart_brower dump after (r_buf r) (m ! 1 + 1),
            modify (\<lambda>s. s\<lparr>br_rx := (br_rx s)\<lparr>r_state := 0x55\<rparr>\<rparr>)] (s\<lparr>br_rx := r\<rparr>))"

interpretation br_machine: machine_client "thread_byte_brower dump after" br_rx "\<lambda>r s. s\<lparr>br_rx := r\<rparr>" for dump after
  by unfold_locales (simp_all add: thread_byte_brower_def lift_rx_def)

lemma br_feed_frame:
  assumes "br_idle s" and "msg_ok BR_RXBUF_SIZE m"
  shows "feed (thread_byte_brower dump after) (frame m) s = br_deliver dump after m s"
proof -
  let ?r = "br_rx s"
  have r: "r_state ?r = 0x55" "length (r_buf ?r) = 100" "msg_ok (length (r_buf ?r)) m"
    using assms by (simp_all add: br_idle_def)
  have "feed (thread_byte_brower dump after) (([0x55, 0xaa] @ m) @ [sum_list m]) s =
      thread_byte_brower dump after (sum_list m) (s\<lparr>br_rx := r_loaded m [] ?r\<rparr>)"
    by (rule feed_snoc, rule br_machine.client_message [OF r(1) _ r(3)]) (simp add: r(2))
  also have "\<dots> = br_deliver dump after m s"
    using r_check_loaded [OF r(3), of "sum_list m"]
    by (simp add: thread_byte_brower_def br_fcs_def br_deliver_def r_loaded_def r_arrived_def split: sum.split)
  finally show ?thesis by (simp add: frame_def)
qed

lemma br_keep_rx: "br_table_ok s \<Longrightarrow> distinct (br_ids s) \<Longrightarrow> br_keep v (s\<lparr>br_rx := v\<rparr>)"
  by (simp add: br_keep_def br_table_ok_def br_ids_def)

lemma br_deliver_idle:
  assumes "br_idle s" and "msg_ok BR_RXBUF_SIZE m" and "br_deliver dump after m s = Inr t"
  shows "br_idle t"
proof -
  let ?r = "r_arrived m (sum_list m) (br_rx s)"
  have s: "br_keep ?r (s\<lparr>br_rx := ?r\<rparr>)"
    using assms(1) by (intro br_keep_rx) (simp_all add: br_idle_def)
  have h: "triple (br_keep ?r) (block [br_forward (r_buf ?r),
      recieve_usart_brower dump after (r_buf ?r) (m ! 1 + 1)]) (br_keep ?r) any_fault"
    by (intro inv_rules keep_forward keep_recieve)
  from assms(3) obtain u where u: "block [br_forward (r_buf ?r),
      recieve_usart_brower dump after (r_buf ?r) (m ! 1 + 1)] (s\<lparr>br_rx := ?r\<rparr>) = Inr u"
    and t: "t = u\<lparr>br_rx := (br_rx u)\<lparr>r_state := 0x55\<rparr>\<rparr>"
    by (auto simp: br_deliver_def Let_def split: sum.splits)
  have "length (r_buf ?r) = 100"
    using assms(1,2) by (simp add: r_arrived_def length_fill msg_ok_def br_idle_def)
  with triple_Inr [OF h s u] t show ?thesis
    by (simp add: br_idle_def br_keep_def br_table_ok_def br_ids_def)
qed

interpretation br_link: frame_receiver "thread_byte_brower dump after" br_idle "br_deliver dump after" "0x55" frame "msg_ok 100" for dump after
proof unfold_locales
  show "br_idle s \<Longrightarrow> b \<noteq> 0x55 \<Longrightarrow> thread_byte_brower dump after b s = Inr s" for s b
    by (simp add: br_idle_def thread_byte_brower_def lift_rx_def r_step_def)
  show "br_idle s \<Longrightarrow> msg_ok 100 m \<Longrightarrow> feed (thread_byte_brower dump after) (frame m) s = br_deliver dump after m s" for s m
    using br_feed_frame by simp
  show "br_idle s \<Longrightarrow> msg_ok 100 m \<Longrightarrow> br_deliver dump after m s = Inr t \<Longrightarrow> br_idle t" for s m t
    using br_deliver_idle by simp
qed

end
