(* ===== verification/Brower_System.thy ===== *)
theory Brower_System
  imports Brower_Table
begin

text \<open>
  \<^verbatim>\<open>zbserver-brower.c\<close> as a whole: the serial thread, the web server with its open connections and the main
  loop on the same variables, one byte, one call or one round at a time, in every order.
\<close>

section \<open>Posts keep the table\<close>

lemma keep_block_map:
  "(\<And>k. triple I (f k) I E) \<Longrightarrow> triple I (block (map f ks)) I E"
  by (intro triple_block_inv) (simp add: list_all_iff)

lemma keep_option_case:
  "triple I c I E \<Longrightarrow> (\<And>x. triple I (f x) I E) \<Longrightarrow> triple I (case r of None \<Rightarrow> c | Some x \<Rightarrow> f x) I E"
  by (cases r) simp_all

lemma keep_set_light: "triple (br_keep v) (set_light i n) (br_keep v) any_fault"
  by (rule tripleI) (auto simp: set_light_def br_dev_ok_def split: if_splits intro!: keep_update)

lemma keep_set_status: "triple (br_keep v) (set_status i k n) (br_keep v) any_fault"
  by (rule tripleI) (auto simp: set_status_def br_dev_ok_def Let_def split: if_splits intro!: keep_update)

lemma keep_post_lights: "triple (br_keep v) (post_lights J i j) (br_keep v) any_fault"
  unfolding post_lights_def
  by (intro keep_option_case inv_rules keep_modify_update keep_block_map keep_set_light triple_fault_any)
    (simp_all add: br_dev_ok_def)

lemma keep_post_control: "triple (br_keep v) (post_control J i j) (br_keep v) any_fault"
  unfolding post_control_def
  by (intro keep_option_case inv_rules keep_modify_update keep_post_lights) (simp_all add: br_dev_ok_def)

lemma keep_post_status: "triple (br_keep v) (post_status J i j) (br_keep v) any_fault"
  unfolding post_status_def
  by (intro keep_option_case keep_block_map keep_set_status triple_fault_any)

lemma keep_post_devices: "triple (br_keep v) (post_devices J j) (br_keep v) any_fault"
  unfolding post_devices_def post_device_def Let_def
  by (intro keep_option_case keep_block_map inv_rules keep_post_control keep_post_status triple_fault_any)

section \<open>A post and its connection\<close>

text \<open>
  A connection that has an answer was answered after \<^verbatim>\<open>build_json\<close> wrote the page text, and the text is
  never freed.
\<close>

definition con_inv :: "brower \<Rightarrow> br_con \<Rightarrow> bool" where
  "con_inv s con \<longleftrightarrow> con_ok con \<and> (pc_answer con \<noteq> None \<longrightarrow> br_json s \<noteq> None)"

definition br_same_json :: "bool \<Rightarrow> brower \<Rightarrow> bool" where
  "br_same_json b s \<longleftrightarrow> (br_json s \<noteq> None) = b"

lemma build_json_has: "build_json_brower dump s = Inr t \<Longrightarrow> br_json t \<noteq> None \<and> br_json s \<noteq> None"
  by (auto simp: build_json_brower_def split: sum.splits option.splits)

lemma same_json_sent: "(\<And>s. c s = Inr (br_sent m s)) \<Longrightarrow> triple (br_same_json b) c (br_same_json b) E"
  by (simp add: triple_def br_same_json_def br_sent_def)

lemma same_json_modify: "(\<And>s. br_json (f s) = br_json s) \<Longrightarrow> triple (br_same_json b) (modify f) (br_same_json b) E"
  by (simp add: triple_def br_same_json_def)

lemma same_json_build: "triple (br_same_json b) (build_json_brower dump) (br_same_json b) any_fault"
  by (rule tripleI) (auto simp: br_same_json_def dest!: build_json_has)

lemma same_json_update: "br_json (br_update i f s) = br_json s"
  by (simp add: br_update_def)

lemma same_json_set_light: "triple (br_same_json b) (set_light i n) (br_same_json b) any_fault"
  by (rule tripleI) (auto simp: set_light_def br_same_json_def same_json_update split: if_splits)

lemma same_json_set_status: "triple (br_same_json b) (set_status i k n) (br_same_json b) any_fault"
  by (rule tripleI) (auto simp: set_status_def br_same_json_def same_json_update br_sent_def Let_def split: if_splits)

lemma same_json_post_devices: "triple (br_same_json b) (post_devices J j) (br_same_json b) any_fault"
  unfolding post_devices_def post_device_def post_control_def post_status_def post_lights_def Let_def
  by (intro keep_option_case keep_block_map inv_rules same_json_modify same_json_update same_json_set_light
      same_json_set_status triple_fault_any)

definition post_inv :: "receiver \<Rightarrow> bool \<Rightarrow> brower \<times> br_con \<Rightarrow> bool" where
  "post_inv v b sc \<longleftrightarrow> br_keep v (fst sc) \<and> br_same_json b (fst sc) \<and> con_inv (fst sc) (snd sc)"

lemma con_inv_same: "con_inv s con \<Longrightarrow> br_same_json b s \<Longrightarrow> br_same_json b t \<Longrightarrow> con_inv t con"
  by (simp add: con_inv_def br_same_json_def)

lemma triple_on_gateway:
  assumes "triple (br_keep v) c (br_keep v) any_fault" and "triple (br_same_json b) c (br_same_json b) any_fault"
  shows "triple (post_inv v b) (on_gateway c) (post_inv v b) any_fault"
proof (rule tripleI)
  fix sc tc
  assume s: "post_inv v b sc" and t: "on_gateway c sc = Inr tc"
  then have c: "c (fst sc) = Inr (fst tc)" "snd tc = snd sc"
    by (auto simp: on_gateway_def split: sum.splits)
  show "post_inv v b tc"
    using s triple_Inr [OF assms(1) _ c(1)] triple_Inr [OF assms(2) _ c(1)] con_inv_same c(2)
    by (auto simp: post_inv_def)
qed simp

lemma set_answer_None: "triple (post_inv v b) (set_answer None) (post_inv v b) E"
  unfolding set_answer_def
  by (rule triple_modify) (auto simp: post_inv_def con_inv_def split: prod.splits)

lemma build_and_answer:
  "triple (post_inv v b) (block [on_gateway (build_json_brower dump), set_answer (Some ())]) (post_inv v b) any_fault"
proof (rule tripleI)
  fix sc tc
  assume s: "post_inv v b sc" and t: "block [on_gateway (build_json_brower dump), set_answer (Some ())] sc = Inr tc"
  then obtain u where u: "on_gateway (build_json_brower dump) sc = Inr (u, snd sc)"
      "build_json_brower dump (fst sc) = Inr u" and tc: "tc = (u, (snd sc)\<lparr>pc_answer := Some ()\<rparr>)"
    by (auto simp: on_gateway_def set_answer_def split: sum.splits)
  have "post_inv v b (u, snd sc)"
    using triple_Inr [OF triple_on_gateway [OF keep_build same_json_build] s u(1)] .
  with tc build_json_has [OF u(2)] show "post_inv v b tc" by (auto simp: post_inv_def con_inv_def)
qed simp

lemma triple_returning:
  "triple I c I any_fault \<Longrightarrow> I s \<Longrightarrow> returning r c s = Inr (q, t) \<Longrightarrow> I t"
  by (auto simp: returning_def split: sum.splits dest: triple_Inr)

lemma iterate_post_inv:
  assumes "post_inv v b sc" and "iterate_post_brower J dump x sc = Inr (r, tc)"
  shows "post_inv v b tc"
proof -
  obtain key data sz where x: "x = (key, data, sz)" by (cases x)
  have devs: "triple (post_inv v b) (block [on_gateway (post_devices J j),
        if sz \<le> BR_MAXNAMESIZE then block [on_gateway (build_json_brower dump), set_answer (Some ())]
        else set_answer None]) (post_inv v b) any_fault" for j
    by (intro inv_rules triple_on_gateway keep_post_devices same_json_post_devices build_and_answer set_answer_None)
  have set: "triple (br_keep v) (modify (\<lambda>s. s\<lparr>br_str := z\<rparr>)) (br_keep v) any_fault"
      "triple (br_same_json b) (modify (\<lambda>s. s\<lparr>br_str := z\<rparr>)) (br_same_json b) any_fault" for z
    by (intro triple_modify, simp) (intro same_json_modify, simp)
  have snd: "triple (br_keep v) (SendConfigMessage_brower 0x171f 0 0 br_open_config) (br_keep v) any_fault"
      "triple (br_same_json b) (SendConfigMessage_brower 0x171f 0 0 br_open_config) (br_same_json b) any_fault"
      "triple (br_keep v) (GetConfigMessage_brower 0x171f) (br_keep v) any_fault"
      "triple (br_same_json b) (GetConfigMessage_brower 0x171f) (br_same_json b) any_fault"
    by (intro keep_sent same_json_sent; simp)+
  have keys: "triple (post_inv v b) press_open (post_inv v b) any_fault"
      "triple (post_inv v b) press_close (post_inv v b) any_fault"
    unfolding press_open_def press_close_def
    by (intro inv_rules triple_on_gateway set snd set_answer_None)+
  have none: "returning q skip sc = Inr (r, tc) \<Longrightarrow> post_inv v b tc" for q
    using assms(1) by (simp add: returning_def)
  show ?thesis
    using assms(2) triple_returning [OF devs assms(1)] triple_returning [OF keys(1) assms(1)]
      triple_returning [OF keys(2) assms(1)] none
    unfolding iterate_post_brower_def x prod.case
    by (simp only: if_True if_False split: if_splits option.splits)
qed

text \<open>A call of \<^verbatim>\<open>answer_to_connection\<close> keeps the table, the receiver, and the state of its connection.\<close>

lemma answer_brower_inv:
  assumes s: "br_keep v s" "\<And>c. con = Some c \<Longrightarrow> con_inv s c"
    and ans: "answer_to_connection_brower J dump env method n items con s = Inr (r, con', t)"
  shows "br_keep v t" "(br_json t \<noteq> None) = (br_json s \<noteq> None)" "\<And>c. con' = Some c \<Longrightarrow> con_inv t c"
proof -
  have page: "br_keep v u" "br_json u = br_json s" if "page_or_error env p s = (q, u)" for p q u
    using that s(1) by (auto simp: page_or_error_def send_page_brower_def split: if_splits)
  have "br_keep v t \<and> (br_json t \<noteq> None) = (br_json s \<noteq> None) \<and> (\<forall>c. con' = Some c \<longrightarrow> con_inv t c)"
  proof (cases con)
    case None
    with ans s show ?thesis
      by (auto simp: answer_to_connection_brower_def con_inv_def open_connection_def con_ok_def split: option.splits if_splits)
  next
    case (Some c)
    show ?thesis
    proof (cases "method \<noteq> ''GET'' \<and> method = ''POST'' \<and> n \<noteq> 0")
      case True
      with ans Some obtain c' where p: "post_process (iterate_post_brower J dump) items (s, c) = Inr (t, c')"
        and con': "con' = Some c'"
        by (auto simp: answer_to_connection_brower_def split: if_splits sum.splits)
      have "post_inv v (br_json s \<noteq> None) (s, c)"
        using s Some by (simp add: post_inv_def br_same_json_def)
      then have "post_inv v (br_json s \<noteq> None) (t, c')"
        by (rule post_process_inv [of "post_inv v (br_json s \<noteq> None)", rotated]) (fact p, fact iterate_post_inv)
      with con' show ?thesis by (simp add: post_inv_def br_same_json_def)
    next
      case False
      with ans Some obtain p q where u: "page_or_error env p s = (q, t)" and con': "con' = Some c"
        by (auto simp: answer_to_connection_brower_def split: if_splits prod.splits)
      from page [OF u] s(2) [OF Some] con' show ?thesis by (simp add: con_inv_def)
    qed
  qed
  then show "br_keep v t" "(br_json t \<noteq> None) = (br_json s \<noteq> None)" "\<And>c. con' = Some c \<Longrightarrow> con_inv t c"
    by auto
qed

text \<open>So does the end of a request, although destroying the post processor may call \<^verbatim>\<open>iterate_post\<close>.\<close>

lemma completed_brower_inv:
  assumes s: "br_keep v s" "\<And>c. con = Some c \<Longrightarrow> con_inv s c"
    and run: "request_completed_brower J dump items con s = Inr (con', t)"
  shows "br_keep v t" "(br_json t \<noteq> None) = (br_json s \<noteq> None)" "con' = None"
proof -
  show "con' = None"
    using run by (auto simp: request_completed_brower_def close_connection_def split: option.splits if_splits sum.splits)
  have "br_keep v t \<and> (br_json t \<noteq> None) = (br_json s \<noteq> None)"
  proof (cases con)
    case None
    with run s show ?thesis by (simp add: request_completed_brower_def close_connection_def)
  next
    case (Some c)
    with run obtain c' where e: "end_post (iterate_post_brower J dump) items c (s, c) = Inr (t, c')"
      by (auto simp: request_completed_brower_def split: sum.splits)
    have "post_inv v (br_json s \<noteq> None) (s, c)"
      using s Some by (simp add: post_inv_def br_same_json_def)
    then have "post_inv v (br_json s \<noteq> None) (t, c')"
      by (rule end_post_inv [of "post_inv v (br_json s \<noteq> None)", rotated]) (fact e, fact iterate_post_inv)
    then show ?thesis by (simp add: post_inv_def br_same_json_def)
  qed
  then show "br_keep v t" "(br_json t \<noteq> None) = (br_json s \<noteq> None)" by auto
qed

section \<open>The running program\<close>

text \<open>
  The connections that are open, by a number, and the variable \<^verbatim>\<open>tt\<close> of the main loop.
\<close>

record br_sys =
  sys_br :: brower
  sys_tt :: nat
  sys_con :: "nat \<Rightarrow> br_con option"

inductive br_step :: "('j, 'x) json_array_lib_scheme \<Rightarrow> (json \<Rightarrow> string) \<Rightarrow> br_sys \<Rightarrow> br_sys \<Rightarrow> bool"
  for J :: "('j, 'x) json_array_lib_scheme" and dump :: "json \<Rightarrow> string"
  where
  serial: "thread_byte_brower dump after b (sys_br m) = Inr t \<Longrightarrow> br_step J dump m (m\<lparr>sys_br := t\<rparr>)"
| web: "answer_to_connection_brower J dump env method n items (sys_con m k) (sys_br m) = Inr (r, con, t) \<Longrightarrow>
    br_step J dump m (m\<lparr>sys_br := t, sys_con := (sys_con m)(k := con)\<rparr>)"
| completed: "request_completed_brower J dump items (sys_con m k) (sys_br m) = Inr (con, t) \<Longrightarrow>
    br_step J dump m (m\<lparr>sys_br := t, sys_con := (sys_con m)(k := con)\<rparr>)"
| tick: "main_tick_brower (sys_tt m, sys_br m) = Inr (tt, t) \<Longrightarrow>
    br_step J dump m (m\<lparr>sys_br := t, sys_tt := tt\<rparr>)"

inductive_cases br_stepE: "br_step J dump m n"

definition br_init :: "(json \<Rightarrow> string) \<Rightarrow> br_sys \<Rightarrow> bool" where
  "br_init dump m \<longleftrightarrow> sys_tt m = 0 \<and> sys_con m = (\<lambda>k. None) \<and>
     (\<exists>e. main_start_brower dump e = Inr (Some (sys_br m)))"

definition br_inv :: "br_sys \<Rightarrow> bool" where
  "br_inv m \<longleftrightarrow> br_table_ok (sys_br m) \<and> distinct (br_ids (sys_br m)) \<and>
     length (r_buf (br_rx (sys_br m))) = BR_RXBUF_SIZE \<and> br_json (sys_br m) \<noteq> None \<and>
     (\<forall>k c. sys_con m k = Some c \<longrightarrow> con_inv (sys_br m) c) \<and> sys_tt m = 0"

lemma br_inv_keep: "br_inv m \<Longrightarrow> br_keep (br_rx (sys_br m)) (sys_br m)"
  by (simp add: br_inv_def br_keep_def)

lemma br_invI:
  assumes "br_inv m" and "br_keep v t" and "length (r_buf v) = BR_RXBUF_SIZE" and "br_json t \<noteq> None"
  shows "br_inv (m\<lparr>sys_br := t\<rparr>)"
  using assms by (auto simp: br_inv_def br_keep_def con_inv_def)

lemma recieve_json: "triple (br_same_json b) (recieve_usart_brower dump after rx len) (br_same_json b) any_fault"
proof -
  have add: "triple (br_same_json b) (append_brower f) (br_same_json b) any_fault" for f
    by (rule tripleI) (auto simp: append_brower_def br_same_json_def Let_def split: if_splits)
  have err: "(\<And>x. triple (br_same_json b) (f x) (br_same_json b) any_fault) \<Longrightarrow>
      triple (br_same_json b) (case r of Inl e \<Rightarrow> fault e | Inr x \<Rightarrow> f x) (br_same_json b) any_fault"
    for f :: "'z \<Rightarrow> brower cmd" and r by (cases r) (simp_all add: triple_fault_any)
  have toggle: "triple (br_same_json b) (br_remote d) (br_same_json b) any_fault" for d
    by (rule tripleI)
      (auto simp: br_remote_def Let_def br_same_json_def br_sent_def split: sum.splits)
  have name: "triple (br_same_json b) (br_xiaomi dump after nid cid rx len) (br_same_json b) any_fault" for nid cid
    unfolding br_xiaomi_def Let_def by (intro inv_rules err add same_json_build)
  show ?thesis
    unfolding recieve_usart_brower_def br_ctrl_up_def br_register_def br_send_state_def br_motion_def Let_def
    by (intro inv_rules toggle name add same_json_build same_json_modify same_json_sent same_json_update) simp_all
qed

lemma r_step_buf: "r_step b r = Inr q \<Longrightarrow> length (r_buf q) = length (r_buf r)"
  by (auto simp: r_step_def r_write_def split: if_splits)

lemma r_check_buf: "r_check b r = Inr (ok, q) \<Longrightarrow> length (r_buf q) = length (r_buf r)"
  by (auto simp: r_check_def r_write_def Let_def split: if_splits sum.splits)

text \<open>A byte that ends no message changes the receiver only; one that does runs the handler.\<close>

lemma thread_byte_brower_inv:
  assumes m: "br_inv m" and t: "thread_byte_brower dump after b (sys_br m) = Inr t"
  shows "br_inv (m\<lparr>sys_br := t\<rparr>)"
proof (cases "r_state (br_rx (sys_br m)) = 5")
  case False
  with t obtain q where q: "r_step b (br_rx (sys_br m)) = Inr q" and tq: "t = (sys_br m)\<lparr>br_rx := q\<rparr>"
    by (auto simp: thread_byte_brower_def lift_rx_def split: sum.splits)
  have "br_keep q t" unfolding tq using m by (intro br_keep_rx) (simp_all add: br_inv_def)
  then show ?thesis using m tq r_step_buf [OF q] by (intro br_invI) (simp_all add: br_inv_def)
next
  case True
  with t obtain ok q u where q: "r_check b (br_rx (sys_br m)) = Inr (ok, q)"
    and u: "(if ok then block [br_forward (r_buf q), recieve_usart_brower dump after (r_buf q) (r_len q + 1)]
             else skip) ((sys_br m)\<lparr>br_rx := q\<rparr>) = Inr u"
    and tu: "t = u\<lparr>br_rx := (br_rx u)\<lparr>r_state := 0x55\<rparr>\<rparr>"
    by (auto simp: thread_byte_brower_def br_fcs_def split: sum.splits if_splits)
  have k: "br_keep q ((sys_br m)\<lparr>br_rx := q\<rparr>)" using m by (intro br_keep_rx) (simp_all add: br_inv_def)
  have j: "br_same_json True ((sys_br m)\<lparr>br_rx := q\<rparr>)" using m by (simp add: br_inv_def br_same_json_def)
  have forward: "triple (br_same_json True) (br_forward (r_buf q)) (br_same_json True) any_fault"
    unfolding br_forward_def
    by (intro inv_rules same_json_sent [of _ "[0, 6, 0x5e, 0xe0, r_buf q ! 6, 1, 1]"])
      (simp add: send_usart_brower_sent)
  have "triple (br_keep q) (if ok then block [br_forward (r_buf q),
      recieve_usart_brower dump after (r_buf q) (r_len q + 1)] else skip) (br_keep q) any_fault"
    by (intro inv_rules keep_forward keep_recieve)
  from triple_Inr [OF this k u] have uk: "br_keep q u" .
  have "triple (br_same_json True) (if ok then block [br_forward (r_buf q),
      recieve_usart_brower dump after (r_buf q) (r_len q + 1)] else skip) (br_same_json True) any_fault"
    by (intro inv_rules forward recieve_json)
  from triple_Inr [OF this j u] have uj: "br_json u \<noteq> None" by (simp add: br_same_json_def)
  have tk: "br_keep (q\<lparr>r_state := 0x55\<rparr>) t"
    using uk tu by (simp add: br_keep_def br_table_ok_def br_ids_def)
  show ?thesis by (rule br_invI [OF m tk]) (use m tu uj r_check_buf [OF q] in \<open>simp_all add: br_inv_def\<close>)
qed

lemma main_tick_brower_zero: "main_tick_brower (0, s) = Inr (0, br_emit [USleep 500000] s)"
  by (simp add: main_tick_brower_def)

lemma br_step_inv: "br_inv m \<Longrightarrow> br_step J dump m n \<Longrightarrow> br_inv n"
proof (erule br_stepE)
  fix after b t
  assume "br_inv m" "thread_byte_brower dump after b (sys_br m) = Inr t" "n = m\<lparr>sys_br := t\<rparr>"
  then show ?thesis using thread_byte_brower_inv by blast
next
  fix env mth i items k r con t
  assume m: "br_inv m" and a: "answer_to_connection_brower J dump env mth i items (sys_con m k) (sys_br m) = Inr (r, con, t)"
    and n: "n = m\<lparr>sys_br := t, sys_con := (sys_con m)(k := con)\<rparr>"
  have c: "\<And>c. sys_con m k = Some c \<Longrightarrow> con_inv (sys_br m) c" using m by (simp add: br_inv_def)
  note t = answer_brower_inv [OF br_inv_keep [OF m] c a]
  have "br_inv (m\<lparr>sys_br := t\<rparr>)"
    using m t(1,2) by (intro br_invI [OF m t(1)]) (simp_all add: br_inv_def)
  with n t(3) show ?thesis by (auto simp: br_inv_def)
next
  fix items k con t
  assume m: "br_inv m" and a: "request_completed_brower J dump items (sys_con m k) (sys_br m) = Inr (con, t)"
    and n: "n = m\<lparr>sys_br := t, sys_con := (sys_con m)(k := con)\<rparr>"
  have c: "\<And>c. sys_con m k = Some c \<Longrightarrow> con_inv (sys_br m) c" using m by (simp add: br_inv_def)
  note t = completed_brower_inv [OF br_inv_keep [OF m] c a]
  have "br_inv (m\<lparr>sys_br := t\<rparr>)"
    using m t(1,2) by (intro br_invI [OF m t(1)]) (simp_all add: br_inv_def)
  with n t(3) show ?thesis by (auto simp: br_inv_def)
next
  fix tt t
  assume m: "br_inv m" and t: "main_tick_brower (sys_tt m, sys_br m) = Inr (tt, t)"
    and n: "n = m\<lparr>sys_br := t, sys_tt := tt\<rparr>"
  have "sys_tt m = 0" using m by (simp add: br_inv_def)
  with t have "tt = 0" and tt: "t = br_emit [USleep 500000] (sys_br m)"
    by (simp_all add: main_tick_brower_zero)
  have tk: "br_keep (br_rx (sys_br m)) t" using br_inv_keep [OF m] tt by simp
  have "br_inv (m\<lparr>sys_br := t\<rparr>)" by (rule br_invI [OF m tk]) (use m tt in \<open>simp_all add: br_inv_def\<close>)
  with n \<open>tt = 0\<close> m show ?thesis by (simp add: br_inv_def)
qed

lemma br_start_state:
  assumes "main_start_brower dump e = Inr (Some s)"
  shows "br_table_ok s" "br_ids s = []" "length (r_buf (br_rx s)) = BR_RXBUF_SIZE" "br_json s = Some br_head"
    "br_out s = map TxByte (frame [4, 4, 0x9b, 0x02, 0] @ frame [4, 4, 0x49, 0xf0, 0])" "br_idle s"
    "br_devsize s = 0"
proof -
  have d: "br_dev_ok br_no_device" by (simp add: br_dev_ok_def br_no_device_def)
  have h: "hi 0x9b02 = 0x9b" "lo 0x9b02 = 0x02" "hi 0x49f0 = 0x49" "lo 0x49f0 = 0xf0"
    by (simp_all add: hi_def lo_def)
  from assms show "br_table_ok s" "br_ids s = []" "length (r_buf (br_rx s)) = BR_RXBUF_SIZE" "br_json s = Some br_head"
    "br_out s = map TxByte (frame [4, 4, 0x9b, 0x02, 0] @ frame [4, 4, 0x49, 0xf0, 0])" "br_idle s" "br_devsize s = 0"
    using d h by (auto simp: main_start_brower_def Let_def build_json_brower_def br_initial_def br_table_ok_def
        br_ids_def br_sent_def br_emit_def br_idle_def br_dev_ok_def list_all_length split: if_splits option.splits)
qed

lemma br_init_inv: "br_init dump m \<Longrightarrow> br_inv m"
  by (auto simp: br_init_def br_inv_def dest: br_start_state)

interpretation br_system: step_system "br_init dump" "br_step J dump" br_inv for dump J
  by unfold_locales (auto intro: br_init_inv br_step_inv)

end
