(* ===== verification/Brower_Spec.thy ===== *)
theory Brower_Spec
  imports Brower_System
begin

text \<open>
  What the messages mean, over an abstract table: a map from addresses to device entries. The handler of
  \<^verbatim>\<open>zbserver-brower.c\<close> refines it through the abstraction \<open>br_abs\<close>. Likewise \<^verbatim>\<open>build_json\<close> is compared with
  the text it is meant to make.
\<close>

section \<open>The page text\<close>

fun comma_join :: "string list \<Rightarrow> string" where
  "comma_join [] = []"
| "comma_join [t] = t"
| "comma_join (t # u # ts) = t @ '','' @ comma_join (u # ts)"

definition br_close :: string where
  "br_close = [CHR 0x5D, CHR 0x7D]"

definition br_page :: "(json \<Rightarrow> string) \<Rightarrow> br_device_t list \<Rightarrow> string" where
  "br_page dump ds =
     br_head @ comma_join (map (\<lambda>d. dump (br_obj d)) ds) @ (if ds = [] then [] else br_close)"

lemma br_close_lit: "'']}'' = br_close"
  by (simp add: br_close_def)

lemma br_build_loop_eq:
  "ds \<noteq> [] \<Longrightarrow> i + length ds = n \<Longrightarrow>
   br_build_loop dump i n ds str2 =
     (let p = str2 @ comma_join (map (\<lambda>d. dump (br_obj d)) ds) @ br_close
      in if length p < 2000 then Inr p else Inl BufferOverflow)"
proof (induction ds arbitrary: i str2)
  case Nil
  then show ?case by simp
next
  case (Cons d ds)
  show ?case
  proof (cases ds)
    case Nil
    with Cons.prems show ?thesis by (auto simp: br_strcat_def br_close_def Let_def)
  next
    case (Cons e es)
    let ?s = "str2 @ dump (br_obj d) @ '',''"
    have "br_build_loop dump (Suc i) n ds ?s =
       (let p = ?s @ comma_join (map (\<lambda>d. dump (br_obj d)) ds) @ br_close
        in if length p < 2000 then Inr p else Inl BufferOverflow)"
      using Cons Cons.prems by (intro Cons.IH) auto
    with Cons Cons.prems show ?thesis by (auto simp: br_strcat_def Let_def)
  qed
qed

lemma build_json_page:
  assumes "br_table_ok s"
  shows "build_json_brower dump s =
    (let p = br_page dump (take (unat (br_devsize s)) (br_device s))
     in if br_devsize s \<noteq> 0 \<and> 2000 \<le> length p then Inl (BufferOverflow, s)
        else if br_json s = None then Inl (NullDeref, s)
        else Inr (s\<lparr>br_json := Some p\<rparr>))"
proof -
  let ?ds = "take (unat (br_devsize s)) (br_device s)"
  have len: "length ?ds = unat (br_devsize s)" using assms by (simp add: br_table_ok_def)
  have ne: "?ds = [] \<longleftrightarrow> br_devsize s = 0"
    using len by (metis length_0_conv unat_eq_zero)
  show ?thesis
  proof (cases "br_devsize s = 0")
    case True
    then show ?thesis by (auto simp: build_json_brower_def br_page_def Let_def split: option.split)
  next
    case False
    with ne have d: "?ds \<noteq> []" by simp
    have "br_build_loop dump 0 (unat (br_devsize s)) ?ds br_head =
        (let p = br_page dump ?ds in if length p < 2000 then Inr p else Inl BufferOverflow)"
      using br_build_loop_eq [OF d, of 0] len d by (simp only: br_page_def if_False add_0 Let_def simp_thms)
    with False show ?thesis
      by (auto simp: build_json_brower_def Let_def not_less split: option.split)
  qed
qed

section \<open>The abstract table\<close>

type_synonym br_map = "int \<rightharpoonup> br_device_t"

definition br_abs :: "brower \<Rightarrow> br_map" where
  "br_abs s a = (if a \<in> set (br_ids s) then Some (br_device s ! nat (first_index a (br_ids s))) else None)"

text \<open>The slots behind the table are as \<^verbatim>\<open>main\<close> left them.\<close>

definition br_blank :: "brower \<Rightarrow> bool" where
  "br_blank s \<longleftrightarrow> (\<forall>i. unat (br_devsize s) \<le> i \<longrightarrow> i < length (br_device s) \<longrightarrow> br_device s ! i = br_no_device)"

definition new_entry :: "int \<Rightarrow> byte \<Rightarrow> byte \<Rightarrow> br_device_t" where
  "new_entry a ty ix = br_entry (word_of_int a) ty ix br_no_device"

text \<open>The message for the lights a device controls: the chosen value where a light is selected, 2 elsewhere.\<close>

definition spec_lights :: "br_device_t \<Rightarrow> (nat \<Rightarrow> byte) \<Rightarrow> byte list" where
  "spec_lights d f = [0, 6, hi (e_devid d), lo (e_devid d)] @ map (\<lambda>k. if e_light d ! k = 1 then f k else 2) [0, 1, 2]"

definition spec_toggle :: "br_map \<Rightarrow> br_device_t \<Rightarrow> nat \<Rightarrow> byte" where
  "spec_toggle M d k = (case M (uint (e_devid d)) of None \<Rightarrow> 2 | Some c \<Rightarrow> if e_state c ! k = 1 then 0 else 1)"

definition xiaomi_type :: "string \<Rightarrow> byte option" where
  "xiaomi_type n =
     (if n = ''lumi.sensor_switch'' then Some 0x0b
      else if n = ''lumi.sensor_magnet'' then Some 0x0a
      else if n = ''lumi.sensor_motion'' then Some 0x03
      else if n = ''lumi.sensor_ht'' then Some 0x09 else None)"

text \<open>The new table and the messages to send, for each kind of message.\<close>

definition br_spec :: "string \<Rightarrow> byte list \<Rightarrow> byte \<Rightarrow> br_map \<Rightarrow> br_map \<times> byte list list" where
  "br_spec after rx len M =
     (let a = rx_id rx len
      in if rx ! 0 = 1
         then (M, case M a of
                    None \<Rightarrow> []
                  | Some d \<Rightarrow>
                      if e_type d = 7 then [spec_lights d (spec_toggle M d)]
                      else if e_type d = 3 then [spec_lights d (\<lambda>k. rx ! 6)] else [])
         else if rx ! 0 = 2
         then (if M a = None then M(a \<mapsto> new_entry a (rx ! 4) (rx ! 5)) else M,
               [[3, 4, hi (word_of_int a), lo (word_of_int a), 1]])
         else if rx ! 0 = 6
         then (case M a of
                 None \<Rightarrow> M
               | Some d \<Rightarrow> M(a \<mapsto> d\<lparr>e_state := [rx ! 4, rx ! 5, rx ! 6]\<rparr>), [])
         else if rx ! 0 = 0x18 \<and> 27 \<le> unat len \<and> rx_cid rx len = 0 \<and> uint (rx ! 12) \<le> uint len - 13 \<and> M a = None
         then (case xiaomi_name after rx of
                 Inl e \<Rightarrow> M
               | Inr n \<Rightarrow> (case xiaomi_type n of None \<Rightarrow> M | Some ty \<Rightarrow> M(a \<mapsto> new_entry a ty 1)), [])
         else (M, []))"

section \<open>The operations on the table refine the map\<close>

lemma br_abs_None: "br_abs s a = None \<longleftrightarrow> a \<notin> set (br_ids s)"
  by (simp add: br_abs_def)

lemma find_abs_None: "br_table_ok s \<Longrightarrow> find_dev_brower a s = -1 \<longleftrightarrow> br_abs s a = None"
  by (simp add: find_dev_brower_index br_abs_None)

lemma find_abs_Some:
  "br_table_ok s \<Longrightarrow> find_dev_brower a s \<noteq> -1 \<Longrightarrow> br_abs s a = Some (br_device s ! nat (find_dev_brower a s))"
  by (simp add: find_dev_brower_index br_abs_def)

lemma br_abs_cong: "br_device t = br_device s \<Longrightarrow> br_devsize t = br_devsize s \<Longrightarrow> br_abs t = br_abs s"
  by (rule ext) (simp add: br_abs_def br_ids_def)

lemma br_blank_cong: "br_device t = br_device s \<Longrightarrow> br_devsize t = br_devsize s \<Longrightarrow> br_blank t = br_blank s"
  by (simp add: br_blank_def)

lemma br_added_abs:
  assumes "br_table_ok s" "br_blank s" "unat (br_devsize s) < BR_DEV_SIZE" "0 \<le> a" "a < 65536" "br_abs s a = None"
  shows "br_abs (br_added a ty ix s) = (br_abs s)(a \<mapsto> new_entry a ty ix)" "br_blank (br_added a ty ix s)"
proof -
  let ?n = "unat (br_devsize s)" and ?t = "br_added a ty ix s"
  have ids: "br_ids ?t = br_ids s @ [a]" using assms(1,3,4,5) by (rule br_added_ok(2))
  have n: "length (br_ids s) = ?n" using assms(1) by (rule length_br_ids)
  have len: "?n < length (br_device s)" using assms(1,3) by (simp add: br_table_ok_def)
  have dev: "br_device ?t = (br_device s)[?n := new_entry a ty ix]"
    using assms(2) len by (simp add: br_added_def br_blank_def new_entry_def)
  have size: "unat (br_devsize ?t) = Suc ?n"
    using assms(3) by (simp add: br_added_def unat_inc_byte)
  show "br_abs ?t = (br_abs s)(a \<mapsto> new_entry a ty ix)"
  proof (rule ext)
    fix b
    show "br_abs ?t b = ((br_abs s)(a \<mapsto> new_entry a ty ix)) b"
    proof (cases "b \<in> set (br_ids s)")
      case True
      with first_index_nonneg [OF True] n have "nat (first_index b (br_ids s)) < ?n" by simp
      moreover have "b \<noteq> a" using True assms(6) by (auto simp: br_abs_None)
      ultimately show ?thesis using True by (simp add: br_abs_def ids dev first_index_append)
    next
      case False
      moreover have "a \<notin> set (br_ids s)" using assms(6) by (simp add: br_abs_None)
      ultimately show ?thesis using n len by (simp add: br_abs_def ids dev first_index_append)
    qed
  qed
  show "br_blank ?t" using assms(2) size by (simp add: br_blank_def dev)
qed

lemma br_update_abs:
  assumes "br_table_ok s" "distinct (br_ids s)" "find_dev_brower a s \<noteq> -1" "\<And>d. e_id (f d) = e_id d"
  shows "br_abs (br_update (nat (find_dev_brower a s)) f s) =
    (br_abs s)(a \<mapsto> f (br_device s ! nat (find_dev_brower a s)))"
proof (rule ext)
  fix b
  define i where "i = nat (find_dev_brower a s)"
  have i: "i < length (br_device s)" "i < length (br_ids s)"
    using find_dev_brower_range [OF assms(1,3)] by (simp_all add: length_br_ids [OF assms(1)] i_def)
  define t where "t = br_update i f s"
  have dev: "br_device t = (br_device s)[i := f (br_device s ! i)]" by (simp add: t_def br_update_def)
  have "map (\<lambda>d. uint (e_id d)) (br_device t) = map (\<lambda>d. uint (e_id d)) (br_device s)"
    unfolding dev using i assms(4) by (metis list_update_id map_update)
  then have ids: "br_ids t = br_ids s"
    by (simp add: br_ids_def t_def br_update_def take_map [symmetric])
  have a: "a \<in> set (br_ids s)" "nat (first_index a (br_ids s)) = i"
    using assms(1,3) by (simp_all add: find_dev_brower_index i_def)
  have at_i: "br_ids s ! i = a" using first_index_nth [OF a(1)] a(2) by simp
  have "br_abs t b = ((br_abs s)(a \<mapsto> f (br_device s ! i))) b"
  proof (cases "b = a")
    case True
    then show ?thesis using a i by (simp add: br_abs_def ids dev)
  next
    case False
    have "i \<noteq> nat (first_index b (br_ids s))" if "b \<in> set (br_ids s)"
      using first_index_nth [OF that] at_i False by auto
    with False show ?thesis by (simp add: br_abs_def ids dev)
  qed
  then show "br_abs (br_update (nat (find_dev_brower a s)) f s) b =
      ((br_abs s)(a \<mapsto> f (br_device s ! nat (find_dev_brower a s)))) b"
    by (simp add: t_def i_def)
qed

lemma br_update_blank:
  "br_blank s \<Longrightarrow> i < unat (br_devsize s) \<Longrightarrow> br_blank (br_update i f s)"
  by (simp add: br_blank_def br_update_def)

section \<open>The handler refines the specification\<close>

definition br_ready :: "brower \<Rightarrow> bool" where
  "br_ready s \<longleftrightarrow> br_table_ok s \<and> distinct (br_ids s) \<and> br_blank s"

definition frames_out :: "byte list list \<Rightarrow> event list" where
  "frames_out ms = concat (map (\<lambda>m. map TxByte (frame m)) ms)"

definition br_does :: "brower \<Rightarrow> brower \<Rightarrow> br_map \<times> byte list list \<Rightarrow> bool" where
  "br_does s t = (\<lambda>(M, ms). br_abs t = M \<and> br_blank t \<and> br_out t = br_out s @ frames_out ms)"

lemma frames_out_simps [simp]: "frames_out [] = []" "frames_out (m # ms) = map TxByte (frame m) @ frames_out ms"
  by (simp_all add: frames_out_def)

lemma br_sent_fields [simp]:
  "br_abs (br_sent m s) = br_abs s" "br_blank (br_sent m s) = br_blank s"
  "br_out (br_sent m s) = br_out s @ map TxByte (frame m)"
  by (rule br_abs_cong br_blank_cong; simp add: br_sent_def)+ (simp add: br_sent_def)

lemma build_fields:
  "build_json_brower dump s = Inr t \<Longrightarrow>
   br_abs t = br_abs s \<and> br_blank t = br_blank s \<and> br_out t = br_out s"
  by (auto simp: build_json_brower_def split: sum.splits option.splits intro!: br_abs_cong)
    (simp_all add: br_blank_def)

lemma add_build_does:
  assumes "br_ready s" "0 \<le> a" "a < 65536" "br_abs s a = None"
    and "block [br_add a (ty, ix), build_json_brower dump] s = Inr t"
  shows "br_does s t ((br_abs s)(a \<mapsto> new_entry a ty ix), [])"
proof -
  from assms(1,5) have room: "unat (br_devsize s) < BR_DEV_SIZE"
    and b: "build_json_brower dump (br_added a ty ix s) = Inr t"
    by (auto simp: br_ready_def br_add_eq split: if_splits sum.splits)
  have "br_abs (br_added a ty ix s) = (br_abs s)(a \<mapsto> new_entry a ty ix)" "br_blank (br_added a ty ix s)"
    using br_added_abs [of s a ty ix] assms(1,2,3,4) room by (simp_all add: br_ready_def)
  with build_fields [OF b] show ?thesis by (simp add: br_does_def br_added_def)
qed

lemma ctrl_up_does:
  assumes s: "br_ready s" and t: "br_ctrl_up a rx s = Inr t"
  shows "br_does s t (br_abs s,
    case br_abs s a of None \<Rightarrow> []
    | Some d \<Rightarrow> if e_type d = 7 then [spec_lights d (spec_toggle (br_abs s) d)]
                else if e_type d = 3 then [spec_lights d (\<lambda>k. rx ! 6)] else [])"
proof (cases "find_dev_brower a s = -1")
  case True
  with s t show ?thesis
    by (auto simp: br_ctrl_up_def br_does_def br_ready_def find_abs_None)
next
  case False
  have ok: "br_table_ok s" using s by (simp add: br_ready_def)
  define d where "d = br_device s ! nat (find_dev_brower a s)"
  have d: "br_abs s a = Some d" using find_abs_Some [OF ok False] by (simp add: d_def)
  define j where "j = find_dev_brower (uint (e_devid d)) s"
  have toggle: "br_toggle d j s k = Inr v \<Longrightarrow> v = (if e_light d ! k = 1 then spec_toggle (br_abs s) d k else 2)" for k v
    using find_dev_brower_range(1) [OF ok, of "uint (e_devid d)"] find_abs_Some [OF ok, of "uint (e_devid d)"]
    by (auto simp: br_toggle_def spec_toggle_def j_def split: if_splits)
  show ?thesis
  proof (cases "e_type d = 7")
    case True
    with t False obtain v0 v1 v2 where "br_toggle d j s 0 = Inr v0" "br_toggle d j s 1 = Inr v1" "br_toggle d j s 2 = Inr v2"
      and "t = br_sent [0, 6, hi (e_devid d), lo (e_devid d), v0, v1, v2] s"
      by (auto simp: br_ctrl_up_def Let_def br_remote_def d_def j_def split: sum.splits)
    with toggle s True show ?thesis
      by (simp add: br_does_def d spec_lights_def br_ready_def)
  next
    case False
    with t \<open>find_dev_brower a s \<noteq> -1\<close> s show ?thesis
      by (auto simp: br_ctrl_up_def Let_def br_motion_def d_def [symmetric] br_does_def d spec_lights_def br_ready_def)
  qed
qed

lemma register_does:
  assumes s: "br_ready s" and a: "0 \<le> a" "a < 65536" and t: "br_register dump a rx s = Inr t"
  shows "br_does s t (if br_abs s a = None then (br_abs s)(a \<mapsto> new_entry a (rx ! 4) (rx ! 5)) else br_abs s,
    [[3, 4, hi (word_of_int a), lo (word_of_int a), 1]])"
proof (cases "br_abs s a = None")
  case True
  have ok: "br_table_ok s" using s by (simp add: br_ready_def)
  with True t obtain u where u: "block [br_add a (rx ! 4, rx ! 5), build_json_brower dump] s = Inr u"
    and tu: "t = br_sent [3, 4, hi (word_of_int a), lo (word_of_int a), 1] u"
    by (auto simp: br_register_def append_as_add find_abs_None split: sum.splits)
  from add_build_does [OF s a True u] tu True show ?thesis by (simp add: br_does_def)
next
  case False
  with s t show ?thesis
    by (auto simp: br_register_def br_does_def br_ready_def find_abs_None)
qed

lemma list_update_3: "length xs = 3 \<Longrightarrow> xs[0 := a, 1 := b, 2 := c] = [a, b, c]"
  by (cases xs rule: list.exhaust; cases "tl xs"; cases "tl (tl xs)") (auto simp: numeral_2_eq_2)

lemma send_state_does:
  assumes s: "br_ready s" and t: "br_send_state dump a rx s = Inr t"
  shows "br_does s t (case br_abs s a of None \<Rightarrow> br_abs s
    | Some d \<Rightarrow> (br_abs s)(a \<mapsto> d\<lparr>e_state := [rx ! 4, rx ! 5, rx ! 6]\<rparr>), [])"
proof (cases "find_dev_brower a s = -1")
  case True
  with s t show ?thesis
    by (auto simp: br_send_state_def br_does_def br_ready_def find_abs_None)
next
  case False
  have ok: "br_table_ok s" "distinct (br_ids s)" using s by (simp_all add: br_ready_def)
  let ?i = "nat (find_dev_brower a s)" and ?f = "\<lambda>d. d\<lparr>e_state := (e_state d)[0 := rx ! 4, 1 := rx ! 5, 2 := rx ! 6]\<rparr>"
  note i = find_dev_brower_range [OF ok(1) False]
  have "length (e_state (br_device s ! ?i)) = 3"
    using ok(1) i(3) by (simp add: br_table_ok_def list_all_length br_dev_ok_def)
  then have f: "?f (br_device s ! ?i) = (br_device s ! ?i)\<lparr>e_state := [rx ! 4, rx ! 5, rx ! 6]\<rparr>"
    by (simp only: list_update_3)
  from t i(1) have b: "build_json_brower dump (br_update ?i ?f s) = Inr t"
    by (simp add: br_send_state_def Let_def)
  have u: "br_abs (br_update ?i ?f s) = (br_abs s)(a \<mapsto> ?f (br_device s ! ?i))"
    using ok False by (rule br_update_abs) simp
  have "br_blank (br_update ?i ?f s)" using s i(2) by (intro br_update_blank) (simp_all add: br_ready_def)
  with build_fields [OF b] u f find_abs_Some [OF ok(1) False] show ?thesis
    by (simp add: br_does_def br_update_def)
qed

lemma xiaomi_does:
  assumes s: "br_ready s" and a: "0 \<le> a" "a < 65536" and t: "br_xiaomi dump after a cid rx len s = Inr t"
  shows "br_does s t
    (if 27 \<le> unat len \<and> cid = 0 \<and> uint (rx ! 12) \<le> uint len - 13 \<and> br_abs s a = None
     then (case xiaomi_name after rx of
             Inl e \<Rightarrow> br_abs s
           | Inr n \<Rightarrow> (case xiaomi_type n of None \<Rightarrow> br_abs s | Some ty \<Rightarrow> (br_abs s)(a \<mapsto> new_entry a ty 1)), [])
     else (br_abs s, []))"
proof (cases "27 \<le> unat len \<and> cid = 0 \<and> uint (rx ! 12) \<le> uint len - 13 \<and> br_abs s a = None")
  case False
  with s t have "t = s" by (auto simp: br_xiaomi_def br_ready_def find_abs_None)
  with False s show ?thesis by (auto simp: br_does_def br_ready_def)
next
  case True
  have ok: "br_table_ok s" using s by (simp add: br_ready_def)
  from True t ok obtain n where n: "xiaomi_name after rx = Inr n"
    by (cases "xiaomi_name after rx") (auto simp: br_xiaomi_def find_abs_None)
  show ?thesis
  proof (cases "xiaomi_type n")
    case None
    with True t ok n have "t = s"
      by (auto simp: br_xiaomi_def find_abs_None xiaomi_type_def split: if_splits)
    with True None n s show ?thesis by (simp add: br_does_def br_ready_def)
  next
    case (Some ty)
    with True t ok n have "block [br_add a (ty, 1), build_json_brower dump] s = Inr t"
      by (auto simp: br_xiaomi_def append_as_add find_abs_None xiaomi_type_def simp del: block.simps split: if_splits)
    from add_build_does [OF s a _ this] True Some n show ?thesis by simp
  qed
qed

lemma recieve_refines:
  assumes s: "br_ready s" and t: "recieve_usart_brower dump after rx len s = Inr t"
  shows "br_does s t (br_spec after rx len (br_abs s))"
proof -
  note r = rx_id_range [of rx len]
  have same: "br_does s s (br_abs s, [])" using s by (simp add: br_does_def br_ready_def)
  consider "rx ! 0 = 1" | "rx ! 0 = 2" | "rx ! 0 = 6" | "rx ! 0 = 0x18" | "rx ! 0 \<notin> {1, 2, 6, 0x18}" by blast
  then show ?thesis
  proof cases
    case 1
    with t ctrl_up_does [OF s] show ?thesis by (simp add: recieve_usart_brower_def br_spec_def Let_def)
  next
    case 2
    with t register_does [OF s r] show ?thesis by (simp add: recieve_usart_brower_def br_spec_def Let_def)
  next
    case 3
    with t send_state_does [OF s] show ?thesis by (simp add: recieve_usart_brower_def br_spec_def Let_def)
  next
    case 4
    with t have "br_xiaomi dump after (rx_id rx len) (rx_cid rx len) rx len s = Inr t"
      by (simp add: recieve_usart_brower_def Let_def)
    from xiaomi_does [OF s r this] 4 show ?thesis by (simp add: br_spec_def Let_def)
  next
    case 5
    with t same show ?thesis by (simp add: recieve_usart_brower_def br_spec_def Let_def)
  qed
qed

section \<open>What a post of states does\<close>

definition status_msg :: "br_device_t \<Rightarrow> (nat \<Rightarrow> int) \<Rightarrow> nat \<Rightarrow> byte list" where
  "status_msg d v k = [0, 6, hi (e_id d), lo (e_id d)] @ [2, 2, 2][k := word_of_int (v k)]"

definition status_msgs :: "br_device_t \<Rightarrow> (nat \<Rightarrow> int) \<Rightarrow> nat \<Rightarrow> byte list list" where
  "status_msgs d v n = map (status_msg d v) (filter (\<lambda>k. uint (e_state d ! k) \<noteq> v k) [0..<n])"

definition new_states :: "(nat \<Rightarrow> int) \<Rightarrow> nat \<Rightarrow> br_device_t \<Rightarrow> br_device_t" where
  "new_states v n d = d\<lparr>e_state := map (\<lambda>k. if k < n then word_of_int (v k) else e_state d ! k) [0..<3]\<rparr>"

definition status_done :: "nat \<Rightarrow> (nat \<Rightarrow> int) \<Rightarrow> nat \<Rightarrow> brower \<Rightarrow> brower" where
  "status_done i v n s =
     br_emit (frames_out (status_msgs (br_device s ! i) v n)) (br_update i (new_states v n) s)"

lemma new_states_0: "br_dev_ok d \<Longrightarrow> new_states v 0 d = d"
  by (auto simp: new_states_def br_dev_ok_def intro!: nth_equalityI br_device_t.equality)

lemma new_states_Suc:
  "k < 3 \<Longrightarrow> new_states v (Suc k) d = (new_states v k d)\<lparr>e_state := (e_state (new_states v k d))[k := word_of_int (v k)]\<rparr>"
proof -
  assume "k < 3"
  then have "map (\<lambda>j. if j < Suc k then word_of_int (v j) else e_state d ! j) [0..<3] =
      (map (\<lambda>j. if j < k then word_of_int (v j) else e_state d ! j) [0..<3])[k := word_of_int (v k)]"
    by (intro nth_equalityI) (auto simp: nth_list_update less_Suc_eq)
  then show ?thesis by (simp add: new_states_def)
qed

lemma new_states_nth: "k < 3 \<Longrightarrow> e_state (new_states v k d) ! k = e_state d ! k" "e_id (new_states v k d) = e_id d"
  by (simp_all add: new_states_def)

lemma frames_out_append: "frames_out (ms @ ns) = frames_out ms @ frames_out ns"
  by (simp add: frames_out_def)

lemma set_status_done:
  assumes "k < 3" "i < length (br_device s)"
  shows "set_status i k (v k) (status_done i v k s) = Inr (status_done i v (Suc k) s)"
proof -
  define d where "d = br_device s ! i"
  let ?u = "status_done i v k s"
  have d': "br_device ?u ! i = new_states v k d"
    using assms(2) by (simp add: status_done_def br_update_def d_def)
  have same: "e_state (new_states v k d) ! k = word_of_int (v k)" if "uint (e_state d ! k) = v k"
    using that assms(1) by (simp add: new_states_nth that [symmetric])
  have upd: "br_update i (\<lambda>d. d\<lparr>e_state := (e_state d)[k := word_of_int (v k)]\<rparr>) ?u =
      br_emit (frames_out (status_msgs d v k)) (br_update i (new_states v (Suc k)) s)"
    using assms by (simp add: status_done_def br_update_def br_emit_def d_def new_states_Suc)
  show ?thesis
  proof (cases "uint (e_state d ! k) = v k")
    case True
    have "new_states v (Suc k) d = new_states v k d"
      using same [OF True] assms(1) by (subst new_states_Suc) (simp_all add: list_update_id flip: same [OF True])
    then have "br_update i (new_states v (Suc k)) s = br_update i (new_states v k) s"
      by (simp add: br_update_def d_def)
    with True assms(1) d' show ?thesis
      by (simp add: set_status_def new_states_nth Let_def status_done_def status_msgs_def d_def)
  next
    case False
    have "status_msgs d v (Suc k) = status_msgs d v k @ [status_msg d v k]"
      using False by (simp add: status_msgs_def)
    moreover have "status_msg d v k = (if k = 0 then [0, 6, hi (e_id d), lo (e_id d), word_of_int (v k), 2, 2]
        else if k = 1 then [0, 6, hi (e_id d), lo (e_id d), 2, word_of_int (v k), 2]
        else [0, 6, hi (e_id d), lo (e_id d), 2, 2, word_of_int (v k)])"
      using assms(1) by (auto simp: status_msg_def less_Suc_eq eval_nat_numeral)
    ultimately show ?thesis
      using False assms(1) d' upd
      by (simp add: set_status_def new_states_nth Let_def br_sent_def br_emit_def status_done_def frames_out_append
          d_def [symmetric])
  qed
qed

lemma set_status_loop:
  assumes "n \<le> 3" "i < length (br_device s)" "br_dev_ok (br_device s ! i)"
  shows "block (map (\<lambda>k. set_status i k (v k)) [0..<n]) s = Inr (status_done i v n s)"
  using assms(1)
proof (induction n)
  case 0
  have "br_update i (new_states v 0) s = s"
    using assms(2,3) by (simp add: br_update_def new_states_0)
  then show ?case by (simp add: status_done_def status_msgs_def br_emit_def)
next
  case (Suc n)
  then show ?case using set_status_done [of n i s v] assms(2) by (simp add: block_append)
qed

lemma set_status_overrun:
  assumes "3 < n" "i < length (br_device s)" "br_dev_ok (br_device s ! i)"
  shows "block (map (\<lambda>k. set_status i k (v k)) [0..<n]) s = Inl (OutOfBounds, status_done i v 3 s)"
proof -
  have "[0..<n] = [0..<3] @ [3..<n]" using assms(1) upt_add_eq_append [of 0 3 "n - 3"] by simp
  also have "[3..<n] = 3 # [4..<n]" using assms(1) by (simp add: upt_conv_Cons)
  finally have "[0..<n] = [0..<3] @ 3 # [4..<n]" .
  then show ?thesis
    using set_status_loop [of 3 i s v] assms(2,3) by (simp add: block_append set_status_def)
qed

end
