(* ===== verification/Brower_Properties.thy ===== *)
theory Brower_Properties
  imports Brower_Spec Zb_Examples
begin

text \<open>
  The properties of \<^verbatim>\<open>zbserver-brower.c\<close>, and the concrete cases to which they are applied.
\<close>

section \<open>Concrete cases\<close>

definition br_good :: br_setup where
  "br_good = \<lparr>bs_calloc = True, bs_wiringPi = True, bs_serial = True, bs_thread = True, bs_daemon = True\<rparr>"

definition br_begun :: brower where
  "br_begun = br_initial\<lparr>br_json := Some br_head,
     br_out := map TxByte (frame [4, 4, 0x9b, 0x02, 0] @ frame [4, 4, 0x49, 0xf0, 0])\<rparr>"

definition br_begun_sys :: br_sys where
  "br_begun_sys = \<lparr>sys_br = br_begun, sys_tt = 0, sys_con = (\<lambda>k. None)\<rparr>"

lemma map_no_device: "map (\<lambda>d. d\<lparr>e_registered := 0, e_ctrl := 0\<rparr>) (replicate n br_no_device) = replicate n br_no_device"
  by (simp add: br_no_device_def)

lemma br_begun_run: "main_start_brower spaced br_good = Inr (Some br_begun)"
proof -
  have h: "hi 0x9b02 = 0x9b" "lo 0x9b02 = 0x02" "hi 0x49f0 = 0x49" "lo 0x49f0 = 0xf0"
    by (simp_all add: hi_def lo_def)
  show ?thesis
    by (simp add: main_start_brower_def br_good_def br_begun_def Let_def build_json_brower_def br_initial_def
        br_sent_def br_emit_def h br_no_device_def)
qed

lemma br_begun_init: "br_init spaced br_begun_sys"
  using br_begun_run by (auto simp: br_init_def br_begun_sys_def)

lemma br_begun_facts:
  "br_table_ok br_begun" "br_ids br_begun = []" "br_json br_begun = Some br_head" "br_idle br_begun" "br_devsize br_begun = 0"
  using br_start_state [OF br_begun_run] by simp_all

lemma br_begun_ready: "br_ready br_begun"
  using br_begun_facts by (simp add: br_ready_def br_blank_def br_begun_def br_initial_def)

text \<open>The table with one lamp, 0x1234, and a remote control for its first light.\<close>

definition br_lamp :: "u16 \<Rightarrow> byte \<Rightarrow> u16 \<Rightarrow> br_device_t" where
  "br_lamp nid ty target = br_no_device\<lparr>e_id := nid, e_type := ty, e_devid := target, e_light := [1, 0, 0]\<rparr>"

definition br_open_con :: br_con where
  "br_open_con = \<lparr>pc_type = POST_KIND, pc_answer = None, pc_processor = True\<rparr>"

definition br_two :: "u16 \<Rightarrow> brower" where
  "br_two target = br_begun\<lparr>br_devsize := 2,
     br_device := [br_lamp 0x1234 5 0, br_lamp 0x2222 7 target] @ replicate 198 br_no_device\<rparr>"

lemma br_two_ok: "br_table_ok (br_two target)" "br_ids (br_two target) = [0x1234, 0x2222]"
  by (simp_all add: br_two_def br_table_ok_def br_ids_def br_lamp_def br_no_device_def br_dev_ok_def list_all_iff)

lemma br_two_dev: "br_device (br_two target) ! 0 = br_lamp 0x1234 5 0"
  "br_device (br_two target) ! Suc 0 = br_lamp 0x2222 7 target"
  by (simp_all add: br_two_def)

lemma br_two_ready: "br_ready (br_two target)"
proof -
  have "br_blank (br_two target)"
    by (auto simp: br_blank_def br_two_def nth_append less_Suc_eq_0_disj nth_Cons')
  with br_two_ok show ?thesis by (simp add: br_ready_def)
qed

text \<open>json-c on parsed objects; the text of every post is the given object.\<close>

definition tree_json :: "json \<Rightarrow> json json_array_lib" where
  "tree_json j = \<lparr>tokener_parse = (\<lambda>t. Some j),
     to_json_string = (\<lambda>ob. map_option spaced ob),
     object_get_ex = (\<lambda>ob k. case ob of Some (JObject ps) \<Rightarrow> map_of ps k | _ \<Rightarrow> None),
     get_int = (\<lambda>ob. case ob of Some (JInt i) \<Rightarrow> i | _ \<Rightarrow> 0),
     array_length = (\<lambda>ob. case ob of Some (JArray js) \<Rightarrow> Some (length js) | _ \<Rightarrow> None),
     array_get_idx = (\<lambda>ob k. case ob of Some (JArray js) \<Rightarrow> if k < length js then Some (js ! k) else None | _ \<Rightarrow> None)\<rparr>"

definition br_post_doc :: "int list \<Rightarrow> json" where
  "br_post_doc vs = JObject [(''devices'', JArray [JObject [(''id'', JInt 0x1234), (''status'', JArray (map JInt vs))]])]"

section \<open>The running program\<close>

text \<open>
  C26. From the start of the main loop on, whatever bytes arrive, whatever connections are opened, used
  and closed and however that interleaves with the rounds of the loop: as long as no step faults, no
  address is twice in the table, the table and the receive buffer keep their sizes, a connection that
  was opened for a post has its post processor, an answer that was promised has a page, and the counter
  \<^verbatim>\<open>tt\<close> of the main loop is still 0, so that the loop never reaches the cases in which it sends its
  configuration messages (a post of the key \<^verbatim>\<open>open\<close> still sends one, from \<^verbatim>\<open>iterate_post\<close>). The end of a
  request includes the calls of \<^verbatim>\<open>iterate_post\<close> that destroying its post processor makes.
\<close>

theorem brower_invariant:
  assumes "br_init dump m" and "(br_step J dump)\<^sup>*\<^sup>* m n"
  shows "br_inv n"
  using assms by (rule br_system.reachable_inv)

theorem brower_invariant_witness:
  "br_init spaced br_begun_sys \<and>
   (br_step (tree_json (JInt 0)) spaced)\<^sup>*\<^sup>* br_begun_sys (br_begun_sys\<lparr>sys_con := (\<lambda>k. None)(3 := Some br_open_con)\<rparr>) \<and>
   br_inv (br_begun_sys\<lparr>sys_con := (\<lambda>k. None)(3 := Some br_open_con)\<rparr>)"
proof -
  let ?env = "\<lparr>we_malloc = True, we_word = 0, we_processor = True, we_create = True, we_queue = MHD_YES\<rparr>"
  have "answer_to_connection_brower (tree_json (JInt 0)) spaced ?env ''POST'' 0 [] (sys_con br_begun_sys 3) (sys_br br_begun_sys) =
      Inr (MHD_YES, Some br_open_con, br_begun)"
    by (simp add: br_begun_sys_def answer_to_connection_brower_def open_connection_def br_open_con_def)
  then have "br_step (tree_json (JInt 0)) spaced br_begun_sys
      (br_begun_sys\<lparr>sys_br := br_begun, sys_con := (sys_con br_begun_sys)(3 := Some br_open_con)\<rparr>)"
    by (rule br_step.web)
  then have r: "(br_step (tree_json (JInt 0)) spaced)\<^sup>*\<^sup>* br_begun_sys
      (br_begun_sys\<lparr>sys_con := (\<lambda>k. None)(3 := Some br_open_con)\<rparr>)"
    by (simp add: br_begun_sys_def)
  show ?thesis using brower_invariant [OF br_begun_init r] br_begun_init r by blast
qed

text \<open>
  C27. A stream of well-formed frames of up to 99 bytes with noise between them is delivered frame by
  frame: each message once and in order, up to the first fault.
\<close>

theorem brower_stream:
  assumes "br_idle s" and "list_all (\<lambda>(noise, m). 0x55 \<notin> set noise \<and> msg_ok 100 m) ps"
  shows "feed (thread_byte_brower dump after) (concat (map (\<lambda>(noise, m). noise @ frame m) ps)) s =
    block (map (\<lambda>(noise, m). br_deliver dump after m) ps) s"
  using assms by (rule br_link.stream_of_frames)

theorem brower_stream_witness:
  "feed (thread_byte_brower spaced []) ([7] @ frame [2, 5, 0x12, 0x34, 5, 1] @ frame [1, 6, 0x12, 0x34, 1, 1, 1]) br_begun =
   block [br_deliver spaced [] [2, 5, 0x12, 0x34, 5, 1], br_deliver spaced [] [1, 6, 0x12, 0x34, 1, 1, 1]] br_begun"
  using brower_stream [OF br_begun_facts(4), of "[([7], [2, 5, 0x12, 0x34, 5, 1]), ([], [1, 6, 0x12, 0x34, 1, 1, 1])]" spaced "[]"]
  by (simp add: msg_ok_def del: block.simps)

text \<open>
  C28. The handler implements the abstract table: whenever it ends, the table it leaves is the map the
  specification gives for the message, exactly the specified messages were sent, and the table is again
  well formed.
\<close>

theorem brower_refines:
  assumes "br_ready s" and "recieve_usart_brower dump after rx len s = Inr t"
  shows "br_abs t = fst (br_spec after rx len (br_abs s)) \<and>
    br_out t = br_out s @ frames_out (snd (br_spec after rx len (br_abs s))) \<and> br_ready t"
proof -
  have k: "br_keep (br_rx s) s" using assms(1) by (simp add: br_keep_def br_ready_def)
  have "br_does s t (br_spec after rx len (br_abs s))" using assms by (rule recieve_refines)
  with triple_Inr [OF keep_recieve k assms(2)] show ?thesis
    by (auto simp: br_does_def br_ready_def br_keep_def split: prod.splits)
qed

theorem brower_refines_witness:
  "\<exists>t. recieve_usart_brower spaced [] [1, 6, 0x22, 0x22, 1, 1, 1] 7 (br_two 0x1234) = Inr t \<and>
     br_out t = br_out (br_two 0x1234) @ map TxByte (frame [0, 6, 0x12, 0x34, 1, 2, 2]) \<and> br_ready t"
proof -
  let ?s = "br_two 0x1234" and ?rx = "[1, 6, 0x22, 0x22, 1, 1, 1] :: byte list"
  have id: "rx_id ?rx 7 = 0x2222" by (simp add: rx_id_def join16_sum)
  have f: "find_dev_brower 0x2222 ?s = 1" "find_dev_brower 0x1234 ?s = 0"
    by (simp_all add: find_dev_brower_index [OF br_two_ok(1)] br_two_ok(2))
  have d: "br_device ?s ! 1 = br_lamp 0x2222 7 0x1234" "br_device ?s ! 0 = br_lamp 0x1234 5 0"
    by (simp_all add: br_two_def)
  have a: "br_abs ?s 0x2222 = Some (br_lamp 0x2222 7 0x1234)" "br_abs ?s 0x1234 = Some (br_lamp 0x1234 5 0)"
    using find_abs_Some [OF br_two_ok(1), of "0x2222"] find_abs_Some [OF br_two_ok(1), of "0x1234"] f d by simp_all
  obtain t where t: "recieve_usart_brower spaced [] ?rx 7 ?s = Inr t"
    using f d by (simp add: recieve_usart_brower_def Let_def id br_ctrl_up_def br_remote_def br_toggle_def br_lamp_def
        br_no_device_def)
  have "snd (br_spec [] ?rx 7 (br_abs ?s)) = [[0, 6, 0x12, 0x34, 1, 2, 2]]"
    using a by (simp add: br_spec_def Let_def id br_lamp_def spec_lights_def spec_toggle_def hi_def lo_def br_no_device_def)
  with brower_refines [OF br_two_ready t] t show ?thesis by simp
qed

section \<open>Messages and the page\<close>

text \<open>
  C29. \<^verbatim>\<open>build_json\<close> makes the head, the devices separated by commas and the closing brackets; a text of
  2000 bytes or more overflows its buffer. With no device the text is the bare head, which no JSON
  parser accepts; that is the page the server offers from its start until the first device registers.
\<close>

theorem brower_page_text:
  assumes "br_table_ok s" and "br_json s \<noteq> None"
  shows "build_json_brower dump s =
    (if br_devsize s = 0 then Inr (s\<lparr>br_json := Some br_head\<rparr>)
     else let p = br_page dump (take (unat (br_devsize s)) (br_device s))
          in if 2000 \<le> length p then Inl (BufferOverflow, s) else Inr (s\<lparr>br_json := Some p\<rparr>))"
  using assms by (auto simp: build_json_page br_page_def Let_def)

theorem brower_page_text_witness:
  "build_json_brower spaced br_begun = Inr (br_begun\<lparr>br_json := Some br_head\<rparr>)"
  using brower_page_text [of br_begun spaced] by (simp add: br_begun_facts)

text \<open>
  A device that asks to register and is not in the table yet is entered behind the others with its
  type and index, the page shows it, the registration is confirmed, and a later search finds it. This
  needs room in the table and in the page text; with 200 devices the write is out of bounds.
\<close>

theorem brower_register:
  assumes "br_ready s" and "rx ! 0 = 2" and "rx_id rx len \<notin> set (br_ids s)" and "br_json s \<noteq> None"
    and "length (br_page dump (take (unat (br_devsize s)) (br_device s) @ [new_entry (rx_id rx len) (rx ! 4) (rx ! 5)])) < 2000"
  shows "if unat (br_devsize s) < 200
    then \<exists>t. recieve_usart_brower dump after rx len s = Inr t \<and>
      find_dev_brower (rx_id rx len) t = int (unat (br_devsize s)) \<and>
      br_device t ! unat (br_devsize s) = new_entry (rx_id rx len) (rx ! 4) (rx ! 5) \<and>
      br_json t = Some (br_page dump (take (unat (br_devsize s)) (br_device s) @ [new_entry (rx_id rx len) (rx ! 4) (rx ! 5)])) \<and>
      br_out t = br_out s @ map TxByte (frame [3, 4, hi (word_of_int (rx_id rx len)), lo (word_of_int (rx_id rx len)), 1])
    else recieve_usart_brower dump after rx len s = Inl (OutOfBounds, s)"
proof -
  define a where "a = rx_id rx len"
  define n where "n = unat (br_devsize s)"
  define u where "u = br_added a (rx ! 4) (rx ! 5) s"
  note r = rx_id_range [of rx len, folded a_def]
  have ok: "br_table_ok s" and blank: "br_blank s" using assms(1) by (simp_all add: br_ready_def)
  have new: "find_dev_brower a s = -1" using ok assms(3) by (simp add: find_dev_brower_index a_def)
  have run: "recieve_usart_brower dump after rx len s = br_register dump a rx s"
    using assms(2) by (simp add: recieve_usart_brower_def Let_def a_def)
  show ?thesis
  proof (cases "n < 200")
    case False
    with ok new run show ?thesis
      by (simp add: br_register_def append_as_add br_add_eq n_def)
  next
    case True
    have room: "unat (br_devsize s) < BR_DEV_SIZE" using True by (simp add: n_def)
    have add: "br_add a (rx ! 4, rx ! 5) s = Inr u" using ok room by (simp add: br_add_eq u_def)
    have uok: "br_table_ok u" unfolding u_def by (rule br_added_ok(1) [OF ok room])
    have len: "n < length (br_device s)" using True ok by (simp add: br_table_ok_def)
    have size: "unat (br_devsize u) = Suc n" using room by (simp add: u_def br_added_def n_def unat_inc_byte)
    have dev: "br_device u = (br_device s)[n := new_entry a (rx ! 4) (rx ! 5)]"
      using blank len by (simp add: u_def br_added_def br_blank_def n_def new_entry_def)
    have tk: "take (unat (br_devsize u)) (br_device u) = take n (br_device s) @ [new_entry a (rx ! 4) (rx ! 5)]"
      unfolding size dev using len by (simp add: take_Suc_conv_app_nth)
    have "br_json u \<noteq> None" using assms(4) by (simp add: u_def br_added_def)
    with assms(5) have page: "build_json_brower dump u =
        Inr (u\<lparr>br_json := Some (br_page dump (take n (br_device s) @ [new_entry a (rx ! 4) (rx ! 5)]))\<rparr>)"
      using build_json_page [OF uok, of dump] unfolding tk by (simp add: Let_def n_def a_def)
    have "find_dev_brower a u = int (length (br_ids s))"
      using br_table.find_after_register [OF ok r, of "(rx ! 4, rx ! 5)" u] new add by simp
    then have f: "br_find_from 0 a u = int n" using ok by (simp add: length_br_ids n_def find_dev_brower_def)
    have cong: "find_dev_brower a t = int n" if "br_device t = br_device u" "br_devsize t = br_devsize u" "br_table_ok t" for t
      using that f uok by (simp add: find_dev_brower_index br_ids_def find_dev_brower_def [symmetric])
    define t where "t = br_sent [3, 4, hi (word_of_int a), lo (word_of_int a), 1]
      (u\<lparr>br_json := Some (br_page dump (take n (br_device s) @ [new_entry a (rx ! 4) (rx ! 5)]))\<rparr>)"
    have "br_register dump a rx s = Inr t"
      using new add page by (simp add: br_register_def append_as_add t_def)
    moreover have "find_dev_brower a t = int n"
      using uok by (intro cong) (simp_all add: t_def br_sent_def br_table_ok_def)
    moreover have "br_device t ! n = new_entry a (rx ! 4) (rx ! 5)"
      using dev len by (simp add: t_def br_sent_def)
    ultimately show ?thesis
      using run True by (auto simp: t_def br_sent_def u_def br_added_def a_def n_def)
  qed
qed

theorem brower_register_witness:
  "\<exists>t. recieve_usart_brower spaced [] [2, 5, 0x12, 0x34, 5, 1] 6 br_begun = Inr t \<and> find_dev_brower 0x1234 t = 0 \<and>
     br_out t = br_out br_begun @ map TxByte (frame [3, 4, 0x12, 0x34, 1])"
proof -
  have h: "hi 0x1234 = 0x12" "lo 0x1234 = 0x34" by (simp_all add: hi_def lo_def)
  have i: "rx_id [2, 5, 0x12, 0x34, 5, 1] 6 = 0x1234" by (simp add: rx_id_def join16_sum)
  have k: "length (br_page spaced (take (unat (br_devsize br_begun)) (br_device br_begun) @ [new_entry 0x1234 5 1])) < 2000"
    by (simp add: br_begun_facts br_page_def br_head_def br_close_def br_obj_def new_entry_def br_entry_def
        br_no_device_def Let_def quoted_def dec_def dec_nat.simps digit_char_def)
  show ?thesis
    using brower_register [of br_begun "[2, 5, 0x12, 0x34, 5, 1]" 6 spaced "[]", unfolded i] k br_begun_ready
    by (auto simp: br_begun_facts h)
qed

text \<open>
  C31. A remote control toggles the lights it selects, but only when the device it controls is in the
  table: a button of a remote control that selects a light of an unknown device makes the program read
  the table at position \<^verbatim>\<open>-1\<close>. With its default address 0 this is what a freshly configured remote does.
\<close>

theorem brower_remote:
  assumes "br_ready s" and "rx ! 0 = 1" and "br_abs s (rx_id rx len) = Some d" and "e_type d = 7" and "1 \<in> set (e_light d)"
  shows "recieve_usart_brower dump after rx len s =
    (case br_abs s (uint (e_devid d)) of
       None \<Rightarrow> Inl (OutOfBounds, s)
     | Some c \<Rightarrow> Inr (br_sent ([0, 6, hi (e_devid d), lo (e_devid d)] @
         map (\<lambda>k. if e_light d ! k \<noteq> 1 then 2 else if e_state c ! k = 1 then 0 else 1) [0, 1, 2]) s))"
proof -
  have ok: "br_table_ok s" using assms(1) by (simp add: br_ready_def)
  define i where "i = find_dev_brower (rx_id rx len) s"
  have i: "i \<noteq> -1" using find_abs_None [OF ok] assms(3) by (simp add: i_def)
  have d: "br_device s ! nat i = d" using find_abs_Some [OF ok, of "rx_id rx len"] i assms(3) by (simp add: i_def)
  have "nat i < length (br_device s)" using find_dev_brower_range(3) [OF ok] i by (simp add: i_def)
  then have "length (e_light d) = 3" using ok d by (auto simp: br_table_ok_def list_all_length br_dev_ok_def)
  then have lights: "e_light d ! 0 = 1 \<or> e_light d ! 1 = 1 \<or> e_light d ! 2 = 1"
    using assms(5) by (auto simp: in_set_conv_nth less_Suc_eq eval_nat_numeral)
  have run: "recieve_usart_brower dump after rx len s = br_remote d s"
    using assms(2,4) i d by (simp add: recieve_usart_brower_def Let_def br_ctrl_up_def i_def)
  show ?thesis
  proof (cases "br_abs s (uint (e_devid d))")
    case None
    then have "find_dev_brower (uint (e_devid d)) s = -1" using find_abs_None [OF ok] by simp
    with run None lights show ?thesis by (auto simp: br_remote_def Let_def br_toggle_def)
  next
    case (Some c)
    then have j: "find_dev_brower (uint (e_devid d)) s \<noteq> -1" using find_abs_None [OF ok] by simp
    with find_dev_brower_range(1) [OF ok j] find_abs_Some [OF ok j] Some run show ?thesis
      by (auto simp: br_remote_def Let_def br_toggle_def)
  qed
qed

theorem brower_remote_witness:
  "recieve_usart_brower spaced [] [1, 6, 0x22, 0x22, 1, 1, 1] 7 (br_two 0) = Inl (OutOfBounds, br_two 0)"
proof -
  have i: "rx_id [1, 6, 0x22, 0x22, 1, 1, 1] 7 = 0x2222" by (simp add: rx_id_def join16_sum)
  have f: "find_dev_brower 0x2222 (br_two 0) = 1"
    by (simp add: find_dev_brower_index [OF br_two_ok(1)] br_two_ok(2))
  have "br_abs (br_two 0) 0x2222 = Some (br_lamp 0x2222 7 0)" "br_abs (br_two 0) 0 = None"
    using find_abs_Some [OF br_two_ok(1), of "0x2222" 0] f by (simp_all add: br_two_dev br_abs_None br_two_ok(2))
  then show ?thesis
    using brower_remote [OF br_two_ready, of "[1, 6, 0x22, 0x22, 1, 1, 1]" 0 7 "br_lamp 0x2222 7 0" spaced "[]"] i
    by (simp add: br_lamp_def)
qed

text \<open>
  C32. A post of the page that gives a known device a list of up to three states and no new control sets
  those states, sends one message for each state that differs from the table and none for the others, and
  promises the new page as its answer. A list of four states or more makes the program write behind the
  array of states, after the first three were applied.
\<close>

theorem brower_post_states:
  assumes "br_ready s" and "br_json s \<noteq> None" and "0 < sz" "sz \<le> 3000"
    and "tokener_parse J data = Some obj" "object_get_ex J (Some obj) ''devices'' = Some arr"
    and "array_length J (Some arr) = Some 1" "array_get_idx J (Some arr) 0 = dev"
    and "object_get_ex J dev ''control'' = None" "array_length J (object_get_ex J dev ''status'') = Some n"
    and "find_dev_brower (get_int J (object_get_ex J dev ''id'')) s = int i" "br_device s ! i = d"
    and "\<And>k. get_int J (array_get_idx J (object_get_ex J dev ''status'') k) = v k"
    and "length (br_page dump (take (unat (br_devsize s)) ((br_device s)[i := new_states v n d]))) < 2000"
  shows "if n \<le> 3
    then iterate_post_brower J dump (key, data, sz) (s, con) = Inr (MHD_NO,
      (s\<lparr>br_device := (br_device s)[i := new_states v n d],
         br_json := Some (br_page dump (take (unat (br_devsize s)) ((br_device s)[i := new_states v n d]))),
         br_out := br_out s @ frames_out (status_msgs d v n)\<rparr>, con\<lparr>pc_answer := Some ()\<rparr>))
    else iterate_post_brower J dump (key, data, sz) (s, con) = Inl (OutOfBounds, (status_done i v 3 s, con))"
proof -
  have ok: "br_table_ok s" using assms(1) by (simp add: br_ready_def)
  note r = find_dev_brower_range [OF ok, of "get_int J (object_get_ex J dev ''id'')", unfolded assms(11)]
  have i: "i < length (br_device s)" "br_dev_ok (br_device s ! i)"
    using r(3) ok by (simp_all add: br_table_ok_def list_all_length)
  have status: "post_status J i (object_get_ex J dev ''status'') = block (map (\<lambda>k. set_status i k (v k)) [0..<n])"
    using assms(10,13) by (simp add: post_status_def)
  have "post_device J dev s = post_status J i (object_get_ex J dev ''status'') s"
    using assms(9,11) by (simp add: post_device_def post_control_def Let_def)
  then have devs: "post_devices J (Some arr) s = block (map (\<lambda>k. set_status i k (v k)) [0..<n]) s"
    using assms(7,8) by (simp add: post_devices_def status)
  show ?thesis
  proof (cases "n \<le> 3")
    case False
    then show ?thesis
      using assms(3,5,6) devs set_status_overrun [of n i s v] i
      by (simp add: iterate_post_brower_def returning_def on_gateway_def)
  next
    case True
    let ?t = "status_done i v n s"
    have t: "?t = s\<lparr>br_device := (br_device s)[i := new_states v n d], br_out := br_out s @ frames_out (status_msgs d v n)\<rparr>"
      using assms(12) by (simp add: status_done_def br_update_def br_emit_def)
    have nd: "br_dev_ok (new_states v n d)" using i assms(12) by (simp add: br_dev_ok_def new_states_def)
    have "br_table_ok ?t"
      unfolding t using ok i(1) nd by (auto simp: br_table_ok_def list_all_length nth_list_update)
    then have "build_json_brower dump ?t = Inr (?t\<lparr>br_json :=
        Some (br_page dump (take (unat (br_devsize s)) ((br_device s)[i := new_states v n d])))\<rparr>)"
      using assms(2,14) by (subst build_json_page) (auto simp: t Let_def)
    then show ?thesis
      using assms(3-6) devs set_status_loop [OF True i] True
      by (simp add: iterate_post_brower_def returning_def on_gateway_def set_answer_def t)
  qed
qed

theorem brower_post_states_witness:
  "\<exists>t. iterate_post_brower (tree_json (br_post_doc [1, 0, 1])) spaced ([], [], 50) (br_two 0, br_open_con) =
     Inr (MHD_NO, (t, br_open_con\<lparr>pc_answer := Some ()\<rparr>)) \<and>
   br_out t = br_out (br_two 0) @ map TxByte (frame [0, 6, 0x12, 0x34, 1, 2, 2] @ frame [0, 6, 0x12, 0x34, 2, 2, 1])"
proof -
  let ?v = "\<lambda>k. if k < 3 then [1, 0, 1 :: int] ! k else 0" and ?doc = "br_post_doc [1, 0, 1]"
  have h: "hi 0x1234 = 0x12" "lo 0x1234 = 0x34" by (simp_all add: hi_def lo_def)
  have f: "find_dev_brower 0x1234 (br_two 0) = int 0"
    by (simp add: find_dev_brower_index [OF br_two_ok(1)] br_two_ok(2))
  have l: "br_lamp 0x1234 5 0 = \<lparr>e_id = 0x1234, e_type = 5, e_ctrl = 0, e_devid = 0, e_idx = 0, e_light = [1, 0, 0],
      e_state = [0, 0, 0], e_registered = 0\<rparr>"
    by (simp add: br_lamp_def br_no_device_def)
  have n: "new_states ?v 3 (br_lamp 0x1234 5 0) = (br_lamp 0x1234 5 0)\<lparr>e_state := [1, 0, 1]\<rparr>"
    by (simp add: new_states_def l upt_rec)
  have p: "length (br_page spaced (take (unat (br_devsize (br_two 0)))
      ((br_device (br_two 0))[0 := new_states ?v 3 (br_lamp 0x1234 5 0)]))) < 2000"
    unfolding n by (simp add: br_two_def br_lamp_def br_page_def br_head_def br_close_def br_obj_def br_no_device_def
        Let_def quoted_def dec_def dec_nat.simps digit_char_def)
  have m: "status_msgs (br_lamp 0x1234 5 0) ?v 3 = [[0, 6, 0x12, 0x34, 1, 2, 2], [0, 6, 0x12, 0x34, 2, 2, 1]]"
    by (simp add: status_msgs_def status_msg_def l h upt_rec)
  have j: "br_json (br_two 0) \<noteq> None" by (simp add: br_two_def br_begun_def)
  have v: "get_int (tree_json ?doc) (array_get_idx (tree_json ?doc) (Some (JArray (map JInt [1, 0, 1]))) k) = ?v k" for k
    by (auto simp: tree_json_def less_Suc_eq eval_nat_numeral)
  show ?thesis
    using brower_post_states [OF br_two_ready j, of 50 "tree_json ?doc" "[]" ?doc
        "JArray [JObject [(''id'', JInt 0x1234), (''status'', JArray (map JInt [1, 0, 1]))]]"
        "Some (JObject [(''id'', JInt 0x1234), (''status'', JArray (map JInt [1, 0, 1]))])" 3 0 "br_lamp 0x1234 5 0" ?v spaced "[]" br_open_con]
      f p v by (simp add: br_two_dev m) (simp add: tree_json_def br_post_doc_def)
qed

end
