(* ===== verification/Http_Server.thy ===== *)
theory Http_Server
  imports Device_Table Web_Common Step_System
begin

text \<open>
  \<^verbatim>\<open>httpserver.c\<close>: the server in the cloud. Gateways and sensors post forms to it; it keeps a table of
  registered devices and answers each report with a command as JSON text.
\<close>

section \<open>State\<close>

record hs_device_t =
  h_id :: u16
  h_type :: byte
  h_ctrl :: byte
  h_devid :: u16
  h_idx :: byte
  h_light :: "byte list"
  h_state :: "byte list"
  h_registered :: byte

definition hs_no_device :: hs_device_t where
  "hs_no_device = \<lparr>h_id = 0, h_type = 0, h_ctrl = 0, h_devid = 0, h_idx = 0, h_light = [0, 0, 0],
     h_state = [0, 0, 0], h_registered = 0\<rparr>"

text \<open>\<^verbatim>\<open>p_type\<close> is the C string in the array \<^verbatim>\<open>type[20]\<close>.\<close>

record post_struct =
  p_id :: u16
  p_type :: string
  p_dev_type :: byte
  p_idxs :: byte
  p_idx :: byte
  p_action :: byte
  p_value :: u16

definition no_post :: post_struct where
  "no_post = \<lparr>p_id = 0, p_type = [], p_dev_type = 0, p_idxs = 0, p_idx = 0, p_action = 0, p_value = 0\<rparr>"

text \<open>
  A response refers to its page. A page in \<^verbatim>\<open>str22\<close> is read when it is sent, not when it is queued; only
  its length is fixed.
\<close>

datatype hs_page = Literal string | InStr22 nat

record http_server =
  hs_idx :: byte
  hs_old_idx :: int
  hs_tempid :: u16
  hs_tempid2 :: u16
  hs_devsize :: u16
  hs_humaned :: byte
  hs_str22 :: string
  hs_device :: "hs_device_t list"
  hs_post :: "post_struct list"
  hs_temp :: byte              \<comment> \<open>\<^verbatim>\<open>static uint8_t temp\<close> of the humidity report\<close>
  hs_i :: byte                 \<comment> \<open>\<^verbatim>\<open>static uint8_t i\<close> of \<^verbatim>\<open>main\<close>\<close>
  hs_queue :: "hs_page list"   \<comment> \<open>the responses queued so far\<close>

definition HS_DEV_SIZE :: nat where [simp]: "HS_DEV_SIZE = 200"
definition STR22_SIZE :: nat where [simp]: "STR22_SIZE = 200"
definition TYPE_SIZE :: nat where [simp]: "TYPE_SIZE = 20"

definition hs_initial :: http_server where
  "hs_initial = \<lparr>hs_idx = 0, hs_old_idx = 0, hs_tempid = 0, hs_tempid2 = 0, hs_devsize = 0, hs_humaned = 0,
     hs_str22 = [], hs_device = replicate HS_DEV_SIZE hs_no_device, hs_post = replicate 256 no_post,
     hs_temp = 1, hs_i = 0, hs_queue = []\<rparr>"

section \<open>The table\<close>

definition del_dev_http :: "http_server cmd" where
  "del_dev_http s =
     (let i = uint (hs_devsize s) - 1
      in if 0 \<le> i \<and> nat i < length (hs_device s)
         then Inr (s\<lparr>hs_device := (hs_device s)[nat i := (hs_device s ! nat i)
                       \<lparr>h_id := 0, h_type := 0, h_idx := 0, h_registered := 0, h_ctrl := 0\<rparr>],
                     hs_devsize := hs_devsize s - 1\<rparr>)
         else Inl (OutOfBounds, s))"

function hs_find_from :: "nat \<Rightarrow> int \<Rightarrow> http_server \<Rightarrow> int" where
  "hs_find_from i nid s =
     (if i < unat (hs_devsize s)
      then (if uint (h_id (hs_device s ! i)) = nid then int i else hs_find_from (Suc i) nid s)
      else -1)"
  by pat_completeness auto
termination
  by (relation "measure (\<lambda>(i, _, s). unat (hs_devsize s) - i)") auto

declare hs_find_from.simps [simp del]

definition find_dev_http :: "int \<Rightarrow> http_server \<Rightarrow> int" where
  "find_dev_http nid s = hs_find_from 0 nid s"

section \<open>iterate\_post\<close>

text \<open>The data of a call is a C string; the post processor ends it with a zero.\<close>

definition upd_post :: "nat \<Rightarrow> (post_struct \<Rightarrow> post_struct) \<Rightarrow> http_server cmd" where
  "upd_post i f s =
     (if i < length (hs_post s) then Inr (s\<lparr>hs_post := (hs_post s)[i := f (hs_post s ! i)]\<rparr>)
      else Inl (OutOfBounds, s))"

definition clear_previous :: "http_server cmd" where
  "clear_previous s =
     (if hs_old_idx s \<noteq> uint (hs_idx s)
      then (let i = uint (hs_idx s) - 1; t = s\<lparr>hs_old_idx := uint (hs_idx s)\<rparr>
            in if i < 0 then Inl (OutOfBounds, t)
               else upd_post (nat i) (\<lambda>p. p\<lparr>p_id := 0, p_dev_type := 0, p_idxs := 0, p_idx := 0, p_action := 100, p_value := 0\<rparr>) t)
      else Inr s)"

definition set_field :: "string \<Rightarrow> string \<Rightarrow> http_server cmd" where
  "set_field key data = reading (\<lambda>s.
     let i = unat (hs_idx s); n = atoi data
     in if key = ''type''
        then (if length data < TYPE_SIZE then upd_post i (\<lambda>p. p\<lparr>p_type := data\<rparr>) else fault BufferOverflow)
        else if key = ''dev_id'' then upd_post i (\<lambda>p. p\<lparr>p_id := word_of_int n\<rparr>)
        else if key = ''dev_type'' then upd_post i (\<lambda>p. p\<lparr>p_dev_type := word_of_int n\<rparr>)
        else if key = ''idxs'' then upd_post i (\<lambda>p. p\<lparr>p_idxs := word_of_int n\<rparr>)
        else if key = ''idx'' then upd_post i (\<lambda>p. p\<lparr>p_idx := word_of_int n\<rparr>)
        else if key = ''action'' then upd_post i (\<lambda>p. p\<lparr>p_action := word_of_int n\<rparr>)
        else if key = ''action_string'' then skip
        else if key = ''value'' then upd_post i (\<lambda>p. p\<lparr>p_value := word_of_int n\<rparr>)
        else skip)"

definition iterate_post_http :: "item \<Rightarrow> http_server \<Rightarrow> (c_error \<times> http_server) + mhd_ret \<times> http_server" where
  "iterate_post_http x s =
     (case x of (key, data, sz) \<Rightarrow>
        if sz = 0 then Inr (MHD_NO, s)
        else (case block [clear_previous, set_field key data] s of
                Inl f \<Rightarrow> Inl f
              | Inr t \<Rightarrow> Inr (MHD_YES, t)))"

section \<open>The answers\<close>

definition dq :: "string \<Rightarrow> string" where
  "dq t = CHR 0x22 # t @ [CHR 0x22]"

definition jfields :: "(string \<times> string) list \<Rightarrow> string" where
  "jfields ps = CHR 0x7B # concat (map (\<lambda>(i, k, v). (if i = 0 then [] else '','') @ dq k @ '':'' @ dq v)
     (zip [0..<length ps] ps)) @ [CHR 0x7D]"

text \<open>\<^verbatim>\<open>sprintf\<close> of a \<^verbatim>\<open>control_down\<close> command for an address with three states.\<close>

definition control_down :: "int \<Rightarrow> string \<Rightarrow> string \<Rightarrow> string \<Rightarrow> string" where
  "control_down nid s1 s2 s3 = jfields
     [(''devid'', dec nid), (''state1'', s1), (''state2'', s2), (''state3'', s3), (''type'', ''control_down'')]"

definition sprintf_str22 :: "string \<Rightarrow> http_server cmd" where
  "sprintf_str22 t s = (if length t < STR22_SIZE then Inr (s\<lparr>hs_str22 := t\<rparr>) else Inl (BufferOverflow, s))"

definition append_http :: "post_struct \<Rightarrow> http_server cmd" where
  "append_http p s =
     (let n = unat (hs_devsize s)
      in if n < length (hs_device s)
         then Inr (s\<lparr>hs_device := (hs_device s)[n := (hs_device s ! n)\<lparr>h_id := p_id p, h_type := p_dev_type p, h_idx := p_idxs p\<rparr>],
                     hs_devsize := (if n < HS_DEV_SIZE then hs_devsize s + 1 else hs_devsize s)\<rparr>)
         else Inl (OutOfBounds, s))"

definition do_register :: "post_struct \<Rightarrow> http_server cmd" where
  "do_register p =
     (if p_type p = ''register_request'' \<and> p_dev_type p \<noteq> 0 \<and> p_idxs p \<noteq> 0
      then reading (\<lambda>s. let i = find_dev_http (uint (p_id p)) s in block
        [sprintf_str22 (jfields [(''devid'', dec (uint (p_id p))), (''type'', ''register_ok'')]),
         if i = -1 then append_http p else skip])
      else skip)"

definition do_control_up :: "post_struct \<Rightarrow> http_server cmd" where
  "do_control_up p =
     (if p_type p = ''control_up'' \<and> p_id p \<noteq> 0 \<and> p_idx p \<noteq> 0 \<and> p_action p \<noteq> 100
      then block
        [if p_id p = 0xFAF8
         then (if p_action p = 1 then sprintf_str22 (control_down 0x7710 ''3'' ''3'' ''3'')
               else if p_action p = 2 then sprintf_str22 (control_down 0xFFFF ''0'' ''0'' ''0'') else skip)
         else skip,
         if p_id p = 0x1AD6
         then (if p_action p = 1 then sprintf_str22 (control_down 0x9590 ''3'' ''3'' ''3'')
               else if p_action p = 2 then sprintf_str22 (control_down 0xFFFF ''0'' ''0'' ''0'') else skip)
         else skip,
         if p_id p = 0xFC44
         then (if p_action p = 1 then sprintf_str22 (control_down 0xE6B0 ''1'' ''1'' ''1'')
               else if p_action p = 0 then sprintf_str22 (control_down 0xE6B0 ''0'' ''0'' ''0'') else skip)
         else skip]
      else skip)"

text \<open>The humidity report switches a humidifier with hysteresis between 60 and 80 percent.\<close>

definition do_humidity :: "post_struct \<Rightarrow> http_server cmd" where
  "do_humidity p =
     (if p_type p = ''humidity_up'' \<and> p_id p \<noteq> 0 \<and> p_value p \<noteq> 0
      then block
        [reading (\<lambda>s. if 8000 < p_value p
           then block [sprintf_str22 (control_down (uint (hs_tempid s)) ''1'' ''1'' ''1''), modify (\<lambda>s. s\<lparr>hs_temp := 0\<rparr>)]
           else skip),
         reading (\<lambda>s. if p_value p < 6000 \<and> hs_temp s = 0
           then block [sprintf_str22 (control_down (uint (hs_tempid s)) ''0'' ''0'' ''0''), modify (\<lambda>s. s\<lparr>hs_temp := 1\<rparr>)]
           else skip)]
      else skip)"

definition do_ask_state :: "post_struct \<Rightarrow> http_server cmd" where
  "do_ask_state p =
     (if p_type p = ''ask_state'' \<and> p_id p \<noteq> 0
      then reading (\<lambda>s. let i = find_dev_http (uint (p_id p)) s
        in if i \<noteq> -1 \<and> h_type (hs_device s ! nat i) = 6
           then block
             [sprintf_str22 (control_down (uint (p_id p)) ''0'' ''2'' ''2''), modify (\<lambda>s. s\<lparr>hs_tempid2 := p_id p\<rparr>)]
           else if i = -1
           then sprintf_str22 (jfields [(''devid'', dec (uint (p_id p))), (''type'', ''register_failed'')])
           else skip)
      else skip)"

section \<open>answer\_to\_connection\<close>

definition send_page_http :: "web_env \<Rightarrow> hs_page \<Rightarrow> http_server \<Rightarrow> mhd_ret \<times> http_server" where
  "send_page_http env page s =
     (if \<not> we_create env then (MHD_NO, s) else (we_queue env, s\<lparr>hs_queue := hs_queue s @ [page]\<rparr>))"

text \<open>The handling of a complete request: entry \<^verbatim>\<open>re_post[idx]\<close> is answered and \<^verbatim>\<open>idx\<close> moves on.\<close>

definition next_idx :: "byte \<Rightarrow> byte" where
  "next_idx i = (if 250 < i + 1 then 1 else i + 1)"

definition handle_post :: "http_server cmd" where
  "handle_post = reading (\<lambda>s.
     let p = hs_post s ! unat (hs_idx s)
     in block
       [do_register p, do_control_up p, do_humidity p, do_ask_state p,
        modify (\<lambda>s. s\<lparr>hs_idx := next_idx (hs_idx s)\<rparr>)])"

type_synonym hs_con = "unit post_con"

definition answer_to_connection_http ::
    "web_env \<Rightarrow> string \<Rightarrow> nat \<Rightarrow> item list \<Rightarrow> hs_con option \<Rightarrow> http_server
     \<Rightarrow> (c_error \<times> http_server) + mhd_ret \<times> hs_con option \<times> http_server" where
  "answer_to_connection_http env method upload_data_size items con_cls s0 =
     (let s = s0\<lparr>hs_str22 := []\<rparr>
      in case con_cls of
           None \<Rightarrow>
             (case open_connection env method of
                None \<Rightarrow> Inr (MHD_NO, None, s)
              | Some con \<Rightarrow> Inr (MHD_YES, Some con, s))
         | Some con \<Rightarrow>
             if method = ''GET''
             then (case send_page_http env (Literal errorpage) s of (r, t) \<Rightarrow> Inr (r, Some con, t))
             else if method = ''POST'' \<and> upload_data_size \<noteq> 0
             then (if pc_processor con
                   then (case post_process iterate_post_http items s of
                           Inl f \<Rightarrow> Inl f
                         | Inr t \<Rightarrow> Inr (MHD_YES, Some con, t))
                   else Inl (WildPointer, s))
             else (case handle_post s of
                     Inl f \<Rightarrow> Inl f
                   | Inr t \<Rightarrow>
                       (case send_page_http env (InStr22 (length (hs_str22 t))) t of (r, u) \<Rightarrow> Inr (r, Some con, u))))"

text \<open>
  \<^verbatim>\<open>answerstring\<close> is set to null when a connection is made and never again, so its test in the POST branch
  always fails and is left out.
\<close>

text \<open>
  \<^verbatim>\<open>request_completed\<close>: destroying the post processor may call \<^verbatim>\<open>iterate_post\<close> once more (for a body that
  ends in \<^verbatim>\<open>type=%\<close>, say), by then for the next entry.
\<close>

definition request_completed_http ::
    "item list \<Rightarrow> hs_con option \<Rightarrow> http_server \<Rightarrow> (c_error \<times> http_server) + hs_con option \<times> http_server" where
  "request_completed_http items con_cls s =
     (case close_connection con_cls of
        Inl e \<Rightarrow> Inl (e, s)
      | Inr con \<Rightarrow>
          (case con_cls of
             None \<Rightarrow> Inr (con, s)
           | Some c \<Rightarrow>
               (case end_post iterate_post_http items c s of
                  Inl f \<Rightarrow> Inl f
                | Inr t \<Rightarrow> Inr (con, t))))"

section \<open>main\<close>

definition main_start_http :: "bool \<Rightarrow> http_server option" where
  "main_start_http daemon_ok =
     (let s = hs_initial\<lparr>hs_post := map (\<lambda>p. p\<lparr>p_action := 100\<rparr>) (hs_post hs_initial)\<rparr>
      in if daemon_ok then Some s else None)"

definition main_tick_http :: "http_server \<Rightarrow> http_server" where
  "main_tick_http s =
     (if hs_humaned s = 1
      then (let i = hs_i s + 1
            in if 5 < i then s\<lparr>hs_humaned := 0, hs_i := 0\<rparr> else s\<lparr>hs_i := i\<rparr>)
      else s)"

section \<open>What goes out\<close>

text \<open>The bytes of a queued page when libmicrohttpd sends them.\<close>

definition sent_page :: "hs_page \<Rightarrow> http_server \<Rightarrow> string" where
  "sent_page p s =
     (case p of Literal t \<Rightarrow> t | InStr22 n \<Rightarrow> take n (hs_str22 s @ replicate (STR22_SIZE - length (hs_str22 s)) NUL))"

end
