(* ===== verification/Http_Proofs.thy ===== *)
theory Http_Proofs
  imports Http_Server
begin

text \<open>
  Lemmas on \<^verbatim>\<open>httpserver.c\<close>: the search and the append keep the contract of a device table, the texts
  fit their buffer, calls keep the invariant, and what a complete post leaves in its entry.
\<close>

section \<open>The table\<close>

definition hs_ids :: "http_server \<Rightarrow> int list" where
  "hs_ids s = map (\<lambda>d. uint (h_id d)) (take (unat (hs_devsize s)) (hs_device s))"

definition hs_table_ok :: "http_server \<Rightarrow> bool" where
  "hs_table_ok s \<longleftrightarrow> length (hs_device s) = HS_DEV_SIZE \<and> unat (hs_devsize s) \<le> HS_DEV_SIZE"

lemma length_hs_ids: "hs_table_ok s \<Longrightarrow> length (hs_ids s) = unat (hs_devsize s)"
  by (simp add: hs_ids_def hs_table_ok_def)

lemma find_dev_http_index:
  assumes "hs_table_ok s"
  shows "find_dev_http nid s = first_index nid (hs_ids s)"
  unfolding find_dev_http_def
proof (rule search_first_index)
  fix i
  show "hs_find_from i nid s =
      (if i < length (hs_ids s) then if hs_ids s ! i = nid then int i else hs_find_from (Suc i) nid s else -1)"
    using assms by (subst hs_find_from.simps) (simp add: length_hs_ids hs_ids_def hs_table_ok_def)
qed

definition hs_add :: "int \<Rightarrow> post_struct \<Rightarrow> http_server cmd" where
  "hs_add a p = append_http (p\<lparr>p_id := word_of_int a\<rparr>)"

definition hs_added :: "post_struct \<Rightarrow> http_server \<Rightarrow> http_server" where
  "hs_added p s = s\<lparr>hs_device := (hs_device s)[unat (hs_devsize s) :=
       (hs_device s ! unat (hs_devsize s))\<lparr>h_id := p_id p, h_type := p_dev_type p, h_idx := p_idxs p\<rparr>],
     hs_devsize := hs_devsize s + 1\<rparr>"

lemma append_http_eq:
  "hs_table_ok s \<Longrightarrow> append_http p s =
     (if unat (hs_devsize s) < HS_DEV_SIZE then Inr (hs_added p s) else Inl (OutOfBounds, s))"
  by (simp add: append_http_def hs_table_ok_def hs_added_def Let_def)

lemma unat_inc_u16: "unat (x :: u16) < 65535 \<Longrightarrow> unat (x + 1) = Suc (unat x)"
  by (simp add: unat_word_ariths)

lemma hs_added_ok:
  assumes "hs_table_ok s" "unat (hs_devsize s) < HS_DEV_SIZE"
  shows "hs_table_ok (hs_added p s)" "hs_ids (hs_added p s) = hs_ids s @ [uint (p_id p)]"
proof -
  have n: "unat (hs_devsize s + 1) = Suc (unat (hs_devsize s))" using assms(2) by (intro unat_inc_u16) simp
  have len: "unat (hs_devsize s) < length (hs_device s)" using assms by (simp add: hs_table_ok_def)
  show "hs_table_ok (hs_added p s)" using assms n by (simp add: hs_table_ok_def hs_added_def)
  show "hs_ids (hs_added p s) = hs_ids s @ [uint (p_id p)]"
    using n len by (simp add: hs_ids_def hs_added_def take_Suc_conv_app_nth)
qed

interpretation hs_table: device_table hs_ids "\<lambda>a s. (find_dev_http a s, s)" hs_add hs_table_ok
proof unfold_locales
  fix s a x t
  assume s: "hs_table_ok s"
  show "fst (find_dev_http a s, s) = first_index a (hs_ids s)" using s by (simp add: find_dev_http_index)
  assume "hs_add a x s = Inr t"
  with s have room: "unat (hs_devsize s) < HS_DEV_SIZE" and t: "t = hs_added (x\<lparr>p_id := word_of_int a\<rparr>) s"
    by (auto simp: hs_add_def append_http_eq split: if_splits)
  show "hs_table_ok t" using hs_added_ok(1) [OF s room] t by simp
  show "0 \<le> a \<Longrightarrow> a < 65536 \<Longrightarrow> hs_ids t = hs_ids s @ [a]"
    using hs_added_ok(2) [OF s room] t by (simp add: uint_word_of_int)
qed simp_all

section \<open>The texts\<close>

lemma length_dec_address: "0 \<le> n \<Longrightarrow> n < 65536 \<Longrightarrow> length (dec n) \<le> 5"
  using length_dec_nat [of 5 "nat n"] by (simp add: dec_def)

lemma length_dec_word: "length (dec (uint (x :: u16))) \<le> 5"
proof -
  have "uint x < 2 ^ LENGTH(16)" by (rule uint_lt2p)
  then show ?thesis by (intro length_dec_address) simp_all
qed

lemma length_control_down:
  "length (control_down n s1 s2 s3) = 70 + length (dec n) + length s1 + length s2 + length s3"
  by (simp add: control_down_def jfields_def dq_def upt_rec)

lemma length_type_text: "length (jfields [(''devid'', dec n), (''type'', t)]) = 22 + length (dec n) + length t"
  by (simp add: jfields_def dq_def upt_rec)

lemma texts_fit [simp]:
  "length s1 \<le> 10 \<Longrightarrow> length s2 \<le> 10 \<Longrightarrow> length s3 \<le> 10 \<Longrightarrow>
   sprintf_str22 (control_down (uint (x :: u16)) s1 s2 s3) s = Inr (s\<lparr>hs_str22 := control_down (uint x) s1 s2 s3\<rparr>)"
  "length t \<le> 20 \<Longrightarrow> sprintf_str22 (jfields [(''devid'', dec (uint x)), (''type'', t)]) s =
     Inr (s\<lparr>hs_str22 := jfields [(''devid'', dec (uint x)), (''type'', t)]\<rparr>)"
  using length_dec_word [of x] by (simp_all add: sprintf_str22_def length_control_down length_type_text)

lemma fixed_texts_fit [simp]:
  "0 \<le> n \<Longrightarrow> n < 65536 \<Longrightarrow> length s1 \<le> 10 \<Longrightarrow> length s2 \<le> 10 \<Longrightarrow> length s3 \<le> 10 \<Longrightarrow>
   sprintf_str22 (control_down n s1 s2 s3) s = Inr (s\<lparr>hs_str22 := control_down n s1 s2 s3\<rparr>)"
  using length_dec_address [of n] by (simp add: sprintf_str22_def length_control_down)

section \<open>The invariant\<close>

definition hs_inv :: "http_server \<Rightarrow> bool" where
  "hs_inv s \<longleftrightarrow> hs_table_ok s \<and> distinct (hs_ids s) \<and>
     length (hs_post s) = 256 \<and> list_all (\<lambda>p. length (p_type p) < TYPE_SIZE) (hs_post s) \<and>
     unat (hs_idx s) \<le> 250 \<and> (hs_idx s = 0 \<longrightarrow> hs_old_idx s = 0) \<and>
     length (hs_str22 s) < STR22_SIZE \<and> hs_tempid s = 0 \<and> hs_humaned s = 0"

lemma hs_inv_cong:
  "hs_inv s \<Longrightarrow> hs_device t = hs_device s \<Longrightarrow> hs_devsize t = hs_devsize s \<Longrightarrow> hs_post t = hs_post s \<Longrightarrow>
   hs_idx t = hs_idx s \<Longrightarrow> hs_old_idx t = hs_old_idx s \<Longrightarrow> length (hs_str22 t) < STR22_SIZE \<Longrightarrow>
   hs_tempid t = hs_tempid s \<Longrightarrow> hs_humaned t = hs_humaned s \<Longrightarrow> hs_inv t"
  by (simp add: hs_inv_def hs_table_ok_def hs_ids_def)

lemma hs_inv_str22 [simp]: "hs_inv s \<Longrightarrow> length t < STR22_SIZE \<Longrightarrow> hs_inv (s\<lparr>hs_str22 := t\<rparr>)"
  by (rule hs_inv_cong) simp_all

lemma hs_inv_others [simp]:
  "hs_inv s \<Longrightarrow> hs_inv (s\<lparr>hs_temp := b\<rparr>)" "hs_inv s \<Longrightarrow> hs_inv (s\<lparr>hs_tempid2 := x\<rparr>)"
  "hs_inv s \<Longrightarrow> hs_inv (s\<lparr>hs_queue := q\<rparr>)"
  by (simp_all add: hs_inv_def hs_table_ok_def hs_ids_def)

definition post_list_ok :: "post_struct list \<Rightarrow> bool" where
  "post_list_ok ps \<longleftrightarrow> length ps = 256 \<and> list_all (\<lambda>p. length (p_type p) < TYPE_SIZE) ps"

lemma hs_inv_post: "hs_inv s \<Longrightarrow> post_list_ok ps \<Longrightarrow> hs_inv (s\<lparr>hs_post := ps\<rparr>)"
  by (simp add: hs_inv_def post_list_ok_def hs_table_ok_def hs_ids_def)

lemma post_list_ok_update:
  "post_list_ok ps \<Longrightarrow> i < 256 \<Longrightarrow> length (p_type p) < TYPE_SIZE \<Longrightarrow> post_list_ok (ps[i := p])"
  by (auto simp: post_list_ok_def list_all_length nth_list_update)

lemma hs_inv_post_list: "hs_inv s \<Longrightarrow> post_list_ok (hs_post s)"
  by (simp add: hs_inv_def post_list_ok_def)

lemma post_type_short: "post_list_ok ps \<Longrightarrow> i < 256 \<Longrightarrow> length (p_type (ps ! i)) < TYPE_SIZE"
  by (simp add: post_list_ok_def list_all_length)

text \<open>What one item does to an entry.\<close>

definition cleared :: "post_struct \<Rightarrow> post_struct" where
  "cleared p = p\<lparr>p_id := 0, p_dev_type := 0, p_idxs := 0, p_idx := 0, p_action := 100, p_value := 0\<rparr>"

definition with_field :: "string \<Rightarrow> string \<Rightarrow> post_struct \<Rightarrow> post_struct" where
  "with_field key data p =
     (if key = ''type'' then p\<lparr>p_type := data\<rparr>
      else if key = ''dev_id'' then p\<lparr>p_id := word_of_int (atoi data)\<rparr>
      else if key = ''dev_type'' then p\<lparr>p_dev_type := word_of_int (atoi data)\<rparr>
      else if key = ''idxs'' then p\<lparr>p_idxs := word_of_int (atoi data)\<rparr>
      else if key = ''idx'' then p\<lparr>p_idx := word_of_int (atoi data)\<rparr>
      else if key = ''action'' then p\<lparr>p_action := word_of_int (atoi data)\<rparr>
      else if key = ''value'' then p\<lparr>p_value := word_of_int (atoi data)\<rparr>
      else p)"

definition previous_cleared :: "http_server \<Rightarrow> http_server" where
  "previous_cleared s =
     (if hs_old_idx s = uint (hs_idx s) then s
      else s\<lparr>hs_old_idx := uint (hs_idx s),
             hs_post := (hs_post s)[unat (hs_idx s) - 1 := cleared (hs_post s ! (unat (hs_idx s) - 1))]\<rparr>)"

lemma idx_pos: "hs_inv s \<Longrightarrow> hs_old_idx s \<noteq> uint (hs_idx s) \<Longrightarrow> 0 < unat (hs_idx s)"
  by (cases "hs_idx s = 0") (auto simp: hs_inv_def unat_gt_0)

lemma clear_previous_eq:
  assumes "hs_inv s"
  shows "clear_previous s = Inr (previous_cleared s)"
proof (cases "hs_old_idx s = uint (hs_idx s)")
  case True
  then show ?thesis by (simp add: clear_previous_def previous_cleared_def)
next
  case False
  have u: "uint (hs_idx s) = int (unat (hs_idx s))" by simp
  have pos: "0 < unat (hs_idx s)" using idx_pos [OF assms False] by simp
  then have n: "\<not> uint (hs_idx s) - 1 < 0" "nat (uint (hs_idx s) - 1) = unat (hs_idx s) - 1"
    unfolding u by linarith+
  have b: "unat (hs_idx s) - 1 < length (hs_post s)" using assms by (auto simp: hs_inv_def)
  show ?thesis
    using False n b by (simp add: clear_previous_def previous_cleared_def upd_post_def cleared_def Let_def)
qed

lemma previous_cleared_inv: "hs_inv s \<Longrightarrow> hs_inv (previous_cleared s)"
proof (cases "hs_old_idx s = uint (hs_idx s)")
  case True
  then show "hs_inv s \<Longrightarrow> ?thesis" by (simp add: previous_cleared_def)
next
  case False
  assume s: "hs_inv s"
  have "unat (hs_idx s) - 1 < 256" using s by (auto simp: hs_inv_def)
  with post_type_short [OF hs_inv_post_list [OF s]] have "post_list_ok ((hs_post s)[unat (hs_idx s) - 1 := cleared (hs_post s ! (unat (hs_idx s) - 1))])"
    by (intro post_list_ok_update hs_inv_post_list [OF s]) (simp_all add: cleared_def)
  then have "hs_inv (s\<lparr>hs_post := (hs_post s)[unat (hs_idx s) - 1 := cleared (hs_post s ! (unat (hs_idx s) - 1))]\<rparr>)"
    by (rule hs_inv_post [OF s])
  with False show ?thesis by (simp add: previous_cleared_def hs_inv_def hs_table_ok_def hs_ids_def)
qed

definition field_set :: "string \<Rightarrow> string \<Rightarrow> http_server \<Rightarrow> http_server" where
  "field_set key data s = s\<lparr>hs_post := (hs_post s)[unat (hs_idx s) := with_field key data (hs_post s ! unat (hs_idx s))]\<rparr>"

lemma set_field_eq:
  assumes "hs_inv s" and "key = ''type'' \<longrightarrow> length data < TYPE_SIZE"
  shows "set_field key data s = Inr (field_set key data s)"
proof -
  have "unat (hs_idx s) < length (hs_post s)" using assms(1) by (auto simp: hs_inv_def)
  with assms(2) show ?thesis
    by (auto simp: set_field_def Let_def upd_post_def field_set_def with_field_def)
qed

lemma field_set_inv:
  assumes "hs_inv s" and "key = ''type'' \<longrightarrow> length data < TYPE_SIZE"
  shows "hs_inv (field_set key data s)"
proof -
  have "unat (hs_idx s) < 256" using assms(1) by (auto simp: hs_inv_def)
  with assms(2) post_type_short [OF hs_inv_post_list [OF assms(1)], of "unat (hs_idx s)"] show ?thesis
    unfolding field_set_def
    by (intro hs_inv_post post_list_ok_update hs_inv_post_list assms(1)) (auto simp: with_field_def)
qed

lemma field_set_keeps: "hs_old_idx (field_set k d s) = hs_old_idx s" "hs_idx (field_set k d s) = hs_idx s"
  by (simp_all add: field_set_def)

lemma previous_cleared_idem: "hs_old_idx s = uint (hs_idx s) \<Longrightarrow> previous_cleared s = s"
  by (simp add: previous_cleared_def)

lemma previous_cleared_idx: "hs_old_idx (previous_cleared s) = uint (hs_idx s)" "hs_idx (previous_cleared s) = hs_idx s"
  by (simp_all add: previous_cleared_def)

section \<open>A post\<close>

definition item_ok :: "item \<Rightarrow> bool" where
  "item_ok = (\<lambda>(key, data, sz). sz \<noteq> 0 \<and> (key = ''type'' \<longrightarrow> length data < TYPE_SIZE))"

fun items_set :: "item list \<Rightarrow> http_server \<Rightarrow> http_server" where
  "items_set [] s = s"
| "items_set ((key, data, sz) # xs) s = items_set xs (field_set key data s)"

lemma post_items_idle:
  "hs_inv s \<Longrightarrow> hs_old_idx s = uint (hs_idx s) \<Longrightarrow> list_all item_ok xs \<Longrightarrow>
   post_process iterate_post_http xs s = Inr (items_set xs s) \<and> hs_inv (items_set xs s)"
proof (induction xs arbitrary: s)
  case Nil
  then show ?case by simp
next
  case (Cons x xs)
  obtain key data sz where x: "x = (key, data, sz)" by (cases x)
  with Cons.prems have ok: "sz \<noteq> 0" "key = ''type'' \<longrightarrow> length data < TYPE_SIZE" by (auto simp: item_ok_def)
  have "iterate_post_http x s = Inr (MHD_YES, field_set key data s)"
    using Cons.prems(1,2) ok set_field_eq [OF Cons.prems(1) ok(2)]
    by (simp add: iterate_post_http_def x clear_previous_eq previous_cleared_idem)
  moreover have "post_process iterate_post_http xs (field_set key data s) = Inr (items_set xs (field_set key data s)) \<and>
      hs_inv (items_set xs (field_set key data s))"
    using Cons.prems by (intro Cons.IH field_set_inv ok(2)) (simp_all add: field_set_keeps)
  ultimately show ?case by (simp add: x)
qed

lemma post_items:
  assumes "hs_inv s" "list_all item_ok xs"
  shows "post_process iterate_post_http xs s = Inr (if xs = [] then s else items_set xs (previous_cleared s))"
    "hs_inv (if xs = [] then s else items_set xs (previous_cleared s))"
proof -
  have "post_process iterate_post_http xs s = Inr (if xs = [] then s else items_set xs (previous_cleared s)) \<and>
      hs_inv (if xs = [] then s else items_set xs (previous_cleared s))"
  proof (cases xs)
    case Nil
    with assms(1) show ?thesis by simp
  next
    case (Cons x ys)
    let ?s = "previous_cleared s"
    have inv: "hs_inv ?s" using assms(1) by (rule previous_cleared_inv)
    have "post_process iterate_post_http xs ?s = Inr (items_set xs ?s) \<and> hs_inv (items_set xs ?s)"
      using inv assms(2) by (intro post_items_idle) (simp_all add: previous_cleared_idx)
    moreover have "snd (snd x) \<noteq> 0" using assms(2) Cons by (auto simp: item_ok_def)
    then have "iterate_post_http x s = iterate_post_http x ?s"
      using assms(1) inv
      by (cases x) (simp add: iterate_post_http_def clear_previous_eq previous_cleared_idem previous_cleared_idx)
    ultimately show ?thesis using Cons by simp
  qed
  then show "post_process iterate_post_http xs s = Inr (if xs = [] then s else items_set xs (previous_cleared s))"
    "hs_inv (if xs = [] then s else items_set xs (previous_cleared s))" by auto
qed

text \<open>What the items of a post leave in the entry.\<close>

definition entry_of :: "item list \<Rightarrow> post_struct \<Rightarrow> post_struct" where
  "entry_of xs = fold (\<lambda>(key, data, sz). with_field key data) xs"

lemma items_set_eq:
  "unat (hs_idx s) < length (hs_post s) \<Longrightarrow>
   items_set xs s = s\<lparr>hs_post := (hs_post s)[unat (hs_idx s) := entry_of xs (hs_post s ! unat (hs_idx s))]\<rparr>"
proof (induction xs arbitrary: s)
  case Nil
  then show ?case by (simp add: entry_of_def)
next
  case (Cons x xs)
  obtain key data sz where x: "x = (key, data, sz)" by (cases x)
  show ?case
    using Cons.prems Cons.IH [of "field_set key data s"] by (simp add: x field_set_def entry_of_def)
qed

lemma previous_cleared_fields:
  "hs_device (previous_cleared s) = hs_device s" "hs_devsize (previous_cleared s) = hs_devsize s"
  "hs_temp (previous_cleared s) = hs_temp s" "hs_tempid (previous_cleared s) = hs_tempid s"
  "hs_queue (previous_cleared s) = hs_queue s" "hs_str22 (previous_cleared s) = hs_str22 s"
  by (simp_all add: previous_cleared_def)

text \<open>
  The first call of a post with its data: the current entry takes the fields, nothing else of what the
  handling reads changes.
\<close>

lemma post_data_call:
  assumes s: "hs_inv s" and c: "pc_processor c" and n: "n \<noteq> 0" and xs: "list_all item_ok xs" "xs \<noteq> []"
  obtains u where "answer_to_connection_http env ''POST'' n xs (Some c) s = Inr (MHD_YES, Some c, u)"
    and "hs_inv u" and "hs_device u = hs_device s" "hs_devsize u = hs_devsize s" "hs_temp u = hs_temp s"
    and "hs_tempid u = hs_tempid s" "hs_idx u = hs_idx s" "hs_queue u = hs_queue s"
    and "\<exists>q. hs_post u ! unat (hs_idx s) = entry_of xs q"
proof -
  let ?v = "previous_cleared (s\<lparr>hs_str22 := []\<rparr>)"
  have v: "hs_inv (s\<lparr>hs_str22 := []\<rparr>)" using s by simp
  have i: "unat (hs_idx ?v) < length (hs_post ?v)"
    using previous_cleared_inv [OF v] by (auto simp: hs_inv_def)
  note p = post_items [OF v xs(1)]
  note eq = items_set_eq [OF i, of xs]
  show thesis
  proof (rule that [of "items_set xs ?v"])
    show "answer_to_connection_http env ''POST'' n xs (Some c) s = Inr (MHD_YES, Some c, items_set xs ?v)"
      using p(1) xs(2) c n by (simp add: answer_to_connection_http_def Let_def)
    show "hs_inv (items_set xs ?v)" using p(2) xs(2) by simp
    show "\<exists>q. hs_post (items_set xs ?v) ! unat (hs_idx s) = entry_of xs q"
      using i by (simp add: eq previous_cleared_idx) blast
  qed (simp_all add: eq previous_cleared_fields previous_cleared_idx)
qed

section \<open>The handling of a request\<close>

lemma hs_inv_added:
  assumes "hs_inv s" "unat (hs_devsize s) < HS_DEV_SIZE" "uint (p_id p) \<notin> set (hs_ids s)"
  shows "hs_inv (hs_added p s)"
proof -
  have t: "hs_table_ok s" using assms(1) by (simp add: hs_inv_def)
  have "hs_idx (hs_added p s) = hs_idx s" "hs_old_idx (hs_added p s) = hs_old_idx s"
    "hs_post (hs_added p s) = hs_post s" "hs_str22 (hs_added p s) = hs_str22 s"
    "hs_tempid (hs_added p s) = hs_tempid s" "hs_humaned (hs_added p s) = hs_humaned s"
    by (simp_all add: hs_added_def)
  with hs_added_ok [OF t assms(2)] assms show ?thesis by (simp add: hs_inv_def)
qed

definition hs_room :: "http_server \<Rightarrow> bool" where
  "hs_room s \<longleftrightarrow> unat (hs_devsize s) < HS_DEV_SIZE"

lemma str22_fits:
  "length (control_down (uint (x :: u16)) [a] [b] [c]) < STR22_SIZE"
  "0 \<le> n \<Longrightarrow> n < 65536 \<Longrightarrow> length (control_down n [a] [b] [c]) < STR22_SIZE"
  "length t \<le> 20 \<Longrightarrow> length (jfields [(''devid'', dec (uint x)), (''type'', t)]) < STR22_SIZE"
  using length_dec_word [of x] length_dec_address [of n] by (simp_all add: length_control_down length_type_text)

lemma triple_text:
  "(\<And>s. sprintf_str22 t s = Inr (s\<lparr>hs_str22 := t\<rparr>)) \<Longrightarrow> length t < STR22_SIZE \<Longrightarrow>
   triple hs_inv (sprintf_str22 t) hs_inv no_fault"
  by (simp add: triple_def)

lemma control_up_inv: "triple hs_inv (do_control_up p) hs_inv no_fault"
  unfolding do_control_up_def by (intro inv_rules triple_text str22_fits; simp)

lemma humidity_inv: "triple hs_inv (do_humidity p) hs_inv no_fault"
  unfolding do_humidity_def
  by (intro inv_rules triple_text str22_fits triple_modify; simp)

lemma ask_state_inv: "triple hs_inv (do_ask_state p) hs_inv no_fault"
  unfolding do_ask_state_def Let_def
  by (intro inv_rules triple_text str22_fits triple_modify; simp)

text \<open>A register request writes behind the table when it is full; nothing else faults.\<close>

lemma register_cases:
  assumes s: "hs_inv s"
  shows "do_register p s = Inr t \<Longrightarrow> hs_inv t" "hs_room s \<Longrightarrow> \<exists>t. do_register p s = Inr t"
proof -
  let ?u = "s\<lparr>hs_str22 := jfields [(''devid'', dec (uint (p_id p))), (''type'', ''register_ok'')]\<rparr>"
  have u: "hs_inv ?u" using s by (intro hs_inv_str22 str22_fits) simp_all
  then have ok: "hs_table_ok ?u" by (simp add: hs_inv_def)
  show "hs_inv t" if t: "do_register p s = Inr t"
  proof -
    have "t = s \<or> t = ?u \<or> (find_dev_http (uint (p_id p)) s = -1 \<and> append_http p ?u = Inr t)"
      using t by (auto simp: do_register_def split: if_splits)
    then show "hs_inv t"
    proof (elim disjE conjE)
      assume f: "find_dev_http (uint (p_id p)) s = -1" and a: "append_http p ?u = Inr t"
      have "hs_table_ok s" using s by (simp add: hs_inv_def)
      with f have "uint (p_id p) \<notin> set (hs_ids ?u)" by (simp add: find_dev_http_index hs_ids_def)
      with a ok u show ?thesis by (auto simp: append_http_eq intro: hs_inv_added split: if_splits)
    qed (use s u in simp_all)
  qed
  show "\<exists>t. do_register p s = Inr t" if "hs_room s"
    using that ok by (simp add: do_register_def append_http_eq hs_room_def)
qed

lemma register_inv: "triple hs_inv (do_register p) hs_inv any_fault"
  by (rule tripleI) (auto dest: register_cases(1))

lemma register_total: "triple (\<lambda>s. hs_inv s \<and> hs_room s) (do_register p) hs_inv no_fault"
proof (rule tripleI)
  fix s t
  assume "hs_inv s \<and> hs_room s" "do_register p s = Inr t"
  then show "hs_inv t" by (blast intro: register_cases(1))
next
  fix s e t
  assume "hs_inv s \<and> hs_room s" and f: "do_register p s = Inl (e, t)"
  then obtain u where "do_register p s = Inr u" using register_cases(2) by blast
  with f show "no_fault e t" by simp
qed

lemma unat_next_idx: "unat i \<le> 250 \<Longrightarrow> 1 \<le> unat (next_idx i) \<and> unat (next_idx i) \<le> 250"
proof -
  assume i: "unat i \<le> 250"
  then have "unat (i + 1) = Suc (unat i)" by (simp add: unat_word_ariths)
  with i show ?thesis by (auto simp: next_idx_def word_less_nat_alt)
qed

lemma idx_inv: "triple hs_inv (modify (\<lambda>s. s\<lparr>hs_idx := next_idx (hs_idx s)\<rparr>)) hs_inv E"
proof (rule triple_modify)
  fix s
  assume s: "hs_inv s"
  then have "unat (hs_idx s) \<le> 250" by (simp add: hs_inv_def)
  from unat_next_idx [OF this] have "unat (next_idx (hs_idx s)) \<le> 250" "next_idx (hs_idx s) \<noteq> 0"
    by auto
  with s show "hs_inv (s\<lparr>hs_idx := next_idx (hs_idx s)\<rparr>)"
    by (simp add: hs_inv_def hs_table_ok_def hs_ids_def)
qed

lemmas request_rules = inv_rules control_up_inv humidity_inv ask_state_inv idx_inv

lemma handle_post_inv: "triple hs_inv handle_post hs_inv any_fault"
  unfolding handle_post_def Let_def
  by (intro inv_rules register_inv triple_any_fault [OF control_up_inv] triple_any_fault [OF humidity_inv]
      triple_any_fault [OF ask_state_inv] idx_inv)

lemma handle_post_total: "triple (\<lambda>s. hs_inv s \<and> hs_room s) handle_post hs_inv no_fault"
  unfolding handle_post_def Let_def
proof (rule triple_reading)
  fix r :: http_server
  let ?p = "hs_post r ! unat (hs_idx r)"
  have "triple (\<lambda>s. (hs_inv s \<and> hs_room s) \<and> s = r) (do_register ?p) hs_inv no_fault"
    by (rule triple_conseq [OF register_total]) auto
  then show "triple (\<lambda>s. (hs_inv s \<and> hs_room s) \<and> s = r)
     (block [do_register ?p, do_control_up ?p, do_humidity ?p, do_ask_state ?p,
        modify (\<lambda>s. s\<lparr>hs_idx := next_idx (hs_idx s)\<rparr>)]) hs_inv no_fault"
    by (rule triple_block_Cons) (intro request_rules)
qed

text \<open>The last call of a post: the entry is handled and the text in \<^verbatim>\<open>str22\<close> is queued.\<close>

lemma post_last_call:
  assumes "handle_post (u\<lparr>hs_str22 := []\<rparr>) = Inr t" and "we_create env"
  shows "answer_to_connection_http env ''POST'' 0 [] (Some c) u =
    Inr (we_queue env, Some c, t\<lparr>hs_queue := hs_queue t @ [InStr22 (length (hs_str22 t))]\<rparr>)"
  using assms by (simp add: answer_to_connection_http_def Let_def send_page_http_def)

lemma send_page_http_inv: "hs_inv s \<Longrightarrow> send_page_http env p s = (r, t) \<Longrightarrow> hs_inv t"
  by (auto simp: send_page_http_def split: if_splits)

text \<open>
  A call of \<^verbatim>\<open>answer_to_connection\<close>: the method of a connection is the same in all its calls, and a post of
  a type text of 20 characters or more is left out. A piece of size 0 may stand anywhere: there
  \<^verbatim>\<open>iterate_post\<close> returns \<^verbatim>\<open>MHD_NO\<close> and the rest of the data is not delivered.
\<close>

definition item_fits :: "item \<Rightarrow> bool" where
  "item_fits = (\<lambda>(key, data, sz). sz \<noteq> 0 \<and> key = ''type'' \<longrightarrow> length data < TYPE_SIZE)"

lemma iterate_post_http_total:
  assumes s: "hs_inv s" and x: "item_fits x"
  shows "\<exists>r t. iterate_post_http x s = Inr (r, t) \<and> hs_inv t"
proof -
  obtain key data sz where k: "x = (key, data, sz)" by (cases x)
  have u: "hs_inv (previous_cleared s)" using s by (rule previous_cleared_inv)
  show ?thesis
  proof (cases "sz = 0")
    case True
    with s show ?thesis by (simp add: iterate_post_http_def k)
  next
    case False
    with x have ok: "key = ''type'' \<longrightarrow> length data < TYPE_SIZE" by (simp add: item_fits_def k)
    with False show ?thesis
      using field_set_inv [OF u ok] by (simp add: iterate_post_http_def k clear_previous_eq [OF s] set_field_eq [OF u ok])
  qed
qed

text \<open>A type text that is too long is written behind its 20 bytes, whatever follows it.\<close>

lemma type_overflow:
  assumes s: "hs_inv s" and c: "pc_processor c" and sz: "sz \<noteq> 0" "20 \<le> length data" and n: "n \<noteq> 0"
  shows "\<exists>t. answer_to_connection_http env ''POST'' n ((''type'', data, sz) # items) (Some c) s = Inl (BufferOverflow, t)"
proof -
  have u: "hs_inv (s\<lparr>hs_str22 := []\<rparr>)" using s by simp
  have "iterate_post_http (''type'', data, sz) (s\<lparr>hs_str22 := []\<rparr>) =
      Inl (BufferOverflow, previous_cleared (s\<lparr>hs_str22 := []\<rparr>))"
    using sz by (simp add: iterate_post_http_def clear_previous_eq [OF u] set_field_def Let_def)
  with c n show ?thesis by (simp add: answer_to_connection_http_def Let_def)
qed

definition call_ok :: "string \<Rightarrow> item list \<Rightarrow> hs_con option \<Rightarrow> bool" where
  "call_ok method items con \<longleftrightarrow> list_all item_fits items \<and>
     (\<forall>c. con = Some c \<longrightarrow> con_ok c \<and> (method = ''POST'' \<longrightarrow> pc_type c = POST_KIND))"

lemma answer_http_total:
  assumes s: "hs_inv s" and ok: "call_ok method items con" and room: "hs_room s"
  shows "\<exists>r c t. answer_to_connection_http env method n items con s = Inr (r, c, t)"
proof -
  define u where "u = s\<lparr>hs_str22 := []\<rparr>"
  have u: "hs_inv u" "hs_room u" using s room by (simp_all add: u_def hs_room_def)
  note def = answer_to_connection_http_def Let_def u_def [symmetric]
  show ?thesis
  proof (cases con)
    case None
    then show ?thesis by (cases "open_connection env method :: hs_con option") (auto simp: def)
  next
    case (Some c)
    with ok have c: "method = ''POST'' \<longrightarrow> pc_processor c" by (auto simp: call_ok_def con_ok_def)
    have "list_all item_fits items" using ok by (simp add: call_ok_def)
    then have "\<exists>t. post_process iterate_post_http items u = Inr t"
      using iterate_post_http_total by (intro post_process_total [of hs_inv, OF _ u(1)]) (auto simp: list_all_iff)
    then obtain v where items: "post_process iterate_post_http items u = Inr v" by blast
    obtain t where "handle_post u = Inr t" using triple_total [OF handle_post_total] u by blast
    with Some c items show ?thesis by (auto simp: def split: prod.splits)
  qed
qed

text \<open>Whatever a post contains, a call that returns keeps the invariant.\<close>

lemma iterate_post_http_inv:
  assumes "hs_inv s" and "iterate_post_http x s = Inr (r, t)"
  shows "hs_inv t"
proof -
  obtain key data sz where x: "x = (key, data, sz)" by (cases x)
  have u: "hs_inv (previous_cleared s)" using assms(1) by (rule previous_cleared_inv)
  show ?thesis
  proof (cases "sz = 0")
    case True
    with assms x show ?thesis by (simp add: iterate_post_http_def)
  next
    case False
    with assms x have t: "set_field key data (previous_cleared s) = Inr t"
      by (auto simp: iterate_post_http_def clear_previous_eq split: sum.splits)
    then have "key = ''type'' \<longrightarrow> length data < TYPE_SIZE"
      by (auto simp: set_field_def Let_def split: if_splits)
    with set_field_eq [OF u this] field_set_inv [OF u this] t show ?thesis by simp
  qed
qed

lemma answer_http_inv:
  assumes "hs_inv s" and "\<And>c. con = Some c \<Longrightarrow> con_ok c"
    and "answer_to_connection_http env method n items con s = Inr (r, con', t)"
  shows "hs_inv t \<and> (\<forall>c. con' = Some c \<longrightarrow> con_ok c)"
proof -
  have u: "hs_inv (s\<lparr>hs_str22 := []\<rparr>)" using assms(1) by simp
  have post: "post_process iterate_post_http items (s\<lparr>hs_str22 := []\<rparr>) = Inr v \<Longrightarrow> hs_inv v" for v
    using post_process_inv [of hs_inv iterate_post_http "s\<lparr>hs_str22 := []\<rparr>" items v] iterate_post_http_inv u by blast
  have handle: "handle_post (s\<lparr>hs_str22 := []\<rparr>) = Inr v \<Longrightarrow> hs_inv v" for v
    by (rule triple_Inr [OF handle_post_inv u])
  have page: "send_page_http env p v = (q, w) \<Longrightarrow> hs_inv v \<Longrightarrow> hs_inv w" for p v q w
    using send_page_http_inv by blast
  show ?thesis
    using assms u post handle open_connection_ok [of env "method"]
    by (auto simp: answer_to_connection_http_def Let_def intro: page
        split: option.splits if_splits prod.splits sum.splits)
qed

lemma completed_http_inv:
  assumes "hs_inv s" and "request_completed_http items con s = Inr (con', t)"
  shows "hs_inv t \<and> con' = None"
  using assms end_post_inv [of hs_inv iterate_post_http s items _ t, OF iterate_post_http_inv]
  by (auto simp: request_completed_http_def close_connection_def split: option.splits if_splits sum.splits)

section \<open>The running server\<close>

record hs_sys =
  hss :: http_server
  hss_con :: "nat \<Rightarrow> hs_con option"

inductive hs_step :: "hs_sys \<Rightarrow> hs_sys \<Rightarrow> bool" where
  web: "answer_to_connection_http env method n items (hss_con m k) (hss m) = Inr (r, con, t) \<Longrightarrow>
    hs_step m (m\<lparr>hss := t, hss_con := (hss_con m)(k := con)\<rparr>)"
| completed: "request_completed_http items (hss_con m k) (hss m) = Inr (con, t) \<Longrightarrow>
    hs_step m (m\<lparr>hss := t, hss_con := (hss_con m)(k := con)\<rparr>)"
| tick: "hs_step m (m\<lparr>hss := main_tick_http (hss m)\<rparr>)"

inductive_cases hs_stepE: "hs_step m n"

definition hss_init :: "hs_sys \<Rightarrow> bool" where
  "hss_init m \<longleftrightarrow> main_start_http True = Some (hss m) \<and> hss_con m = (\<lambda>k. None)"

definition hss_inv :: "hs_sys \<Rightarrow> bool" where
  "hss_inv m \<longleftrightarrow> hs_inv (hss m) \<and> (\<forall>k c. hss_con m k = Some c \<longrightarrow> con_ok c)"

lemma hs_start_inv: "main_start_http b = Some s \<Longrightarrow> hs_inv s"
  by (auto simp: main_start_http_def hs_initial_def hs_inv_def hs_table_ok_def hs_ids_def no_post_def list_all_length
      split: if_splits)

lemma hs_tick_inv: "hs_inv s \<Longrightarrow> main_tick_http s = s"
  by (simp add: main_tick_http_def hs_inv_def)

lemma hs_step_inv: "hss_inv m \<Longrightarrow> hs_step m n \<Longrightarrow> hss_inv n"
proof (erule hs_stepE)
  fix env :: web_env and mth i items k r con t
  assume m: "hss_inv m"
    and a: "answer_to_connection_http env mth i items (hss_con m k) (hss m) = Inr (r, con, t)"
    and n: "n = m\<lparr>hss := t, hss_con := (hss_con m)(k := con)\<rparr>"
  have "hs_inv (hss m)" "\<And>c. hss_con m k = Some c \<Longrightarrow> con_ok c" using m by (simp_all add: hss_inv_def)
  from answer_http_inv [OF this a] m n show ?thesis by (auto simp: hss_inv_def)
next
  fix items k con t
  assume m: "hss_inv m" and c: "request_completed_http items (hss_con m k) (hss m) = Inr (con, t)"
    and n: "n = m\<lparr>hss := t, hss_con := (hss_con m)(k := con)\<rparr>"
  have "hs_inv t" "con = None" using m completed_http_inv [OF _ c] by (simp_all add: hss_inv_def)
  with m n show ?thesis by (auto simp: hss_inv_def)
next
  assume "hss_inv m" "n = m\<lparr>hss := main_tick_http (hss m)\<rparr>"
  then show ?thesis by (simp add: hss_inv_def hs_tick_inv)
qed

interpretation hs_system: step_system hss_init hs_step hss_inv
proof unfold_locales
  show "hss_init m \<Longrightarrow> hss_inv m" for m
    by (auto simp: hss_init_def hss_inv_def dest: hs_start_inv)
  show "hss_inv m \<Longrightarrow> hs_step m n \<Longrightarrow> hss_inv n" for m n by (rule hs_step_inv)
qed

end
