(* ===== verification/Http_Properties.thy ===== *)
theory Http_Properties
  imports Http_Proofs
begin

text \<open>
  The properties of \<^verbatim>\<open>httpserver.c\<close>, and the concrete cases to which they are applied.
\<close>

section \<open>Concrete cases\<close>

definition hs_begun :: http_server where
  "hs_begun = hs_initial\<lparr>hs_post := replicate 256 (no_post\<lparr>p_action := 100\<rparr>)\<rparr>"

definition hs_begun_sys :: hs_sys where
  "hs_begun_sys = \<lparr>hss = hs_begun, hss_con = (\<lambda>k. None)\<rparr>"

definition web_ok :: web_env where
  "web_ok = \<lparr>we_malloc = True, we_word = 0, we_processor = True, we_create = True, we_queue = MHD_YES\<rparr>"

definition hs_post_con :: hs_con where
  "hs_post_con = \<lparr>pc_type = POST_KIND, pc_answer = None, pc_processor = True\<rparr>"

lemma hs_begun_init: "main_start_http True = Some hs_begun"
  by (simp add: main_start_http_def hs_begun_def hs_initial_def)

lemma hs_begun_inv: "hs_inv hs_begun"
  using hs_begun_init by (rule hs_start_inv)

lemma hs_begun_sys_init: "hss_init hs_begun_sys"
  by (simp add: hss_init_def hs_begun_sys_def hs_begun_init)

lemma hs_post_con_ok: "con_ok hs_post_con"
  by (simp add: hs_post_con_def con_ok_def)

lemma hs_begun_values:
  "pc_processor hs_post_con" "we_create web_ok" "we_queue web_ok = MHD_YES" "hs_ids hs_begun = []"
  "hs_devsize hs_begun = 0" "hs_queue hs_begun = []" "hs_idx hs_begun = 0" "hs_temp hs_begun = 1" "hs_str22 hs_begun = []"
  by (simp_all add: hs_post_con_def web_ok_def hs_ids_def hs_begun_def hs_initial_def)

section \<open>The running server\<close>

text \<open>
  C33. In every reachable state of the server, whatever requests its connections make in whatever order,
  as long as no step faults (what faults is C34): the table has no address twice, the index of the
  current entry is at most 250 and the entry before it exists whenever it is reset, every type text ends
  within its 20 bytes and every answer within its 200 bytes, and every post connection has its post
  processor. The address of the humidifier, \<^verbatim>\<open>tempid\<close>, is still 0, since nothing ever sets it.
\<close>

theorem http_invariant:
  assumes "hss_init m" and "hs_step\<^sup>*\<^sup>* m n"
  shows "hss_inv n"
  using assms by (rule hs_system.reachable_inv)

theorem http_invariant_witness:
  "hss_init hs_begun_sys \<and> hs_step\<^sup>*\<^sup>* hs_begun_sys (hs_begun_sys\<lparr>hss_con := (\<lambda>k. None)(7 := Some hs_post_con)\<rparr>) \<and>
   hss_inv (hs_begun_sys\<lparr>hss_con := (\<lambda>k. None)(7 := Some hs_post_con)\<rparr>)"
proof -
  have "answer_to_connection_http web_ok ''POST'' 0 [] (hss_con hs_begun_sys 7) (hss hs_begun_sys) =
      Inr (MHD_YES, Some hs_post_con, hs_begun)"
    by (simp add: hs_begun_sys_def answer_to_connection_http_def open_connection_def web_ok_def hs_post_con_def hs_begun_values)
  then have "hs_step hs_begun_sys (hs_begun_sys\<lparr>hss := hs_begun, hss_con := (hss_con hs_begun_sys)(7 := Some hs_post_con)\<rparr>)"
    by (rule hs_step.web)
  then have r: "hs_step\<^sup>*\<^sup>* hs_begun_sys (hs_begun_sys\<lparr>hss_con := (\<lambda>k. None)(7 := Some hs_post_con)\<rparr>)"
    by (simp add: hs_begun_sys_def)
  show ?thesis using http_invariant [OF hs_begun_sys_init r] hs_begun_sys_init r by blast
qed

text \<open>
  C34. From such a state, every call of \<^verbatim>\<open>answer_to_connection\<close> for a connection whose method does not
  change returns and leaves such a state, when the table has room and no type text of 20 characters or
  more is posted; empty pieces are allowed. A call that begins with a type text that long writes behind its
  buffer.
\<close>

theorem http_call_returns:
  assumes "hs_inv s" and "call_ok method items con" and "unat (hs_devsize s) < 200"
  shows "(\<exists>r c t. answer_to_connection_http env method n items con s = Inr (r, c, t) \<and> hs_inv t) \<and>
    (pc_processor c0 \<and> n \<noteq> 0 \<and> sz \<noteq> 0 \<and> 20 \<le> length data \<longrightarrow>
      (\<exists>t. answer_to_connection_http env ''POST'' n ((''type'', data, sz) # items) (Some c0) s = Inl (BufferOverflow, t)))"
proof (intro conjI impI)
  have "hs_room s" using assms(3) by (simp add: hs_room_def)
  from answer_http_total [OF assms(1,2) this, of env n]
  obtain r c t where run: "answer_to_connection_http env method n items con s = Inr (r, c, t)" by blast
  have "\<And>c. con = Some c \<Longrightarrow> con_ok c" using assms(2) by (simp add: call_ok_def)
  from answer_http_inv [OF assms(1) this run] run
  show "\<exists>r c t. answer_to_connection_http env method n items con s = Inr (r, c, t) \<and> hs_inv t" by blast
qed (use type_overflow [OF assms(1)] in blast)

theorem http_call_returns_witness:
  "(\<exists>r c t. answer_to_connection_http web_ok ''POST'' 28 [(''type'', ''register_request'', 16), (''value'', [], 0)]
     (Some hs_post_con) hs_begun = Inr (r, c, t) \<and> hs_inv t) \<and>
   (\<exists>t. answer_to_connection_http web_ok ''POST'' 28 ((''type'', replicate 20 CHR ''x'', 20) #
     [(''type'', ''register_request'', 16), (''value'', [], 0)]) (Some hs_post_con) hs_begun = Inl (BufferOverflow, t))"
proof -
  have "call_ok ''POST'' [(''type'', ''register_request'', 16), (''value'', [], 0)] (Some hs_post_con)"
    using hs_post_con_ok by (simp add: call_ok_def item_fits_def hs_post_con_def)
  moreover have "unat (hs_devsize hs_begun) < 200" by (simp add: hs_begun_def hs_initial_def)
  ultimately show ?thesis
    using http_call_returns [OF hs_begun_inv, of "''POST''" "[(''type'', ''register_request'', 16), (''value'', [], 0)]"
        "Some hs_post_con" web_ok 28 hs_post_con 20 "replicate 20 CHR ''x''"] hs_begun_values(1)
    by (simp only: length_replicate) simp
qed

section \<open>What a post does\<close>

definition register_items :: "int \<Rightarrow> int \<Rightarrow> int \<Rightarrow> item list" where
  "register_items d ty ix = map (\<lambda>(k, v). (k, v, length v))
     [(''type'', ''register_request''), (''dev_id'', dec d), (''dev_type'', dec ty), (''idxs'', dec ix)]"

definition humidity_items :: "int \<Rightarrow> int \<Rightarrow> item list" where
  "humidity_items d v = map (\<lambda>(k, v). (k, v, length v))
     [(''type'', ''humidity_up''), (''dev_id'', dec d), (''value'', dec v)]"

lemma dec_not_Nil: "dec i \<noteq> []"
  by (simp add: dec_def dec_nat_not_Nil)

lemma items_are_ok: "list_all item_ok (register_items d ty ix)" "list_all item_ok (humidity_items d v)"
  by (simp_all add: register_items_def humidity_items_def item_ok_def dec_not_Nil)

lemma register_entry:
  assumes "0 \<le> d" "d < 65536" "0 \<le> ty" "ty < 256" "0 \<le> ix" "ix < 256"
  shows "p_type (entry_of (register_items d ty ix) q) = ''register_request''"
    "p_id (entry_of (register_items d ty ix) q) = word_of_int d"
    "p_dev_type (entry_of (register_items d ty ix) q) = word_of_int ty"
    "p_idxs (entry_of (register_items d ty ix) q) = word_of_int ix"
  using assms by (simp_all add: entry_of_def register_items_def with_field_def atoi_dec)

lemma humidity_entry:
  assumes "0 \<le> d" "d < 65536" "0 \<le> v" "v < 65536"
  shows "p_type (entry_of (humidity_items d v) q) = ''humidity_up''"
    "p_id (entry_of (humidity_items d v) q) = word_of_int d"
    "p_value (entry_of (humidity_items d v) q) = word_of_int v"
  using assms by (simp_all add: entry_of_def humidity_items_def with_field_def atoi_dec)

lemma word_of_int_nonzero: "0 < n \<Longrightarrow> n < 65536 \<Longrightarrow> (word_of_int n :: u16) \<noteq> 0"
  "0 < m \<Longrightarrow> m < 256 \<Longrightarrow> (word_of_int m :: byte) \<noteq> 0"
  by (auto simp: word_of_int_eq_0_iff dest: zdvd_imp_le)

text \<open>
  A registration posted with the address, type and index of a new device: it is entered behind the
  others, the search finds it, and the answer queued for the connection is the text that confirms it.
\<close>

theorem http_register:
  assumes s: "hs_inv s" and c: "pc_processor c" and n: "n \<noteq> 0" and env: "we_create env"
    and d: "0 \<le> d" "d < 65536" "0 < ty" "ty < 256" "0 < ix" "ix < 256"
    and new: "d \<notin> set (hs_ids s)" and room: "unat (hs_devsize s) < 200"
  shows "\<exists>u t. answer_to_connection_http env ''POST'' n (register_items d ty ix) (Some c) s = Inr (MHD_YES, Some c, u) \<and>
    answer_to_connection_http env ''POST'' 0 [] (Some c) u = Inr (we_queue env, Some c, t) \<and>
    hs_ids t = hs_ids s @ [d] \<and> find_dev_http d t = int (unat (hs_devsize s)) \<and>
    h_type (hs_device t ! unat (hs_devsize s)) = word_of_int ty \<and>
    hs_str22 t = jfields [(''devid'', dec d), (''type'', ''register_ok'')] \<and>
    hs_queue t = hs_queue s @ [InStr22 (length (hs_str22 t))] \<and> hs_idx t = next_idx (hs_idx s)"
proof -
  let ?xs = "register_items d ty ix"
  have "?xs \<noteq> []" by (simp add: register_items_def)
  from post_data_call [OF s c n items_are_ok(1) this, of env] obtain u q
    where run: "answer_to_connection_http env ''POST'' n ?xs (Some c) s = Inr (MHD_YES, Some c, u)"
    and u: "hs_inv u" "hs_device u = hs_device s" "hs_devsize u = hs_devsize s" "hs_idx u = hs_idx s"
      "hs_queue u = hs_queue s"
    and p: "hs_post u ! unat (hs_idx s) = entry_of ?xs q"
    by metis
  define e where "e = entry_of ?xs q"
  have e: "p_type e = ''register_request''" "p_id e = word_of_int d" "p_dev_type e = word_of_int ty" "p_idxs e = word_of_int ix"
    using register_entry d by (simp_all add: e_def)
  have ud: "uint (word_of_int d :: u16) = d" using d by (simp add: uint_word_of_int)
  define v where "v = u\<lparr>hs_str22 := jfields [(''devid'', dec d), (''type'', ''register_ok'')]\<rparr>"
  have ids: "hs_ids v = hs_ids s" "hs_ids (u\<lparr>hs_str22 := []\<rparr>) = hs_ids s" using u by (simp_all add: v_def hs_ids_def)
  have ok: "hs_table_ok v" "hs_table_ok (u\<lparr>hs_str22 := []\<rparr>)" "hs_table_ok s"
    using u(1) s by (simp_all add: v_def hs_inv_def hs_table_ok_def)
  have r: "unat (hs_devsize v) < HS_DEV_SIZE" using room u by (simp add: v_def)
  have "find_dev_http d (u\<lparr>hs_str22 := []\<rparr>) = -1" using new ok by (simp add: find_dev_http_index ids)
  then have "do_register e (u\<lparr>hs_str22 := []\<rparr>) = Inr (hs_added e v)"
    using d ok r word_of_int_nonzero(2) texts_fit(2) [of "''register_ok''" "word_of_int d"]
    by (simp add: do_register_def e ud append_http_eq v_def)
  then have h: "handle_post (u\<lparr>hs_str22 := []\<rparr>) = Inr ((hs_added e v)\<lparr>hs_idx := next_idx (hs_idx s)\<rparr>)"
    using p u(4) by (simp add: handle_post_def e_def [symmetric] do_control_up_def do_humidity_def do_ask_state_def e
        hs_added_def v_def)
  note a = hs_added_ok [OF ok(1) r, of e]
  define t where "t = (hs_added e v)\<lparr>hs_idx := next_idx (hs_idx s), hs_queue := hs_queue s @ [InStr22 (length (hs_str22 v))]\<rparr>"
  have t: "hs_ids t = hs_ids s @ [d]" "hs_table_ok t"
    using a ids e ud by (simp_all add: t_def hs_ids_def hs_table_ok_def)
  have "answer_to_connection_http env ''POST'' 0 [] (Some c) u = Inr (we_queue env, Some c, t)"
    using post_last_call [OF h env] u(5) by (simp add: t_def hs_added_def v_def)
  moreover have "find_dev_http d t = int (unat (hs_devsize s))"
    using t new ok(3) by (simp add: find_dev_http_index first_index_append length_hs_ids)
  moreover have "unat (hs_devsize s) < length (hs_device s)" using ok(3) room by (simp add: hs_table_ok_def)
  then have "h_type (hs_device t ! unat (hs_devsize s)) = word_of_int ty"
    using u e by (simp add: t_def hs_added_def v_def)
  moreover have "hs_str22 t = jfields [(''devid'', dec d), (''type'', ''register_ok'')]"
    "hs_queue t = hs_queue s @ [InStr22 (length (hs_str22 t))]" "hs_idx t = next_idx (hs_idx s)"
    by (simp_all add: t_def hs_added_def v_def)
  ultimately show ?thesis using run t(1) by blast
qed

theorem http_register_witness:
  "\<exists>u t. answer_to_connection_http web_ok ''POST'' 60 (register_items 4660 6 1) (Some hs_post_con) hs_begun =
       Inr (MHD_YES, Some hs_post_con, u) \<and>
     answer_to_connection_http web_ok ''POST'' 0 [] (Some hs_post_con) u = Inr (MHD_YES, Some hs_post_con, t) \<and>
     hs_ids t = [4660] \<and> find_dev_http 4660 t = 0"
proof -
  note facts = hs_begun_values
  have "\<exists>u t. answer_to_connection_http web_ok ''POST'' 60 (register_items 4660 6 1) (Some hs_post_con) hs_begun =
      Inr (MHD_YES, Some hs_post_con, u) \<and>
    answer_to_connection_http web_ok ''POST'' 0 [] (Some hs_post_con) u = Inr (we_queue web_ok, Some hs_post_con, t) \<and>
    hs_ids t = hs_ids hs_begun @ [4660] \<and> find_dev_http 4660 t = int (unat (hs_devsize hs_begun)) \<and>
    h_type (hs_device t ! unat (hs_devsize hs_begun)) = word_of_int 6 \<and>
    hs_str22 t = jfields [(''devid'', dec 4660), (''type'', ''register_ok'')] \<and>
    hs_queue t = hs_queue hs_begun @ [InStr22 (length (hs_str22 t))] \<and> hs_idx t = next_idx (hs_idx hs_begun)"
    by (rule http_register [OF hs_begun_inv]) (simp_all add: facts)
  then obtain u t where "answer_to_connection_http web_ok ''POST'' 60 (register_items 4660 6 1) (Some hs_post_con) hs_begun =
      Inr (MHD_YES, Some hs_post_con, u)"
    "answer_to_connection_http web_ok ''POST'' 0 [] (Some hs_post_con) u = Inr (we_queue web_ok, Some hs_post_con, t)"
    "hs_ids t = hs_ids hs_begun @ [4660]" "find_dev_http 4660 t = int (unat (hs_devsize hs_begun))"
    by blast
  then show ?thesis by (intro exI [of _ u] exI [of _ t]) (simp add: facts)
qed

text \<open>
  A posted humidity switches the humidifier with hysteresis: above 80 percent the answer switches it
  on, below 60 percent it switches it off if it was switched on before, and in between the answer is
  empty. The command goes to address 0, whatever device the report came from.
\<close>

definition humidity_answer :: "int \<Rightarrow> bool \<Rightarrow> string \<times> bool" where
  "humidity_answer v on =
     (if 8000 < v then (control_down 0 ''1'' ''1'' ''1'', True)
      else if v < 6000 \<and> on then (control_down 0 ''0'' ''0'' ''0'', False)
      else ([], on))"

theorem http_humidity:
  assumes s: "hs_inv s" and c: "pc_processor c" and n: "n \<noteq> 0" and env: "we_create env"
    and d: "0 < d" "d < 65536" "0 < v" "v < 65536"
  shows "\<exists>u t. answer_to_connection_http env ''POST'' n (humidity_items d v) (Some c) s = Inr (MHD_YES, Some c, u) \<and>
    answer_to_connection_http env ''POST'' 0 [] (Some c) u = Inr (we_queue env, Some c, t) \<and>
    (hs_str22 t, hs_temp t = 0) = humidity_answer v (hs_temp s = 0) \<and>
    hs_queue t = hs_queue s @ [InStr22 (length (hs_str22 t))]"
proof -
  let ?xs = "humidity_items d v"
  have "?xs \<noteq> []" by (simp add: humidity_items_def)
  from post_data_call [OF s c n items_are_ok(2) this, of env] obtain u q
    where run: "answer_to_connection_http env ''POST'' n ?xs (Some c) s = Inr (MHD_YES, Some c, u)"
    and u: "hs_inv u" "hs_temp u = hs_temp s" "hs_idx u = hs_idx s" "hs_queue u = hs_queue s"
    and p: "hs_post u ! unat (hs_idx s) = entry_of ?xs q"
    by metis
  define e where "e = entry_of ?xs q"
  have e: "p_type e = ''humidity_up''" "p_id e = word_of_int d" "p_value e = word_of_int v"
    using humidity_entry d by (simp_all add: e_def)
  have uv: "uint (word_of_int v :: u16) = v" using d by (simp add: uint_word_of_int)
  have cmp: "(8000 < (word_of_int v :: u16)) = (8000 < v)" "((word_of_int v :: u16) < 6000) = (v < 6000)"
    using uv by (simp_all add: word_less_def)
  have tid: "hs_tempid u = 0" using u(1) by (simp add: hs_inv_def)
  define w where "w = u\<lparr>hs_str22 := fst (humidity_answer v (hs_temp s = 0)),
    hs_temp := (if 8000 < v then 0 else if v < 6000 \<and> hs_temp s = 0 then 1 else hs_temp s)\<rparr>"
  have "do_humidity e (u\<lparr>hs_str22 := []\<rparr>) = Inr w"
    using d tid u(2) fixed_texts_fit [of 0]
    by (auto simp: do_humidity_def e cmp word_of_int_nonzero humidity_answer_def w_def)
  then have "handle_post (u\<lparr>hs_str22 := []\<rparr>) = Inr (w\<lparr>hs_idx := next_idx (hs_idx s)\<rparr>)"
    using p u(3) by (simp add: handle_post_def e_def [symmetric] do_register_def do_control_up_def do_ask_state_def e w_def)
  from post_last_call [OF this env] u(2,4)
  have "answer_to_connection_http env ''POST'' 0 [] (Some c) u = Inr (we_queue env, Some c,
      w\<lparr>hs_idx := next_idx (hs_idx s), hs_queue := hs_queue s @ [InStr22 (length (hs_str22 w))]\<rparr>)"
    by (simp add: w_def)
  moreover have "(hs_str22 w, hs_temp w = 0) = humidity_answer v (hs_temp s = 0)"
    by (simp add: w_def humidity_answer_def)
  ultimately show ?thesis
    using run by (intro exI [of _ u] exI [of _ "w\<lparr>hs_idx := next_idx (hs_idx s),
      hs_queue := hs_queue s @ [InStr22 (length (hs_str22 w))]\<rparr>"]) simp
qed

theorem http_humidity_witness:
  "\<exists>u t. answer_to_connection_http web_ok ''POST'' 45 (humidity_items 4660 8500) (Some hs_post_con) hs_begun =
       Inr (MHD_YES, Some hs_post_con, u) \<and>
     answer_to_connection_http web_ok ''POST'' 0 [] (Some hs_post_con) u = Inr (MHD_YES, Some hs_post_con, t) \<and>
     (hs_str22 t, hs_temp t = 0) = (control_down 0 ''1'' ''1'' ''1'', True)"
proof -
  note facts = hs_begun_values
  have "\<exists>u t. answer_to_connection_http web_ok ''POST'' 45 (humidity_items 4660 8500) (Some hs_post_con) hs_begun =
      Inr (MHD_YES, Some hs_post_con, u) \<and>
    answer_to_connection_http web_ok ''POST'' 0 [] (Some hs_post_con) u = Inr (we_queue web_ok, Some hs_post_con, t) \<and>
    (hs_str22 t, hs_temp t = 0) = humidity_answer 8500 (hs_temp hs_begun = 0) \<and>
    hs_queue t = hs_queue hs_begun @ [InStr22 (length (hs_str22 t))]"
    by (rule http_humidity [OF hs_begun_inv]) (simp_all add: facts)
  moreover have "humidity_answer 8500 (hs_temp hs_begun = 0) = (control_down 0 ''1'' ''1'' ''1'', True)"
    by (simp add: humidity_answer_def)
  ultimately show ?thesis unfolding facts by metis
qed

lemma first_call: "answer_to_connection_http env method n items None t =
    (case open_connection env method of
       None \<Rightarrow> Inr (MHD_NO, None, t\<lparr>hs_str22 := []\<rparr>)
     | Some con \<Rightarrow> Inr (MHD_YES, Some con, t\<lparr>hs_str22 := []\<rparr>))"
  by (simp add: answer_to_connection_http_def Let_def)

text \<open>The answer to a post that was handled.\<close>

lemma last_call_state:
  assumes "answer_to_connection_http env ''POST'' 0 [] (Some c) s = Inr (r, Some c, t)" and "we_create env" and "hs_inv s"
  obtains v where "hs_inv v" "t = v\<lparr>hs_queue := hs_queue v @ [InStr22 (length (hs_str22 v))]\<rparr>"
proof (cases "handle_post (s\<lparr>hs_str22 := []\<rparr>)")
  case (Inl f)
  with assms(1) show ?thesis by (simp add: answer_to_connection_http_def Let_def)
next
  case (Inr v)
  have "hs_inv (s\<lparr>hs_str22 := []\<rparr>)" using assms(3) by simp
  from triple_Inr [OF handle_post_inv this Inr] have "hs_inv v" .
  moreover have "Inr (we_queue env, Some c, v\<lparr>hs_queue := hs_queue v @ [InStr22 (length (hs_str22 v))]\<rparr>) =
      (Inr (r, Some c, t) :: (c_error \<times> http_server) + mhd_ret \<times> hs_con option \<times> http_server)"
    using post_last_call [OF Inr assms(2), of c] assms(1) by (rule trans [OF sym])
  ultimately show ?thesis using that [of v] by (simp only: sum.inject prod.inject)
qed

text \<open>
  C37. The answer is not copied: a response refers to \<^verbatim>\<open>str22\<close>, which every call for any connection
  clears first. When a client connects between the handling of a post and the sending of its answer, the
  answer that goes out is as many zero bytes as the answer had characters.
\<close>

theorem http_answer_lost:
  assumes "answer_to_connection_http env ''POST'' 0 [] (Some c) s = Inr (r, Some c, t)" and "we_create env"
    and "hs_inv s" and "answer_to_connection_http env' method n items None t = Inr (r', con, u)"
  shows "last (hs_queue t) = InStr22 (length (hs_str22 t)) \<and>
    sent_page (last (hs_queue t)) t = hs_str22 t \<and>
    sent_page (last (hs_queue t)) u = replicate (length (hs_str22 t)) NUL"
proof -
  obtain v where v: "hs_inv v" "t = v\<lparr>hs_queue := hs_queue v @ [InStr22 (length (hs_str22 v))]\<rparr>"
    by (rule last_call_state [OF assms(1,2,3)])
  then have q: "last (hs_queue t) = InStr22 (length (hs_str22 t))" and len: "length (hs_str22 t) < 200"
    by (simp_all add: hs_inv_def)
  have "hs_str22 u = []" using assms(4) by (auto simp: first_call split: option.splits)
  with q len show ?thesis by (simp add: sent_page_def)
qed

theorem http_answer_lost_witness:
  "\<exists>u t v. answer_to_connection_http web_ok ''POST'' 60 (register_items 4660 6 1) (Some hs_post_con) hs_begun =
       Inr (MHD_YES, Some hs_post_con, u) \<and>
     answer_to_connection_http web_ok ''POST'' 0 [] (Some hs_post_con) u = Inr (MHD_YES, Some hs_post_con, t) \<and>
     answer_to_connection_http web_ok ''GET'' 0 [] None t =
       Inr (MHD_YES, Some \<lparr>pc_type = GET_KIND, pc_answer = None, pc_processor = False\<rparr>, v) \<and>
     sent_page (last (hs_queue t)) v = replicate (length (hs_str22 t)) NUL"
proof -
  note facts = hs_begun_values
  have w: "we_malloc web_ok" by (simp add: web_ok_def)
  have "register_items 4660 6 1 \<noteq> []" by (simp add: register_items_def)
  then obtain u where u: "answer_to_connection_http web_ok ''POST'' 60 (register_items 4660 6 1) (Some hs_post_con) hs_begun =
      Inr (MHD_YES, Some hs_post_con, u)" "hs_inv u" "hs_devsize u = hs_devsize hs_begun"
    by (rule post_data_call [OF hs_begun_inv facts(1) _ items_are_ok(1), of 60 4660 6 1 web_ok, OF zero_neq_numeral [symmetric]])
  then have "\<exists>t. handle_post (u\<lparr>hs_str22 := []\<rparr>) = Inr t \<and> hs_inv t"
    by (intro triple_total [OF handle_post_total]) (simp add: hs_room_def facts)
  then obtain v where "handle_post (u\<lparr>hs_str22 := []\<rparr>) = Inr v" by blast
  from post_last_call [OF this facts(2), of hs_post_con] obtain t
    where last: "answer_to_connection_http web_ok ''POST'' 0 [] (Some hs_post_con) u = Inr (MHD_YES, Some hs_post_con, t)"
    unfolding facts(3) by blast
  have new: "answer_to_connection_http web_ok ''GET'' 0 [] None t =
      Inr (MHD_YES, Some \<lparr>pc_type = GET_KIND, pc_answer = None, pc_processor = False\<rparr>, t\<lparr>hs_str22 := []\<rparr>)"
    using w by (simp add: first_call open_connection_def)
  show ?thesis
    using u(1) last new http_answer_lost [OF last facts(2) u(2) new] by blast
qed

end
