(* ===== verification/Door_Server.thy ===== *)
theory Door_Server
  imports Serial_Link Web_Common
begin

text \<open>
  The door opener: \<^verbatim>\<open>zbserver.c\<close>, a web page with two buttons whose posts send a frame to the lock, and
  \<^verbatim>\<open>zigbee/zbclient.c\<close>, a program that presses the buttons by itself. Both read frames of ten bytes from
  the serial line. \<^verbatim>\<open>zbserver-json.c\<close> and \<^verbatim>\<open>zbserver-weixin.c\<close> are the same program with another page text,
  which is therefore a parameter, given by what stands before and behind its \<^verbatim>\<open>%s\<close>.
\<close>

section \<open>State\<close>

record door =
  dr_step :: byte           \<comment> \<open>\<^verbatim>\<open>rx_step\<close>\<close>
  dr_i :: byte              \<comment> \<open>the variable \<^verbatim>\<open>i\<close> of \<^verbatim>\<open>thread\<close>\<close>
  dr_rebuf :: "byte list"
  dr_str :: string
  dr_shown :: "byte list list"   \<comment> \<open>the frames printed by \<^verbatim>\<open>thread\<close>\<close>
  dr_out :: "event list"

definition REBUF_SIZE :: nat where [simp]: "REBUF_SIZE = 100"
definition DR_MAXNAMESIZE :: nat where [simp]: "DR_MAXNAMESIZE = 20"
definition DR_MAXANSWERSIZE :: nat where [simp]: "DR_MAXANSWERSIZE = 512"

definition door_initial :: door where
  "door_initial = \<lparr>dr_step = 0, dr_i = 0, dr_rebuf = replicate REBUF_SIZE 0, dr_str = ''undefine'',
     dr_shown = [], dr_out = []\<rparr>"

definition dr_emit :: "event list \<Rightarrow> door \<Rightarrow> door" where
  "dr_emit es s = s\<lparr>dr_out := dr_out s @ es\<rparr>"

section \<open>Frames\<close>

type_synonym door_cmd = "u16 \<times> byte \<times> byte \<times> byte"

definition door_frame :: "door_cmd \<Rightarrow> byte list" where
  "door_frame = (\<lambda>(nid, s1, s2, s3).
     [0xaa, 0xc0, hi nid, lo nid, s1, s2, s3, 0, hi nid + lo nid + s1 + s2 + s3, 0xab])"

definition send_usart_door :: "door_cmd \<Rightarrow> door cmd" where
  "send_usart_door c = modify (dr_emit (map TxByte (door_frame c)))"

text \<open>One round of the loop of \<^verbatim>\<open>thread\<close>, the same in both programs.\<close>

definition door_byte :: "byte \<Rightarrow> door cmd" where
  "door_byte ch s =
     (if dr_step s = 0 then Inr (if ch = 0xaa then s\<lparr>dr_step := 1\<rparr> else s)
      else if dr_step s = 1 then Inr (if ch = 0xc0 then s\<lparr>dr_step := 2\<rparr> else s)
      else if dr_step s = 2
      then (if dr_i s < 7
            then (if unat (dr_i s) < length (dr_rebuf s)
                  then Inr (s\<lparr>dr_i := dr_i s + 1, dr_rebuf := (dr_rebuf s)[unat (dr_i s) := ch]\<rparr>)
                  else Inl (OutOfBounds, s))
            else (let t = s\<lparr>dr_step := 0, dr_i := 0\<rparr>
                  in if ch = 0xab \<and> dr_rebuf t ! 6 = sum_list (take 6 (dr_rebuf t))
                     then Inr (t\<lparr>dr_shown := dr_shown t @ [take 7 (dr_rebuf t)]\<rparr>)
                     else Inr t))
      else Inr s)"

section \<open>The web page\<close>

record page_text =
  pt_before :: string
  pt_behind :: string

text \<open>\<^verbatim>\<open>askpage\<close> of \<^verbatim>\<open>zbserver.c\<close>; its lines are joined with the blanks that follow each backslash.\<close>

definition indent :: string where
  "indent = replicate 23 CHR '' ''"

definition attr :: "string \<Rightarrow> string \<Rightarrow> string" where
  "attr k v = k @ [CHR 0x3D, CHR 0x22] @ v @ [CHR 0x22]"

definition door_form :: "string \<Rightarrow> string" where
  "door_form nm = ''<form '' @ attr ''action'' [] @ '' '' @ attr ''method'' ''post'' @ ''>'' @ indent @
     ''<input '' @ attr ''name'' nm @ '' '' @ attr ''type'' ''submit'' @ '' '' @ attr ''value'' ('' '' @ nm @ '' '') @ ''></form>''"

definition askpage_door :: page_text where
  "askpage_door = \<lparr>pt_before = ''<html><body>'' @ indent @ ''door satate:'',
     pt_behind = ''! <br>'' @ indent @ door_form ''open'' @ indent @ door_form ''close'' @ indent @ ''</body></html>''\<rparr>"

definition jq :: "string \<Rightarrow> string" where
  "jq t = [CHR 0x22] @ t @ [CHR 0x22]"

definition askpage_json :: page_text where
  "askpage_json = \<lparr>pt_before = [CHR 0x7B] @ '' '' @ jq ''abc'' @ '': 12, '' @ jq ''foo'' @ '': '' @ [CHR 0x22],
     pt_behind = [CHR 0x22] @ '', '' @ jq ''bool0'' @ '': false, '' @ jq ''bool1'' @ '': true '' @ [CHR 0x7D]\<rparr>"

text \<open>\<^verbatim>\<open>snprintf (buf, n, askpage, t)\<close>.\<close>

definition snprintf_page :: "page_text \<Rightarrow> nat \<Rightarrow> string \<Rightarrow> string" where
  "snprintf_page pt n t = take (n - 1) (pt_before pt @ t @ pt_behind pt)"

type_synonym door_con = "string post_con"

text \<open>\<open>mem\<close> says whether \<^verbatim>\<open>malloc\<close> gives the memory of the answer.\<close>

definition door_press :: "page_text \<Rightarrow> bool \<Rightarrow> string \<Rightarrow> string \<Rightarrow> byte \<Rightarrow> nat \<Rightarrow> door \<times> door_con \<Rightarrow> door \<times> door_con" where
  "door_press pt mem key new_str b sz = (\<lambda>(s, con).
     let t = dr_emit (map TxByte (door_frame (0xb6d6, b, b, b))) (s\<lparr>dr_str := new_str\<rparr>)
     in if 0 < sz \<and> sz \<le> DR_MAXNAMESIZE
        then (if mem then (t, con\<lparr>pc_answer := Some (snprintf_page pt DR_MAXANSWERSIZE key)\<rparr>) else (t, con))
        else (t, con\<lparr>pc_answer := None\<rparr>))"

definition iterate_post_door ::
    "page_text \<Rightarrow> bool \<Rightarrow> item \<Rightarrow> door \<times> door_con \<Rightarrow> (c_error \<times> (door \<times> door_con)) + mhd_ret \<times> (door \<times> door_con)" where
  "iterate_post_door pt mem x sc =
     (case x of (key, data, sz) \<Rightarrow>
        if key = ''open'' then Inr (MHD_NO, door_press pt mem key ''open '' 1 sz sc)
        else if key = ''close'' then Inr (MHD_NO, door_press pt mem key ''close'' 0 sz sc)
        else Inr (MHD_YES, sc))"

definition send_page_door :: "web_env \<Rightarrow> string \<Rightarrow> door \<Rightarrow> mhd_ret \<times> door" where
  "send_page_door env page s =
     (if \<not> we_create env then (MHD_NO, s) else (we_queue env, dr_emit [Reply page] s))"

definition answer_to_connection_door ::
    "page_text \<Rightarrow> bool \<Rightarrow> web_env \<Rightarrow> string \<Rightarrow> nat \<Rightarrow> item list \<Rightarrow> door_con option \<Rightarrow> door
     \<Rightarrow> (c_error \<times> door) + mhd_ret \<times> door_con option \<times> door" where
  "answer_to_connection_door pt mem env method upload_data_size items con_cls s =
     (case con_cls of
        None \<Rightarrow>
          (case open_connection env method of
             None \<Rightarrow> Inr (MHD_NO, None, s)
           | Some con \<Rightarrow> Inr (MHD_YES, Some con, s))
      | Some con \<Rightarrow>
          if method = ''GET''
          then (if \<not> mem then Inr (MHD_NO, Some con, s)
                else (let n = length (pt_before pt) + 2 + length (pt_behind pt) + length (dr_str s) + 1
                      in case send_page_door env (snprintf_page pt n (dr_str s)) s of (r, t) \<Rightarrow> Inr (r, Some con, t)))
          else if method = ''POST'' \<and> upload_data_size \<noteq> 0
          then (if pc_processor con
                then (case post_process (iterate_post_door pt mem) items (s, con) of
                        Inl (e, (t, _)) \<Rightarrow> Inl (e, t)
                      | Inr (t, con') \<Rightarrow> Inr (MHD_YES, Some con', t))
                else Inl (WildPointer, s))
          else (case send_page_door env
                  (case pc_answer con of Some a \<Rightarrow> if method = ''POST'' then a else errorpage | None \<Rightarrow> errorpage) s of
                  (r, t) \<Rightarrow> Inr (r, Some con, t)))"

text \<open>
  The end of a request also frees the answer. What the destruction of the post processor calls is in
  \<open>destroy_post_processor\<close> of \<open>Mhd_Post\<close>.
\<close>

definition request_completed_door :: "door_con option \<Rightarrow> c_error + door_con option" where
  "request_completed_door con_cls = close_connection con_cls"

section \<open>main\<close>

record door_setup =
  ds_wiringPi :: bool
  ds_serial :: bool
  ds_thread :: bool
  ds_daemon :: bool

definition main_start_door :: "door_setup \<Rightarrow> door option" where
  "main_start_door e =
     (if ds_wiringPi e \<and> ds_serial e \<and> ds_thread e \<and> ds_daemon e then Some door_initial else None)"

definition main_tick_door :: "door \<Rightarrow> door" where
  "main_tick_door = dr_emit [USleep 1000000]"

section \<open>zigbee/zbclient.c\<close>

text \<open>
  \<^verbatim>\<open>send_usart\<close> of this program sends bytes as they are. Its result is 1 when nothing was sent; the
  counter of the loop is 8 bits wide, which the test of \<^verbatim>\<open>len\<close> makes enough.
\<close>

definition send_usart_client :: "u16 \<Rightarrow> byte list \<Rightarrow> event list \<Rightarrow> c_error + int \<times> event list" where
  "send_usart_client len data es =
     (if 100 < len then Inr (1, es)
      else if unat len \<le> length data then Inr (0, es @ map TxByte (take (unat len) data))
      else Inl OutOfBounds)"

record client_config =
  cc_id :: u16
  cc_state1 :: byte
  cc_state2 :: byte
  cc_state3 :: byte
  cc_enable :: byte

definition SendConfigMessage_client :: "u16 \<Rightarrow> byte \<Rightarrow> byte \<Rightarrow> client_config \<Rightarrow> event list \<Rightarrow> c_error + int \<times> event list" where
  "SendConfigMessage_client nid ix st c = send_usart_client 12
     [8, 10, hi nid, lo nid, ix, st, hi (cc_id c), lo (cc_id c), cc_state1 c, cc_state2 c, cc_state3 c, cc_enable c]"

text \<open>The callback for the data of a response: what it looks up, and its result.\<close>

definition writer :: "('j, 'x) json_lib_scheme \<Rightarrow> string \<Rightarrow> 'j option \<times> 'j option \<times> int" where
  "writer J data = (let ob = tokener_parse J data in (ob, object_get_ex J ob ''foo'', 1))"

definition client_round :: "byte \<times> event list \<Rightarrow> byte \<times> event list" where
  "client_round = (\<lambda>(i, es).
     let i' = 3 - i
     in (i', es @ [USleep 1000000, Post (if i' = 1 then ''open=submit'' else ''close=submit'')]))"

record client_setup =
  cs_wiringPi :: bool
  cs_serial :: bool
  cs_thread :: bool
  cs_curl :: bool

definition client_start :: "client_setup \<Rightarrow> (byte \<times> event list) option" where
  "client_start e = (if cs_wiringPi e \<and> cs_serial e \<and> cs_thread e \<and> cs_curl e then Some (1, []) else None)"

end
