(* ===== verification/Mhd_Post.thy ===== *)
theory Mhd_Post
  imports Web_Common
begin

text \<open>
  The post processor of the libmicrohttpd in the repository, as far as the programs depend on it: the
  unescaping of \<^verbatim>\<open>internal.c\<close> and the parser for url-encoded forms of \<^verbatim>\<open>postprocessor.c\<close>, which takes the
  body of a request in the pieces in which it arrives and calls \<^verbatim>\<open>iterate_post\<close> of the program.
\<close>

section \<open>Unescaping\<close>

definition is_hex :: "char \<Rightarrow> bool" where
  "is_hex c \<longleftrightarrow> is_digit c \<or> c \<in> set ''abcdefABCDEF''"

definition hex_value :: "char \<Rightarrow> int" where
  "hex_value c =
     (let n = int (of_char c :: nat)
      in if is_digit c then n - 48 else if 97 \<le> n then n - 87 else n - 55)"

text \<open>
  \<^verbatim>\<open>strtoul (s, &end, 16)\<close>: white space, an optional sign, an optional \<^verbatim>\<open>0x\<close> before a digit, digits. The
  second component is the string at \<^verbatim>\<open>end\<close>; without a digit it is the whole string.
\<close>

definition strtoul16 :: "string \<Rightarrow> int \<times> string" where
  "strtoul16 s =
     (let t = dropWhile is_space s;
          neg = (t \<noteq> [] \<and> hd t = CHR ''-'');
          u = (if t \<noteq> [] \<and> (hd t = CHR ''-'' \<or> hd t = CHR ''+'') then tl t else t);
          v = (if 3 \<le> length u \<and> hd u = CHR ''0'' \<and> (u ! 1 = CHR ''x'' \<or> u ! 1 = CHR ''X'') \<and> is_hex (u ! 2)
               then drop 2 u else u);
          ds = takeWhile is_hex v;
          n = foldl (\<lambda>a c. 16 * a + hex_value c) 0 ds
      in if ds = [] then (0, s) else (if neg then - n else n, drop (length ds) v))"

text \<open>\<^verbatim>\<open>(char)((unsigned char) num)\<close> for the two characters behind a percent sign.\<close>

definition escape_char :: "char \<Rightarrow> char \<Rightarrow> char option" where
  "escape_char a b =
     (case strtoul16 [a, b] of (n, rest) \<Rightarrow> if rest = [] then Some (char_of (nat (n mod 256))) else None)"

definition unescape_plus :: "string \<Rightarrow> string" where
  "unescape_plus arg = map (\<lambda>c. if c = CHR ''+'' then CHR '' '' else c) arg"

text \<open>An escape sequence that is cut off ends the text.\<close>

fun http_unescape :: "string \<Rightarrow> string" where
  "http_unescape [] = []"
| "http_unescape (c # r) =
     (if c = CHR ''%''
      then (case r of
              a # b # r' \<Rightarrow>
                (case escape_char a b of
                   Some x \<Rightarrow> x # http_unescape r'
                 | None \<Rightarrow> c # http_unescape r)
            | _ \<Rightarrow> [])
      else c # http_unescape r)"

section \<open>The state\<close>

text \<open>The states of \<^verbatim>\<open>enum PP_State\<close> that the parser of url-encoded data uses.\<close>

datatype pp_state = PP_Error | PP_Done | PP_Init | PP_ProcessValue | PP_ExpectNewLine

text \<open>
  \<^verbatim>\<open>struct MHD_PostProcessor\<close> and the buffer behind it. \<open>pp_xbuf\<close> are the first \<^verbatim>\<open>xbuf_pos\<close> bytes of the
  array \<^verbatim>\<open>xbuf[8]\<close>.
\<close>

record post_processor =
  pp_buf :: string
  pp_buffer_size :: nat
  pp_buffer_pos :: nat
  pp_xbuf :: string
  pp_value_offset :: nat
  pp_state :: pp_state

definition XBUF_SIZE :: nat where "XBUF_SIZE = 512"

text \<open>\<^verbatim>\<open>MHD_create_post_processor\<close> for a form, when its \<^verbatim>\<open>malloc\<close> succeeds.\<close>

definition create_post_processor :: "nat \<Rightarrow> post_processor" where
  "create_post_processor buffer_size =
     \<lparr>pp_buf = replicate (buffer_size + 4 + 1) NUL, pp_buffer_size = buffer_size + 4, pp_buffer_pos = 0,
      pp_xbuf = [], pp_value_offset = 0, pp_state = PP_Init\<rparr>"

section \<open>The parser\<close>

text \<open>
  The iterator of the program: the key, the bytes of a piece of the value, their offset in the value.
\<close>

type_synonym 's iterator = "string \<Rightarrow> string \<Rightarrow> nat \<Rightarrow> 's \<Rightarrow> (c_error \<times> 's) + mhd_ret \<times> 's"

definition newline_char :: "char \<Rightarrow> bool" where
  "newline_char c \<longleftrightarrow> c = CHR 0x0A \<or> c = CHR 0x0D"

definition value_end :: "char \<Rightarrow> bool" where
  "value_end c \<longleftrightarrow> c = CHR ''&'' \<or> newline_char c"

text \<open>\<^verbatim>\<open>memcpy (&buf[pos], src, n)\<close>, and what works in place on the C string in the buffer.\<close>

definition write_buf :: "nat \<Rightarrow> string \<Rightarrow> string \<Rightarrow> string" where
  "write_buf pos src buf = take pos buf @ src @ drop (pos + length src) buf"

definition in_place :: "(string \<Rightarrow> string) \<Rightarrow> string \<Rightarrow> string" where
  "in_place f buf = write_buf 0 (f (cstr buf) @ [NUL]) buf"

text \<open>How many bytes at the end of the processing buffer may be an incomplete escape sequence.\<close>

definition cut_escape :: "string \<Rightarrow> nat" where
  "cut_escape xb =
     (if 0 < length xb \<and> xb ! (length xb - 1) = CHR ''%'' then 1
      else if 1 < length xb \<and> xb ! (length xb - 2) = CHR ''%'' then 2 else 0)"

definition unescaped :: "string \<Rightarrow> string" where
  "unescaped xb = http_unescape (unescape_plus (cstr (xb @ [NUL])))"

text \<open>The length of the value in the first \<^verbatim>\<open>XBUF_SIZE\<close> bytes.\<close>

definition amper_len :: "string \<Rightarrow> nat" where
  "amper_len data = length (takeWhile (\<lambda>c. \<not> value_end c) (take XBUF_SIZE data))"

lemma amper_len_le: "amper_len data \<le> length data"
  using length_takeWhile_le [of "\<lambda>c. \<not> value_end c" "take XBUF_SIZE data"] by (simp add: amper_len_def)

lemma amper_len_pos: "data \<noteq> [] \<Longrightarrow> amper_len data = 0 \<Longrightarrow> value_end (data ! 0)"
  by (cases data) (auto simp: amper_len_def XBUF_SIZE_def split: if_splits)

text \<open>
  One piece of a value: what is left from the last piece and the data up to the end of the value or of the
  processing buffer, without an incomplete escape sequence, which is kept; and the data behind. The flag
  says whether the value ends within the data.
\<close>

definition next_piece :: "string \<Rightarrow> string \<Rightarrow> string \<times> string \<times> string \<times> bool" where
  "next_piece xbuf data =
     (let amper = amper_len data;
          found = (amper < length data \<and> value_end (data ! amper));
          delta = min amper (XBUF_SIZE - length xbuf);
          xb = xbuf @ take delta data;
          k = length xb - cut_escape xb
      in (take k xb, drop k xb, drop delta data, found))"

lemma next_piece_rest:
  assumes "next_piece xbuf data = (w, keep, rest, found)"
  shows "w @ keep @ rest = xbuf @ data" "length rest \<le> length data"
    "data \<noteq> [] \<Longrightarrow> length xbuf \<le> 8 \<Longrightarrow> \<not> value_end (data ! 0) \<Longrightarrow> length rest < length data"
    "rest = data \<Longrightarrow> data \<noteq> [] \<Longrightarrow> length xbuf \<le> 8 \<Longrightarrow> found"
proof -
  let ?d = "min (amper_len data) (XBUF_SIZE - length xbuf)"
  have w: "w @ keep = xbuf @ take ?d data"
    using assms unfolding next_piece_def Let_def by (metis append_take_drop_id prod.inject)
  have r: "rest = drop ?d data" and f: "found = (amper_len data < length data \<and> value_end (data ! amper_len data))"
    using assms by (simp_all only: next_piece_def Let_def prod.inject)
  have "w @ keep @ rest = (w @ keep) @ rest" by simp
  also have "\<dots> = xbuf @ data" unfolding w r by simp
  finally show "w @ keep @ rest = xbuf @ data" .
  show "length rest \<le> length data" unfolding r by simp
  show "length rest < length data" if "data \<noteq> []" "length xbuf \<le> 8" "\<not> value_end (data ! 0)"
  proof -
    have "0 < amper_len data" using amper_len_pos that by (cases "amper_len data = 0") auto
    with that show ?thesis by (simp add: r XBUF_SIZE_def)
  qed
  show found if "rest = data" "data \<noteq> []" "length xbuf \<le> 8"
  proof -
    have "length data - ?d = length data" using that(1) r by (metis length_drop)
    moreover have "0 < length data" using that(2) by simp
    ultimately have "?d = 0" by linarith
    then have "amper_len data = 0" using that(3) by (simp add: XBUF_SIZE_def min_def split: if_splits)
    with amper_len_pos [OF that(2)] that(2) show ?thesis by (simp add: f)
  qed
qed

lemma piece_stays:
  assumes "data \<noteq> []" "length xbuf \<le> 8" "next_piece xbuf data = (w, keep, rest, found)"
    and "\<not> (found \<and> newline_char (rest ! 0))" "\<not> (found \<and> rest ! 0 = CHR ''&'')"
  shows "length rest < length data"
proof (cases "rest = data")
  case True
  then have "\<not> value_end (data ! 0)"
    using assms next_piece_rest(4) [OF assms(3)] by (auto simp: value_end_def)
  then show ?thesis using next_piece_rest(3) [OF assms(3)] assms(1,2) by blast
next
  case False
  have "\<exists>d. rest = drop d data" using assms(3) by (auto simp: next_piece_def Let_def)
  with False show ?thesis by (metis diff_is_0_eq diff_less drop_0 length_drop length_greater_0_conv assms(1) neq0_conv)
qed

text \<open>
  The loop over the data that is left. \<^verbatim>\<open>pp->xbuf\<close> has 8 bytes; more in it would be read behind its end.
\<close>

function urlencoded :: "'s iterator \<Rightarrow> string \<Rightarrow> post_processor \<Rightarrow> 's \<Rightarrow> (c_error \<times> 's) + mhd_ret \<times> post_processor \<times> 's"
  where
  "urlencoded it data pp s =
     (if data = [] then Inr (MHD_YES, pp, s)
      else case pp_state pp of
        PP_Error \<Rightarrow> Inr (MHD_NO, pp, s)
      | PP_Done \<Rightarrow> Inr (MHD_NO, pp\<lparr>pp_state := PP_Error\<rparr>, s)
      | PP_Init \<Rightarrow>
          (let key = takeWhile (\<lambda>c. c \<noteq> CHR ''='') data; pos = pp_buffer_pos pp + length key
           in if pos > pp_buffer_size pp then Inr (MHD_NO, pp\<lparr>pp_state := PP_Error\<rparr>, s)
              else (let buf = write_buf (pp_buffer_pos pp) key (pp_buf pp)
                    in if length key = length data
                       then Inr (MHD_YES, pp\<lparr>pp_buf := buf, pp_buffer_pos := pos\<rparr>, s)
                       else urlencoded it (drop (length key + 1) data)
                         (pp\<lparr>pp_buf := in_place http_unescape (in_place unescape_plus (buf[pos := NUL])),
                            pp_buffer_pos := 0, pp_state := PP_ProcessValue, pp_value_offset := 0\<rparr>) s))
      | PP_ProcessValue \<Rightarrow>
          if 8 < length (pp_xbuf pp) then Inl (OutOfBounds, s)
          else (case next_piece (pp_xbuf pp) data of (w, keep, rest, found) \<Rightarrow>
            if w = [] \<and> rest = [] then Inr (MHD_YES, pp\<lparr>pp_xbuf := keep\<rparr>, s)
            else (case it (cstr (pp_buf pp)) (unescaped w) (pp_value_offset pp) s of
                    Inl f \<Rightarrow> Inl f
                  | Inr (r, t) \<Rightarrow>
                      if r = MHD_NO then Inr (MHD_NO, pp\<lparr>pp_xbuf := keep, pp_state := PP_Error\<rparr>, t)
                      else (let pp = pp\<lparr>pp_xbuf := keep, pp_value_offset := pp_value_offset pp + length (unescaped w)\<rparr>
                            in if found \<and> newline_char (rest ! 0)
                               then urlencoded it rest (pp\<lparr>pp_state := PP_ExpectNewLine\<rparr>) t
                               else if found \<and> rest ! 0 = CHR ''&''
                               then urlencoded it (drop 1 rest) (pp\<lparr>pp_state := PP_Init\<rparr>) t
                               else urlencoded it rest pp t)))
      | PP_ExpectNewLine \<Rightarrow>
          if newline_char (data ! 0) then Inr (MHD_YES, pp\<lparr>pp_state := PP_Done\<rparr>, s) else Inr (MHD_NO, pp, s))"
  by pat_completeness auto

termination
proof (relation "measure (\<lambda>(it, data, pp, s). 2 * length data + (if pp_state pp = PP_ProcessValue then 1 else 0))",
    goal_cases)
  case (2 it data pp s key pos buf)
  then show ?case by (cases data) auto
next
  case (3 it data pp s w x keep y rest found)
  then have "length rest \<le> length data" by (metis next_piece_rest(2))
  with 3 show ?case by simp
next
  case (4 it data pp s w x keep y rest found)
  then have "length rest \<le> length data" by (metis next_piece_rest(2))
  with 4 show ?case by simp
next
  case (5 it data pp s w x keep y rest found)
  then have "length rest < length data" by (metis piece_stays not_less)
  with 5 show ?case by simp
qed simp

declare urlencoded.simps [simp del]

section \<open>The interface to the programs\<close>

text \<open>
  \<^verbatim>\<open>MHD_post_process\<close> for a form; its result is ignored by the programs, which hand over one piece of the
  body after the other.
\<close>

fun post_chunks :: "'s iterator \<Rightarrow> string list \<Rightarrow> post_processor \<Rightarrow> 's \<Rightarrow> (c_error \<times> 's) + post_processor \<times> 's" where
  "post_chunks it [] pp s = Inr (pp, s)"
| "post_chunks it (c # cs) pp s =
     (case urlencoded it c pp s of Inl f \<Rightarrow> Inl f | Inr (r, pp', t) \<Rightarrow> post_chunks it cs pp' t)"

lemma post_chunks_append:
  "post_chunks it (xs @ ys) pp s =
     (case post_chunks it xs pp s of Inl f \<Rightarrow> Inl f | Inr (pp', t) \<Rightarrow> post_chunks it ys pp' t)"
  by (induction xs arbitrary: pp s) (auto split: sum.splits)

text \<open>\<^verbatim>\<open>MHD_destroy_post_processor\<close>: a value that is still open is ended by a line feed.\<close>

definition destroy_post_processor :: "'s iterator \<Rightarrow> post_processor \<Rightarrow> 's \<Rightarrow> (c_error \<times> 's) + mhd_ret \<times> 's" where
  "destroy_post_processor it pp s =
     (case (if pp_state pp = PP_ProcessValue then urlencoded it [CHR 0x0A] pp s else Inr (MHD_YES, pp, s)) of
        Inl f \<Rightarrow> Inl f
      | Inr (_, pp, t) \<Rightarrow>
          Inr (if 0 < length (pp_xbuf pp) \<or> (pp_state pp \<noteq> PP_Done \<and> pp_state pp \<noteq> PP_ExpectNewLine)
               then MHD_NO else MHD_YES, t))"

text \<open>
  An iterator that accepts and records every call, and the iterators of the programs, which read the key
  and the data as C strings and ignore the offset.
\<close>

type_synonym piece = "string \<times> string \<times> nat"

definition recorder :: "piece list iterator" where
  "recorder k d off cs = Inr (MHD_YES, cs @ [(k, d, off)])"

definition item_of :: "piece \<Rightarrow> item" where
  "item_of p = (case p of (k, d, off) \<Rightarrow> (k, cstr d, length d))"

definition of_items :: "(item \<Rightarrow> 's \<Rightarrow> (c_error \<times> 's) + mhd_ret \<times> 's) \<Rightarrow> 's iterator" where
  "of_items it k d off s = it (item_of (k, d, off)) s"

text \<open>
  The calls of a program for recorded items, up to the first that returns \<^verbatim>\<open>MHD_NO\<close>; the flag says whether
  all were accepted.
\<close>

fun post_until :: "(item \<Rightarrow> 's \<Rightarrow> (c_error \<times> 's) + mhd_ret \<times> 's) \<Rightarrow> item list \<Rightarrow> 's \<Rightarrow> (c_error \<times> 's) + bool \<times> 's" where
  "post_until it [] s = Inr (True, s)"
| "post_until it (x # xs) s =
     (case it x s of
        Inl f \<Rightarrow> Inl f
      | Inr (r, t) \<Rightarrow> if r = MHD_NO then Inr (False, t) else post_until it xs t)"

lemma post_until_append:
  "post_until it (xs @ ys) s =
     (case post_until it xs s of
        Inl f \<Rightarrow> Inl f
      | Inr (ok, t) \<Rightarrow> if ok then post_until it ys t else Inr (False, t))"
  by (induction xs arbitrary: s) (auto split: sum.splits)

lemma post_process_until: "post_process it xs s = map_sum id snd (post_until it xs s)"
  by (induction xs arbitrary: s) (auto split: sum.splits)

lemma post_process_Inr: "post_process it xs s = Inr t \<Longrightarrow> \<exists>ok. post_until it xs s = Inr (ok, t)"
proof -
  assume run: "post_process it xs s = Inr t"
  show ?thesis
  proof (cases "post_until it xs s")
    case (Inl f)
    with run show ?thesis by (simp add: post_process_until)
  next
    case (Inr y)
    with run have "snd y = t" by (simp add: post_process_until)
    with Inr show ?thesis by (cases y) simp
  qed
qed

text \<open>The calls for one piece of a body, as the models of the programs take them.\<close>

definition form_items :: "post_processor \<Rightarrow> string \<Rightarrow> item list" where
  "form_items pp data =
     (case urlencoded recorder data pp [] of Inl f \<Rightarrow> [] | Inr (r, pp', ds) \<Rightarrow> map item_of ds)"

text \<open>One unfolding of the loop in each state.\<close>

lemma urlencoded_stops:
  "urlencoded it [] pp s = Inr (MHD_YES, pp, s)"
  "data \<noteq> [] \<Longrightarrow> pp_state pp = PP_Error \<Longrightarrow> urlencoded it data pp s = Inr (MHD_NO, pp, s)"
  "data \<noteq> [] \<Longrightarrow> pp_state pp = PP_Done \<Longrightarrow> urlencoded it data pp s = Inr (MHD_NO, pp\<lparr>pp_state := PP_Error\<rparr>, s)"
  "data \<noteq> [] \<Longrightarrow> pp_state pp = PP_ExpectNewLine \<Longrightarrow> urlencoded it data pp s =
     Inr (if newline_char (data ! 0) then (MHD_YES, pp\<lparr>pp_state := PP_Done\<rparr>, s) else (MHD_NO, pp, s))"
  by (simp_all add: urlencoded.simps)

definition key_of :: "string \<Rightarrow> string" where
  "key_of data = takeWhile (\<lambda>c. c \<noteq> CHR ''='') data"

definition key_written :: "string \<Rightarrow> post_processor \<Rightarrow> post_processor" where
  "key_written key pp = pp\<lparr>pp_buf := write_buf (pp_buffer_pos pp) key (pp_buf pp),
     pp_buffer_pos := pp_buffer_pos pp + length key\<rparr>"

definition key_ended :: "post_processor \<Rightarrow> post_processor" where
  "key_ended pp = pp\<lparr>pp_buf := in_place http_unescape (in_place unescape_plus ((pp_buf pp)[pp_buffer_pos pp := NUL])),
     pp_buffer_pos := 0, pp_state := PP_ProcessValue, pp_value_offset := 0\<rparr>"

lemma urlencoded_key:
  assumes "data \<noteq> []" and "pp_state pp = PP_Init"
  shows "urlencoded it data pp s =
    (let key = key_of data
     in if pp_buffer_pos pp + length key > pp_buffer_size pp then Inr (MHD_NO, pp\<lparr>pp_state := PP_Error\<rparr>, s)
        else if length key = length data then Inr (MHD_YES, key_written key pp, s)
        else urlencoded it (drop (length key + 1) data) (key_ended (key_written key pp)) s)"
  using assms by (subst urlencoded.simps) (simp add: Let_def key_of_def key_written_def key_ended_def)

definition piece_taken :: "string \<Rightarrow> string \<Rightarrow> post_processor \<Rightarrow> post_processor" where
  "piece_taken w keep pp = pp\<lparr>pp_xbuf := keep, pp_value_offset := pp_value_offset pp + length (unescaped w)\<rparr>"

lemma urlencoded_value:
  assumes "data \<noteq> []" and "pp_state pp = PP_ProcessValue" and "length (pp_xbuf pp) \<le> 8"
    and "next_piece (pp_xbuf pp) data = (w, keep, rest, found)"
  shows "urlencoded it data pp s =
    (if w = [] \<and> rest = [] then Inr (MHD_YES, pp\<lparr>pp_xbuf := keep\<rparr>, s)
     else (case it (cstr (pp_buf pp)) (unescaped w) (pp_value_offset pp) s of
             Inl f \<Rightarrow> Inl f
           | Inr (r, t) \<Rightarrow>
               if r = MHD_NO then Inr (MHD_NO, pp\<lparr>pp_xbuf := keep, pp_state := PP_Error\<rparr>, t)
               else if found \<and> newline_char (rest ! 0)
               then urlencoded it rest ((piece_taken w keep pp)\<lparr>pp_state := PP_ExpectNewLine\<rparr>) t
               else if found \<and> rest ! 0 = CHR ''&''
               then urlencoded it (drop 1 rest) ((piece_taken w keep pp)\<lparr>pp_state := PP_Init\<rparr>) t
               else urlencoded it rest (piece_taken w keep pp) t))"
  using assms unfolding piece_taken_def
  by (subst urlencoded.simps) (simp add: Let_def split: sum.split prod.split)

lemma cut_escape_le: "cut_escape xb \<le> 2"
  by (simp add: cut_escape_def)

lemma next_piece_keep:
  assumes "next_piece xbuf data = (w, keep, rest, found)"
  shows "length keep \<le> 2"
proof -
  have "\<exists>xb. keep = drop (length xb - cut_escape xb) xb"
    using assms unfolding next_piece_def Let_def by blast
  then obtain xb where "keep = drop (length xb - cut_escape xb) xb" by blast
  then show ?thesis using cut_escape_le [of xb] by simp
qed

text \<open>
  Whatever iterator of a program runs, it sees the recorded calls, up to the first it refuses: the list of
  calls in the models of the programs is what the post processor makes of the data.
\<close>

definition same_calls :: "(item \<Rightarrow> 's \<Rightarrow> (c_error \<times> 's) + mhd_ret \<times> 's) \<Rightarrow> item list \<Rightarrow> post_processor \<Rightarrow> 's
    \<Rightarrow> ((c_error \<times> 's) + post_processor \<times> 's) \<Rightarrow> bool" where
  "same_calls it xs q s out =
     (case post_until it xs s of
        Inl f \<Rightarrow> out = Inl f
      | Inr (ok, t) \<Rightarrow> (\<exists>p. out = Inr (p, t) \<and> (if ok then p = q else pp_state p = PP_Error)))"

lemma same_calls_simps [simp]:
  "same_calls it [] q s out \<longleftrightarrow> out = Inr (q, s)"
  "it x s = Inl f \<Longrightarrow> same_calls it (x # xs) q s out \<longleftrightarrow> out = Inl f"
  "it x s = Inr (MHD_NO, t) \<Longrightarrow> same_calls it (x # xs) q s out \<longleftrightarrow> (\<exists>p. out = Inr (p, t) \<and> pp_state p = PP_Error)"
  "it x s = Inr (r, t) \<Longrightarrow> r \<noteq> MHD_NO \<Longrightarrow> same_calls it (x # xs) q s out \<longleftrightarrow> same_calls it xs q t out"
  by (simp_all add: same_calls_def)

definition forget_ret :: "(c_error \<times> 's) + mhd_ret \<times> post_processor \<times> 's \<Rightarrow> (c_error \<times> 's) + post_processor \<times> 's" where
  "forget_ret = map_sum id snd"

lemma forget_ret_simps [simp]: "forget_ret (Inl f) = Inl f" "forget_ret (Inr (r, x)) = Inr x"
  by (simp_all add: forget_ret_def)

lemma urlencoded_items:
  assumes "length (pp_xbuf pp) \<le> 8"
  shows "\<exists>r pp' ds. urlencoded recorder data pp cs = Inr (r, pp', cs @ ds) \<and> length (pp_xbuf pp') \<le> 8 \<and>
    same_calls it (map item_of ds) pp' s (forget_ret (urlencoded (of_items it) data pp s))"
  using assms
proof (induction "2 * length data + (if pp_state pp = PP_ProcessValue then 1 else 0)"
    arbitrary: data pp cs s rule: less_induct)
  case less
  show ?case
  proof (cases "data = []")
    case True
    with less.prems show ?thesis by (simp add: urlencoded_stops)
  next
    case data: False
    show ?thesis
    proof (cases "pp_state pp")
      case PP_Init
      note run = urlencoded_key [OF data PP_Init]
      let ?k = "key_of data"
      have IH: "pp_state q = PP_ProcessValue \<Longrightarrow> length (pp_xbuf q) \<le> 8 \<Longrightarrow> \<exists>r pp' ds.
          urlencoded recorder (drop (length ?k + 1) data) q cs = Inr (r, pp', cs @ ds) \<and> length (pp_xbuf pp') \<le> 8 \<and>
          same_calls it (map item_of ds) pp' s (forget_ret (urlencoded (of_items it) (drop (length ?k + 1) data) q s))" for q
        using data PP_Init by (intro less.hyps) (cases data; simp)
      have q: "pp_state (key_ended (key_written ?k pp)) = PP_ProcessValue"
          "pp_xbuf (key_ended (key_written ?k pp)) = pp_xbuf pp" "pp_xbuf (key_written ?k pp) = pp_xbuf pp"
        by (simp_all add: key_ended_def key_written_def)
      show ?thesis
        using less.prems IH [OF q(1)] unfolding run Let_def q(2) by (auto simp: q(3))
    next
      case PP_ProcessValue
      obtain w keep rest found where p: "next_piece (pp_xbuf pp) data = (w, keep, rest, found)"
        by (metis prod_cases4)
      note run = urlencoded_value [OF data PP_ProcessValue less.prems p]
      have keep: "length keep \<le> 2" and le: "length rest \<le> length data"
        using next_piece_keep [OF p] next_piece_rest(2) [OF p] by auto
      define q where "q = (if found \<and> newline_char (rest ! 0) then (piece_taken w keep pp)\<lparr>pp_state := PP_ExpectNewLine\<rparr>
        else if found \<and> rest ! 0 = CHR ''&'' then (piece_taken w keep pp)\<lparr>pp_state := PP_Init\<rparr>
        else piece_taken w keep pp)"
      define d where "d = (if found \<and> newline_char (rest ! 0) then rest
        else if found \<and> rest ! 0 = CHR ''&'' then drop 1 rest else rest)"
      have goon: "2 * length d + (if pp_state q = PP_ProcessValue then 1 else 0) <
          2 * length data + (if pp_state pp = PP_ProcessValue then 1 else 0)"
        using le piece_stays [OF data less.prems p] PP_ProcessValue
        by (auto simp: d_def q_def piece_taken_def)
      have qx: "length (pp_xbuf q) \<le> 8" using keep by (simp add: q_def piece_taken_def)
      let ?call = "(cstr (pp_buf pp), unescaped w, pp_value_offset pp)"
      show ?thesis
      proof (cases "w = [] \<and> rest = []")
        case True
        with keep show ?thesis unfolding run by (intro exI [of _ "[]"] exI) auto
      next
        case call: False
        have rec: "urlencoded recorder data pp cs = urlencoded recorder d q (cs @ [?call])"
          using call unfolding run by (auto simp: recorder_def d_def q_def)
        obtain r pp' ds where ds: "urlencoded recorder d q (cs @ [?call]) = Inr (r, pp', (cs @ [?call]) @ ds)"
            "length (pp_xbuf pp') \<le> 8"
          using less.hyps [OF goon qx, of "cs @ [?call]" s] by blast
        show ?thesis
        proof (cases "it (item_of ?call) s")
          case (Inl f)
          have "urlencoded (of_items it) data pp s = Inl f"
            using call Inl unfolding run by (auto simp: of_items_def)
          with Inl ds show ?thesis unfolding rec by (intro exI [of _ r] exI [of _ pp'] exI [of _ "?call # ds"]) simp
        next
          case (Inr y)
          obtain x t where y: "it (item_of ?call) s = Inr (x, t)" using Inr by (cases y) auto
          show ?thesis
          proof (cases "x = MHD_NO")
            case True
            have "\<exists>p. urlencoded (of_items it) data pp s = Inr (MHD_NO, p, t) \<and> pp_state p = PP_Error"
              using call y True unfolding run by (auto simp: of_items_def)
            with y True ds show ?thesis
              unfolding rec by (intro exI [of _ r] exI [of _ pp'] exI [of _ "?call # ds"]) auto
          next
            case False
            have go: "urlencoded (of_items it) data pp s = urlencoded (of_items it) d q t"
              using call y False unfolding run by (auto simp: of_items_def d_def q_def)
            obtain r' pp'' es where es: "urlencoded recorder d q (cs @ [?call]) = Inr (r', pp'', (cs @ [?call]) @ es)"
                "length (pp_xbuf pp'') \<le> 8"
                "same_calls it (map item_of es) pp'' t (forget_ret (urlencoded (of_items it) d q t))"
              using less.hyps [OF goon qx, of "cs @ [?call]" t] by blast
            with y False show ?thesis
              unfolding rec go by (intro exI [of _ r'] exI [of _ pp''] exI [of _ "?call # es"])
                simp
          qed
        qed
      qed
    qed (use data less.prems in \<open>simp_all add: urlencoded_stops same_calls_def\<close>)
  qed
qed

lemma error_chunks: "pp_state p = PP_Error \<Longrightarrow> post_chunks it chunks p t = Inr (p, t)"
proof (induction chunks)
  case (Cons c chunks)
  then show ?case by (cases "c = []") (simp_all add: urlencoded_stops)
qed simp

lemma chunks_items:
  assumes "length (pp_xbuf pp) \<le> 8"
  shows "\<exists>pp' ds. post_chunks recorder chunks pp cs = Inr (pp', cs @ ds) \<and> length (pp_xbuf pp') \<le> 8 \<and>
    same_calls it (map item_of ds) pp' s (post_chunks (of_items it) chunks pp s)"
  using assms
proof (induction chunks arbitrary: pp cs s)
  case (Cons c chunks)
  from urlencoded_items [OF Cons.prems, of c cs it s] obtain r p ds where
    1: "urlencoded recorder c pp cs = Inr (r, p, cs @ ds)" "length (pp_xbuf p) \<le> 8"
      "same_calls it (map item_of ds) p s (forget_ret (urlencoded (of_items it) c pp s))" by blast
  have rest: "post_chunks (of_items it) (c # chunks) pp s =
      (case forget_ret (urlencoded (of_items it) c pp s) of Inl f \<Rightarrow> Inl f | Inr (q, t) \<Rightarrow> post_chunks (of_items it) chunks q t)"
    by (simp add: forget_ret_def split: sum.split)
  have rec: "post_chunks recorder (c # chunks) pp cs = post_chunks recorder chunks p (cs @ ds)" using 1(1) by simp
  show ?case
  proof (cases "\<exists>t. post_until it (map item_of ds) s = Inr (True, t)")
    case True
    then obtain t where t: "post_until it (map item_of ds) s = Inr (True, t)" by blast
    from Cons.IH [OF 1(2), of "cs @ ds" t] obtain q es where
      2: "post_chunks recorder chunks p (cs @ ds) = Inr (q, (cs @ ds) @ es)" "length (pp_xbuf q) \<le> 8"
        "same_calls it (map item_of es) q t (post_chunks (of_items it) chunks p t)" by blast
    have "forget_ret (urlencoded (of_items it) c pp s) = Inr (p, t)" using 1(3) t by (simp add: same_calls_def)
    with 2 t show ?thesis
      unfolding rec rest by (intro exI [of _ q] exI [of _ "ds @ es"]) (simp add: same_calls_def post_until_append)
  next
    case False
    from Cons.IH [OF 1(2), of "cs @ ds" s] obtain q es where
      2: "post_chunks recorder chunks p (cs @ ds) = Inr (q, (cs @ ds) @ es)" "length (pp_xbuf q) \<le> 8" by blast
    have "same_calls it (map item_of (ds @ es)) q s (post_chunks (of_items it) (c # chunks) pp s)"
    proof (cases "post_until it (map item_of ds) s")
      case (Inl f)
      with 1(3) show ?thesis unfolding rest by (simp add: same_calls_def post_until_append)
    next
      case (Inr y)
      with False obtain t where t: "post_until it (map item_of ds) s = Inr (False, t)" by (cases y) auto
      with 1(3) obtain p' where "forget_ret (urlencoded (of_items it) c pp s) = Inr (p', t)" "pp_state p' = PP_Error"
        by (auto simp: same_calls_def)
      with t error_chunks [of p' "of_items it" chunks t] show ?thesis
        unfolding rest by (simp add: same_calls_def post_until_append)
    qed
    with 2 show ?thesis unfolding rec by (intro exI [of _ q] exI [of _ "ds @ es"]) simp
  qed
qed simp

end
