(* ===== verification/Mhd_Form.thy ===== *)
theory Mhd_Form
  imports Mhd_Post
begin

text \<open>
  What the post processor promises for forms: a reference that reads a form one character at a time, and
  the proof that the parser, in whatever pieces the body arrives, delivers the bytes the reference delivers,
  as long as no escape sequence of the form is malformed.
\<close>

section \<open>The reference\<close>

text \<open>
  In a key, with its text so far; in a value of a key, with the beginning of an escape sequence and the
  number of bytes delivered; at the end; or in a text that is no form.
\<close>

datatype form_state = InKey string | InValue string string nat | Ended | Broken

definition plus_char :: "char \<Rightarrow> char" where
  "plus_char c = (if c = CHR ''+'' then CHR '' '' else c)"

definition decode_key :: "string \<Rightarrow> string" where
  "decode_key k = cstr (http_unescape (unescape_plus k))"

definition byte_of :: "char \<Rightarrow> char \<Rightarrow> char" where
  "byte_of a b = char_of (nat (16 * hex_value a + hex_value b))"

type_synonym value_byte = "string \<times> nat \<times> char"

fun form_step :: "nat \<Rightarrow> form_state \<Rightarrow> char \<Rightarrow> form_state \<times> value_byte list" where
  "form_step n (InKey k) c =
     (if c = CHR ''='' then (InValue (decode_key k) [] 0, [])
      else if length k < n \<and> c \<noteq> NUL then (InKey (k @ [c]), []) else (Broken, []))"
| "form_step n (InValue k p off) c =
     (if value_end c
      then (if p \<noteq> [] then (Broken, []) else if c = CHR ''&'' then (InKey [], []) else (Ended, []))
      else if c = NUL then (Broken, [])
      else case p of
        [] \<Rightarrow> if c = CHR ''%'' then (InValue k [c] off, [])
              else (InValue k [] (off + 1), [(k, off, plus_char c)])
      | [_] \<Rightarrow> if is_hex c then (InValue k (p @ [c]) off, []) else (Broken, [])
      | _ # a # _ \<Rightarrow> if is_hex c then (InValue k [] (off + 1), [(k, off, byte_of a c)]) else (Broken, []))"
| "form_step n Ended c = (Broken, [])"
| "form_step n Broken c = (Broken, [])"

fun form_run :: "nat \<Rightarrow> form_state \<Rightarrow> string \<Rightarrow> form_state \<times> value_byte list" where
  "form_run n a [] = (a, [])"
| "form_run n a (c # cs) =
     (case form_step n a c of (b, xs) \<Rightarrow> (case form_run n b cs of (d, ys) \<Rightarrow> (d, xs @ ys)))"

lemma form_run_append:
  "form_run n a (u @ v) =
     (case form_run n a u of (b, xs) \<Rightarrow> (case form_run n b v of (d, ys) \<Rightarrow> (d, xs @ ys)))"
  by (induction u arbitrary: a) (auto split: prod.splits)

lemma form_run_Broken: "form_run n Broken cs = (Broken, [])"
  by (induction cs) auto

lemma form_run_Ended: "fst (form_run n Ended cs) \<noteq> Broken \<Longrightarrow> cs = []"
  by (cases cs) (auto simp: form_run_Broken)

text \<open>The keys of the values a run enters.\<close>

fun state_keys :: "form_state \<Rightarrow> string set" where
  "state_keys (InValue k p off) = {k}"
| "state_keys _ = {}"

fun form_keys :: "nat \<Rightarrow> form_state \<Rightarrow> string \<Rightarrow> string set" where
  "form_keys n a [] = state_keys a"
| "form_keys n a (c # cs) = state_keys a \<union> form_keys n (fst (form_step n a c)) cs"

lemma state_keys_in: "state_keys a \<subseteq> form_keys n a cs"
  by (cases cs) auto

lemma form_keys_append: "form_keys n a (u @ v) = form_keys n a u \<union> form_keys n (fst (form_run n a u)) v"
  using state_keys_in by (induction u arbitrary: a) (fastforce split: prod.splits)+

text \<open>The bytes of a piece of a value.\<close>

fun emitted :: "string \<Rightarrow> nat \<Rightarrow> string \<Rightarrow> value_byte list" where
  "emitted k off [] = []"
| "emitted k off (c # v) = (k, off, c) # emitted k (Suc off) v"

lemma emitted_append: "emitted k off (u @ v) = emitted k off u @ emitted k (off + length u) v"
  by (induction u arbitrary: off) simp_all

definition bytes_of :: "piece list \<Rightarrow> value_byte list" where
  "bytes_of ds = concat (map (\<lambda>(k, d, off). emitted k off d) ds)"

lemma bytes_of_simps [simp]:
  "bytes_of [] = []" "bytes_of ((k, d, off) # ds) = emitted k off d @ bytes_of ds"
  "bytes_of (ds @ es) = bytes_of ds @ bytes_of es"
  by (simp_all add: bytes_of_def)

section \<open>Escape sequences\<close>

lemma is_hex_cases: "is_hex c \<Longrightarrow> is_digit c \<or> c \<in> set ''abcdefABCDEF''"
  by (simp add: is_hex_def)

lemma hex_plain:
  assumes "is_hex c"
  shows "\<not> is_space c" "c \<noteq> CHR ''-''" "c \<noteq> CHR ''+''" "c \<noteq> CHR ''%''" "c \<noteq> NUL" "c \<noteq> CHR ''x''" "c \<noteq> CHR ''X''"
    "\<not> value_end c" "c \<noteq> CHR ''=''"
  using assms by (auto simp: is_hex_def is_digit_def is_space_def value_end_def newline_char_def)

lemma hex_value_range: "is_hex c \<Longrightarrow> 0 \<le> hex_value c \<and> hex_value c < 16"
  by (auto simp: is_hex_def hex_value_def is_digit_def Let_def)

lemma escape_char_hex: "is_hex a \<Longrightarrow> is_hex b \<Longrightarrow> escape_char a b = Some (byte_of a b)"
  using hex_plain [of a] hex_plain [of b] hex_value_range [of a] hex_value_range [of b]
  by (simp add: escape_char_def strtoul16_def Let_def byte_of_def)

text \<open>
  A text of whole characters and whole escape sequences, with what it stands for.
\<close>

inductive coded :: "string \<Rightarrow> string \<Rightarrow> bool" where
  Nil: "coded [] []"
| plain: "coded w v \<Longrightarrow> c \<noteq> CHR ''%'' \<Longrightarrow> c \<noteq> NUL \<Longrightarrow> \<not> value_end c \<Longrightarrow> coded (w @ [c]) (v @ [plus_char c])"
| escape: "coded w v \<Longrightarrow> is_hex a \<Longrightarrow> is_hex b \<Longrightarrow> coded (w @ [CHR ''%'', a, b]) (v @ [byte_of a b])"

lemma unescape_plus_append: "unescape_plus (u @ v) = unescape_plus u @ unescape_plus v"
  by (simp add: unescape_plus_def)

lemma coded_unescape_append:
  "coded w v \<Longrightarrow> http_unescape (unescape_plus (w @ z)) = v @ http_unescape (unescape_plus z)"
proof (induction arbitrary: z rule: coded.induct)
  case Nil
  then show ?case by simp
next
  case (plain w v c)
  have "http_unescape (unescape_plus (w @ c # z)) = v @ http_unescape (unescape_plus (c # z))" by (rule plain.IH)
  with plain.hyps show ?case by (simp add: unescape_plus_def plus_char_def)
next
  case (escape w v a b)
  have "http_unescape (unescape_plus (w @ [CHR ''%'', a, b] @ z)) =
      v @ http_unescape (unescape_plus ([CHR ''%'', a, b] @ z))" by (rule escape.IH)
  with escape.hyps show ?case
    using hex_plain [of a] hex_plain [of b] by (simp add: unescape_plus_def escape_char_hex)
qed

lemma coded_no_zero: "coded w v \<Longrightarrow> NUL \<notin> set w"
  by (induction rule: coded.induct) (auto dest: hex_plain)

lemma coded_unescaped: "coded w v \<Longrightarrow> unescaped w = v"
  using coded_unescape_append [of w v "[]"] coded_no_zero [of w v]
  by (simp add: unescaped_def cstr_text_zero unescape_plus_def)

lemma coded_append:
  assumes "coded w v" and "coded w' v'"
  shows "coded (w @ w') (v @ v')"
  using assms(2,1)
proof (induction rule: coded.induct)
  case (plain u x c)
  then show ?case using coded.plain [of "w @ u" "v @ x" c] by simp
next
  case (escape u x a b)
  then show ?case using coded.escape [of "w @ u" "v @ x" a b] by simp
qed simp

text \<open>The beginning of an escape sequence.\<close>

definition pending :: "string \<Rightarrow> bool" where
  "pending q \<longleftrightarrow> q = [] \<or> q = ''%'' \<or> (\<exists>a. is_hex a \<and> q = [CHR ''%'', a])"

lemma coded_sealed:
  "coded w v \<Longrightarrow> (0 < length w \<longrightarrow> w ! (length w - 1) \<noteq> CHR ''%'') \<and> (1 < length w \<longrightarrow> w ! (length w - 2) \<noteq> CHR ''%'')"
proof (induction rule: coded.induct)
  case (plain w v c)
  then show ?case by (cases w rule: rev_cases) (auto simp: nth_append)
next
  case (escape w v a b)
  then show ?case using hex_plain [of a] hex_plain [of b] by (auto simp: nth_append)
qed simp

lemma coded_cut: "coded w v \<Longrightarrow> pending q \<Longrightarrow> cut_escape (w @ q) = length q"
  using coded_sealed [of w v] hex_plain(4) by (auto simp: pending_def cut_escape_def nth_append)

section \<open>Runs of the reference\<close>

text \<open>
  Within a value, the reference has read a coded text and the beginning of an escape sequence.
\<close>

lemma run_value:
  assumes "\<forall>c \<in> set t. \<not> value_end c" and "form_run n (InValue k [] off) t = (b, xs)" and "b \<noteq> Broken"
  shows "\<exists>w v q. t = w @ q \<and> coded w v \<and> pending q \<and> b = InValue k q (off + length v) \<and> xs = emitted k off v"
  using assms
proof (induction t arbitrary: b xs rule: rev_induct)
  case Nil
  then show ?case by (auto simp: pending_def intro!: exI [of _ "[]"] coded.Nil)
next
  case (snoc c t)
  obtain d ys where d: "form_run n (InValue k [] off) t = (d, ys)" by (metis surj_pair)
  obtain zs where z: "form_step n d c = (b, zs)" "xs = ys @ zs"
    using snoc.prems(2) d by (auto simp: form_run_append split: prod.splits)
  have "d \<noteq> Broken" using z snoc.prems(3) by auto
  with snoc.IH [OF _ d] snoc.prems(1) obtain w v q where w: "t = w @ q" "coded w v" "pending q"
      "d = InValue k q (off + length v)" "ys = emitted k off v" by auto
  have c: "\<not> value_end c" using snoc.prems(1) by simp
  from w(3) consider "q = []" | "q = ''%''" | a where "is_hex a" "q = [CHR ''%'', a]" by (auto simp: pending_def)
  then show ?case
  proof cases
    case 1
    show ?thesis
    proof (cases "c = CHR ''%''")
      case True
      with 1 w z snoc.prems(3) c show ?thesis
        by (intro exI [of _ w] exI [of _ v] exI [of _ "[c]"]) (auto simp: pending_def split: if_splits)
    next
      case False
      with 1 w z snoc.prems(3) c have "b = InValue k [] (off + length v + 1)" "zs = [(k, off + length v, plus_char c)]"
        "c \<noteq> NUL" by (auto split: if_splits)
      with 1 w z False c coded.plain [OF w(2) False _ c] show ?thesis
        by (intro exI [of _ "w @ [c]"] exI [of _ "v @ [plus_char c]"] exI [of _ "[]"])
          (auto simp: pending_def emitted_append)
    qed
  next
    case 2
    with w z snoc.prems(3) c have "is_hex c" "b = InValue k [CHR ''%'', c] (off + length v)" "zs = []"
      by (auto split: if_splits)
    with 2 w z show ?thesis
      by (intro exI [of _ w] exI [of _ v] exI [of _ "[CHR ''%'', c]"]) (auto simp: pending_def)
  next
    case 3
    with w z snoc.prems(3) c have "is_hex c" "b = InValue k [] (off + length v + 1)" "zs = [(k, off + length v, byte_of a c)]"
      by (auto split: if_splits)
    with 3 w z coded.escape [OF w(2) 3(1)] show ?thesis
      by (intro exI [of _ "w @ [CHR ''%'', a, c]"] exI [of _ "v @ [byte_of a c]"] exI [of _ "[]"])
        (auto simp: pending_def emitted_append)
  qed
qed

lemma run_pending: "pending p \<Longrightarrow> form_run n (InValue k [] off) p = (InValue k p off, [])"
  using hex_plain by (auto simp: pending_def value_end_def newline_char_def)

text \<open>Within a key.\<close>

lemma run_key:
  assumes "CHR ''='' \<notin> set t" and "fst (form_run n (InKey k) t) \<noteq> Broken"
  shows "form_run n (InKey k) t = (InKey (k @ t), []) \<and> NUL \<notin> set t \<and> (t = [] \<or> length k + length t \<le> n)"
  using assms
proof (induction t arbitrary: k)
  case (Cons c t)
  have ok: "length k < n" "c \<noteq> NUL" "c \<noteq> CHR ''=''"
    using Cons.prems by (auto simp: form_run_Broken split: if_splits)
  then have "fst (form_run n (InKey (k @ [c])) t) \<noteq> Broken" "CHR ''='' \<notin> set t"
    using Cons.prems by (auto split: prod.splits)
  from Cons.IH [OF this(2,1)] ok show ?case by auto
qed simp

end
