(* ===== verification/Mhd_Refine.thy ===== *)
theory Mhd_Refine
  imports Mhd_Form
begin

text \<open>
  The simulation between the post processor and the reference of \<open>Mhd_Form\<close>, for one piece of a body and for
  a body that arrives in chunks.
\<close>

section \<open>The parser implements the reference\<close>

text \<open>
  The state of the reference that a post processor with \<open>n\<close> bytes for the key stands for.
\<close>

definition sized :: "nat \<Rightarrow> post_processor \<Rightarrow> bool" where
  "sized n pp \<longleftrightarrow> pp_buffer_size pp = n \<and> length (pp_buf pp) = n + 1"

fun stands_for :: "nat \<Rightarrow> post_processor \<Rightarrow> form_state \<Rightarrow> bool" where
  "stands_for n pp (InKey k) \<longleftrightarrow> sized n pp \<and> pp_state pp = PP_Init \<and> pp_buffer_pos pp = length k \<and> length k \<le> n \<and>
     take (length k) (pp_buf pp) = k \<and> NUL \<notin> set k \<and> pp_xbuf pp = []"
| "stands_for n pp (InValue k p off) \<longleftrightarrow> sized n pp \<and> pp_state pp = PP_ProcessValue \<and> pp_buffer_pos pp = 0 \<and>
     cstr (pp_buf pp) = k \<and> pp_xbuf pp = p \<and> pending p \<and> pp_value_offset pp = off"
| "stands_for n pp Ended \<longleftrightarrow> sized n pp \<and> pp_state pp = PP_Done \<and> pp_xbuf pp = []"
| "stands_for n pp Broken \<longleftrightarrow> False"

lemma create_stands_for: "stands_for (m + 4) (create_post_processor m) (InKey [])"
  by (simp add: create_post_processor_def sized_def)

lemma pending_length: "pending p \<Longrightarrow> length p \<le> 2"
  by (auto simp: pending_def)

lemma pending_no_end: "pending p \<Longrightarrow> c \<in> set p \<Longrightarrow> \<not> value_end c"
  using hex_plain(8) by (auto simp: pending_def) (auto simp: value_end_def newline_char_def)

lemma length_write_buf: "pos + length src \<le> length buf \<Longrightarrow> length (write_buf pos src buf) = length buf"
  by (simp add: write_buf_def)

lemma length_http_unescape: "length (http_unescape s) \<le> length s"
proof (induction s rule: http_unescape.induct)
  case (2 c r)
  then show ?case by (auto split: list.split option.split) fastforce+
qed simp

lemma cstr_zero: "cstr (u @ NUL # r) = cstr u"
  by (induction u) (auto simp: cstr_def)

lemma in_place_text:
  assumes "NUL \<notin> set u" and "length (f u) \<le> length u"
  shows "cstr (in_place f (u @ NUL # r)) = cstr (f u)" "length (in_place f (u @ NUL # r)) = length u + 1 + length r"
  using assms by (simp_all add: in_place_def write_buf_def cstr_text_zero cstr_zero cstr_no_zero)

text \<open>The key in the buffer is decoded in place.\<close>

lemma key_decoded:
  assumes "take (length k) buf = k" and "length k < length buf" and "NUL \<notin> set k"
  shows "cstr (in_place http_unescape (in_place unescape_plus (buf[length k := NUL]))) = decode_key k"
    "length (in_place http_unescape (in_place unescape_plus (buf[length k := NUL]))) = length buf"
proof -
  have buf: "buf[length k := NUL] = k @ NUL # drop (length k + 1) buf"
    using assms(1,2) by (metis Suc_eq_plus1 upd_conv_take_nth_drop)
  have plus: "in_place unescape_plus (k @ NUL # r) = unescape_plus k @ NUL # r" for r
    using assms(3) by (simp add: in_place_def write_buf_def cstr_text_zero unescape_plus_def)
  have nz: "NUL \<notin> set (unescape_plus k)" using assms(3) by (auto simp: unescape_plus_def)
  show "cstr (in_place http_unescape (in_place unescape_plus (buf[length k := NUL]))) = decode_key k"
    unfolding buf plus by (simp add: in_place_text(1) [where f = http_unescape, OF nz length_http_unescape] decode_key_def)
  show "length (in_place http_unescape (in_place unescape_plus (buf[length k := NUL]))) = length buf"
    unfolding buf plus in_place_text(2) [where f = http_unescape, OF nz length_http_unescape]
    using assms(2) by (simp add: unescape_plus_def)
qed

lemma key_written_stands:
  assumes "stands_for n pp (InKey k)" and "NUL \<notin> set t" and "length k + length t \<le> n"
  shows "stands_for n (key_written t pp) (InKey (k @ t))"
  using assms by (simp add: key_written_def sized_def length_write_buf) (simp add: write_buf_def)

lemma key_ended_stands:
  assumes "stands_for n pp (InKey k)"
  shows "stands_for n (key_ended pp) (InValue (decode_key k) [] 0)"
  using assms key_decoded [of k "pp_buf pp"] by (simp add: key_ended_def sized_def pending_def)

lemma key_of_cases:
  obtains "CHR ''='' \<notin> set data" "key_of data = data"
  | rest where "data = key_of data @ CHR ''='' # rest" "CHR ''='' \<notin> set (key_of data)" "drop (length (key_of data) + 1) data = rest"
proof (cases "CHR ''='' \<in> set data")
  case True
  then obtain u v where d: "data = u @ CHR ''='' # v" "CHR ''='' \<notin> set u" by (metis split_list_first)
  have key: "key_of (u @ CHR ''='' # v) = u"
    using d(2) by (induction u) (auto simp: key_of_def)
  show ?thesis by (rule that(2) [of v]) (simp_all add: d key)
next
  case False
  have "key_of data = data" using False by (auto simp: key_of_def takeWhile_eq_all_conv)
  with False show ?thesis by (rule that(1))
qed

text \<open>A piece of a value, as the parser cuts it and as the reference reads it.\<close>

lemma piece_read:
  assumes p: "pending p" and b: "fst (form_run n (InValue k p off) data) \<noteq> Broken"
    and np: "next_piece p data = (w, keep, rest, found)"
  shows "\<exists>v t. data = t @ rest \<and> p @ t = w @ keep \<and> coded w v \<and> pending keep \<and>
    form_run n (InValue k p off) t = (InValue k keep (off + length v), emitted k off v)"
proof -
  define t where "t = take (min (amper_len data) (XBUF_SIZE - length p)) data"
  have data: "data = t @ rest" and wk: "w = take (length (p @ t) - cut_escape (p @ t)) (p @ t)"
    and keep: "keep = drop (length (p @ t) - cut_escape (p @ t)) (p @ t)"
    using np unfolding next_piece_def Let_def t_def by (metis append_take_drop_id prod.inject)+
  have "set t \<subseteq> set (takeWhile (\<lambda>c. \<not> value_end c) (take XBUF_SIZE data))"
  proof -
    have "t = take (min (amper_len data) (XBUF_SIZE - length p)) (take (amper_len data) data)"
      by (simp add: t_def min_def)
    also have "take (amper_len data) data = takeWhile (\<lambda>c. \<not> value_end c) (take XBUF_SIZE data)"
    proof -
      have "takeWhile (\<lambda>c. \<not> value_end c) (take XBUF_SIZE data) = take (amper_len data) (take XBUF_SIZE data)"
        unfolding amper_len_def by (metis takeWhile_eq_take)
      moreover have "amper_len data \<le> XBUF_SIZE"
        using length_takeWhile_le [of "\<lambda>c. \<not> value_end c" "take XBUF_SIZE data"] by (simp add: amper_len_def)
      ultimately show ?thesis by (simp add: min_def)
    qed
    finally show ?thesis by (metis set_take_subset)
  qed
  then have noend: "\<forall>c \<in> set (p @ t). \<not> value_end c"
    using pending_no_end [OF p] by (auto dest: set_takeWhileD)
  obtain d ys where d: "form_run n (InValue k p off) t = (d, ys)" by (metis surj_pair)
  have dn: "d \<noteq> Broken"
    using b d unfolding data form_run_append by (auto simp: form_run_Broken)
  have run: "form_run n (InValue k [] off) (p @ t) = (d, ys)"
    using d run_pending [OF p, of n k off] by (simp add: form_run_append)
  from run_value [OF noend run dn] obtain w' v q where v: "p @ t = w' @ q" "coded w' v" "pending q"
      "d = InValue k q (off + length v)" "ys = emitted k off v" by blast
  have "w = w'" "keep = q" unfolding wk keep v(1) using coded_cut [OF v(2,3)] by simp_all
  with v data d show ?thesis by blast
qed

text \<open>A piece is empty only where a value ends.\<close>

lemma coded_Nil: "coded w [] \<Longrightarrow> w = []"
  by (auto elim: coded.cases)

lemma amper_ends:
  assumes "amper_len data < XBUF_SIZE" and "amper_len data < length data"
  shows "\<exists>c \<in> set data. value_end c"
proof (rule ccontr)
  assume "\<not> ?thesis"
  then have "takeWhile (\<lambda>c. \<not> value_end c) (take XBUF_SIZE data) = take XBUF_SIZE data"
    by (auto simp: takeWhile_eq_all_conv dest: in_set_takeD)
  then have "amper_len data = min (length data) XBUF_SIZE" by (simp only: amper_len_def length_take)
  with assms show False by (simp add: min_def split: if_splits)
qed

lemma empty_piece:
  assumes "next_piece p data = ([], keep, rest, found)" and "length p \<le> 8" and "rest \<noteq> []"
  shows "\<exists>c \<in> set data. value_end c"
proof -
  let ?d = "min (amper_len data) (XBUF_SIZE - length p)"
  have rest: "rest = drop ?d data" using assms(1) unfolding next_piece_def Let_def by blast
  have "keep @ rest = (p @ take ?d data) @ drop ?d data" using next_piece_rest(1) [OF assms(1)] by simp
  then have k: "keep = p @ take ?d data" unfolding rest by (simp only: append_same_eq)
  have "length (take ?d data) \<le> 2" using next_piece_keep [OF assms(1)] by (simp add: k)
  then have "?d \<le> 2" using assms(3) rest by (auto simp: min_def split: if_splits)
  then have d: "amper_len data \<le> 2" "?d = amper_len data" using assms(2) by (auto simp: XBUF_SIZE_def min_def split: if_splits)
  have "amper_len data < length data" using assms(3) rest d(2) by (cases "amper_len data < length data") auto
  with d(1) show ?thesis by (intro amper_ends) (simp add: XBUF_SIZE_def)
qed

definition full_pieces :: "string \<Rightarrow> piece list \<Rightarrow> bool" where
  "full_pieces data ds \<longleftrightarrow> (\<exists>c \<in> set data. value_end c) \<or> list_all (\<lambda>(k, d, off). d \<noteq> []) ds"

lemma full_pieces_simps [simp]:
  "full_pieces data []"
  "full_pieces data ((k, d, off) # ds) \<longleftrightarrow> (\<exists>c \<in> set data. value_end c) \<or> (d \<noteq> [] \<and> full_pieces data ds)"
  by (auto simp: full_pieces_def)

lemma full_pieces_append: "full_pieces u ds \<Longrightarrow> full_pieces v es \<Longrightarrow> full_pieces (u @ v) (ds @ es)"
  by (auto simp: full_pieces_def)

lemma full_pieces_mono: "full_pieces v ds \<Longrightarrow> set v \<subseteq> set u \<Longrightarrow> full_pieces u ds"
  by (auto simp: full_pieces_def)

lemma urlencoded_reference:
  assumes "stands_for n pp a" and "form_run n a data = (b, xs)" and "b \<noteq> Broken"
  shows "\<exists>pp' ds. urlencoded recorder data pp cs = Inr (MHD_YES, pp', cs @ ds) \<and> stands_for n pp' b \<and> bytes_of ds = xs \<and>
    fst ` set ds \<subseteq> form_keys n a data \<and> full_pieces data ds"
  using assms
proof (induction "2 * length data + (if pp_state pp = PP_ProcessValue then 1 else 0)"
    arbitrary: data pp a xs cs rule: less_induct)
  case less
  note R = less.prems(1) and run = less.prems(2) and ok = less.prems(3)
  show ?case
  proof (cases "data = []")
    case True
    with R run show ?thesis by (auto simp: urlencoded_stops intro!: exI [of _ "[]"])
  next
    case data: False
    show ?thesis
    proof (cases a)
      case (InKey k)
      have st: "pp_state pp = PP_Init" and pos: "pp_buffer_pos pp = length k" and size: "pp_buffer_size pp = n"
        using R InKey by (auto simp: sized_def)
      note step = urlencoded_key [OF data st, of recorder cs]
      show ?thesis
      proof (cases rule: key_of_cases [of data])
        case 1
        have "form_run n (InKey k) data = (InKey (k @ data), [])" "NUL \<notin> set data" "length k + length data \<le> n"
          using run_key [OF 1(1), of n k] run ok data InKey by auto
        with run R InKey 1 show ?thesis
          unfolding step Let_def using key_written_stands [of n pp k data]
          by (intro exI [of _ "key_written data pp"] exI [of _ "[]"]) (simp add: pos size)
      next
        case (2 rest)
        let ?k = "key_of data"
        obtain d ys where d: "form_run n (InKey k) ?k = (d, ys)" by (metis surj_pair)
        have split: "form_run n (InKey k) (?k @ CHR ''='' # rest) = (b, xs)"
          using run 2(1) InKey by metis
        then have "d \<noteq> Broken" using d ok by (auto simp: form_run_append form_run_Broken)
        then have rk: "form_run n (InKey k) ?k = (InKey (k @ ?k), [])" "NUL \<notin> set ?k" "?k = [] \<or> length k + length ?k \<le> n"
          using run_key [OF 2(2), of n k] d by auto
        then have rest: "form_run n (InValue (decode_key (k @ ?k)) [] 0) rest = (b, xs)"
          using split by (auto simp: form_run_append split: prod.splits)
        have le: "length k + length ?k \<le> n" using rk(3) R InKey by auto
        have R': "stands_for n (key_ended (key_written ?k pp)) (InValue (decode_key (k @ ?k)) [] 0)"
          using R InKey rk(2) le by (intro key_ended_stands key_written_stands) auto
        have len: "length data = length ?k + length rest + 1" using arg_cong [OF 2(1), of length] by simp
        obtain pp' ds where "urlencoded recorder rest (key_ended (key_written ?k pp)) cs = Inr (MHD_YES, pp', cs @ ds)"
            "stands_for n pp' b" "bytes_of ds = xs" "fst ` set ds \<subseteq> form_keys n (InValue (decode_key (k @ ?k)) [] 0) rest"
            "full_pieces rest ds"
          using less.hyps [OF _ R' rest ok, of cs] len by (auto simp: key_ended_def)
        moreover have "form_keys n a (?k @ CHR ''='' # rest) \<supseteq> form_keys n (InValue (decode_key (k @ ?k)) [] 0) rest"
          unfolding form_keys_append InKey rk(1) by auto
        then have "form_keys n a data \<supseteq> form_keys n (InValue (decode_key (k @ ?k)) [] 0) rest" using 2(1) by metis
        moreover have "set rest \<subseteq> set data" using arg_cong [OF 2(1), of set] by auto
        then have "full_pieces data ds" using \<open>full_pieces rest ds\<close> by (rule full_pieces_mono [rotated])
        ultimately show ?thesis
          unfolding step Let_def 2(3) using le len pos size by (intro exI [of _ pp'] exI [of _ ds]) auto
      qed
    next
      case (InValue k p off)
      have st: "pp_state pp = PP_ProcessValue" and x: "pp_xbuf pp = p" and p: "pending p" and k: "cstr (pp_buf pp) = k"
        and off: "pp_value_offset pp = off" and sz: "sized n pp" and pos: "pp_buffer_pos pp = 0"
        using R InValue by auto
      have x8: "length (pp_xbuf pp) \<le> 8" using pending_length [OF p] x by simp
      obtain w keep rest found where np: "next_piece p data = (w, keep, rest, found)" by (metis prod_cases4)
      note step = urlencoded_value [OF data st x8 np [folded x], of recorder cs]
      obtain v t where v: "data = t @ rest" "p @ t = w @ keep" "coded w v" "pending keep"
          "form_run n (InValue k p off) t = (InValue k keep (off + length v), emitted k off v)"
        using piece_read [OF p _ np, of n k off] run ok InValue by auto
      obtain ys where ys: "form_run n (InValue k keep (off + length v)) rest = (b, ys)" "xs = emitted k off v @ ys"
        using run v(5) InValue unfolding v(1) form_run_append by (auto split: prod.splits)
      show ?thesis
      proof (cases "w = [] \<and> rest = []")
        case True
        then have "v = []" using v(3) coded_unescaped by (fastforce simp: unescaped_def cstr_def unescape_plus_def)
        with True ys sz st k off v(4) pos show ?thesis
          unfolding step by (intro exI [of _ "pp\<lparr>pp_xbuf := keep\<rparr>"] exI [of _ "[]"]) (auto simp: sized_def)
      next
        case call: False
        let ?q = "piece_taken w keep pp"
        have kin: "k \<in> form_keys n a data" unfolding InValue by (cases data) auto
        have keys: "form_keys n (InValue k keep (off + length v)) rest \<subseteq> form_keys n a data"
          unfolding v(1) form_keys_append InValue v(5) by auto
        have q: "sized n ?q" "pp_buffer_pos ?q = 0" "cstr (pp_buf ?q) = k" "pp_xbuf ?q = keep"
            "pp_value_offset ?q = off + length v" "pp_state ?q = PP_ProcessValue"
          using sz pos k off st coded_unescaped [OF v(3)] by (simp_all add: piece_taken_def sized_def)
        have le: "length rest \<le> length data" and sub: "set rest \<subseteq> set data" using v(1) by auto
        have full: "v = [] \<longrightarrow> (\<exists>c \<in> set data. value_end c)"
          using coded_Nil v(3) empty_piece [of p data keep rest found] np pending_length [OF p] call by fastforce
        have ende: "keep = [] \<and> rest = c # r \<and>
            form_run n (if c = CHR ''&'' then InKey [] else Ended) r = (b, ys)" if "rest = c # r" "value_end c" for c r
          using ys(1) ok that by (auto simp: form_run_Broken split: if_splits prod.splits)
        have found: "rest \<noteq> []" if found
          using np that amper_len_le [of data] by (auto simp: next_piece_def Let_def)
        consider (nl) "found \<and> newline_char (rest ! 0)" | (amp) "found \<and> rest ! 0 = CHR ''&''" "\<not> newline_char (rest ! 0)"
          | (more) "\<not> (found \<and> newline_char (rest ! 0))" "\<not> (found \<and> rest ! 0 = CHR ''&'')" by blast
        then show ?thesis
        proof cases
          case nl
          with found obtain c r where c: "rest = c # r" by (cases rest) auto
          have e: "c \<noteq> CHR ''&''" "value_end c" using nl c by (auto simp: value_end_def newline_char_def)
          with ende [OF c] have en: "keep = []" "form_run n Ended r = (b, ys)" by auto
          then have r: "r = []" using form_run_Ended [of n r] ok by simp
          with en have b: "b = Ended" "ys = []" by auto
          have "urlencoded recorder data pp cs = Inr (MHD_YES, ?q\<lparr>pp_state := PP_Done\<rparr>, cs @ [(k, v, off)])"
            using call nl unfolding step by (simp add: recorder_def k off coded_unescaped [OF v(3)] c
              urlencoded_stops)
          then show ?thesis using q b ys(2) en(1) kin full
            by (intro exI [of _ "?q\<lparr>pp_state := PP_Done\<rparr>"] exI [of _ "[(k, v, off)]"]) (auto simp: sized_def)
        next
          case amp
          with found obtain r where c: "rest = CHR ''&'' # r" by (cases rest) auto
          with ende [OF c] have en: "keep = []" "form_run n (InKey []) r = (b, ys)" by (auto simp: value_end_def)
          have R': "stands_for n (?q\<lparr>pp_state := PP_Init\<rparr>) (InKey [])" using q en(1) by (simp add: sized_def)
          obtain pp' ds where "urlencoded recorder r (?q\<lparr>pp_state := PP_Init\<rparr>) (cs @ [(k, v, off)]) =
              Inr (MHD_YES, pp', (cs @ [(k, v, off)]) @ ds)" "stands_for n pp' b" "bytes_of ds = ys"
              "fst ` set ds \<subseteq> form_keys n (InKey []) r" "full_pieces r ds"
            using less.hyps [OF _ R' en(2) ok, of "cs @ [(k, v, off)]"] le st c by auto
          moreover have "form_keys n (InKey []) r \<subseteq> form_keys n a data"
            using keys by (simp add: c en(1) value_end_def)
          moreover have "set r \<subseteq> set data" using sub c by auto
          then have "full_pieces data ds" using \<open>full_pieces r ds\<close> by (rule full_pieces_mono [rotated])
          moreover have "urlencoded recorder data pp cs = urlencoded recorder r (?q\<lparr>pp_state := PP_Init\<rparr>) (cs @ [(k, v, off)])"
            using call amp unfolding step by (simp add: recorder_def k off coded_unescaped [OF v(3)] c newline_char_def)
          ultimately show ?thesis using ys(2) kin full by (intro exI [of _ pp'] exI [of _ "(k, v, off) # ds"]) auto
        next
          case more
          have R': "stands_for n ?q (InValue k keep (off + length v))" using q v(4) by simp
          have "length rest < length data" using piece_stays [OF data _ np more] pending_length [OF p] by simp
          then obtain pp' ds where "urlencoded recorder rest ?q (cs @ [(k, v, off)]) =
              Inr (MHD_YES, pp', (cs @ [(k, v, off)]) @ ds)" "stands_for n pp' b" "bytes_of ds = ys"
              "fst ` set ds \<subseteq> form_keys n (InValue k keep (off + length v)) rest" "full_pieces rest ds"
            using less.hyps [OF _ R' ys(1) ok, of "cs @ [(k, v, off)]"] st by (auto simp: q(6))
          moreover have "urlencoded recorder data pp cs = urlencoded recorder rest ?q (cs @ [(k, v, off)])"
            unfolding step if_not_P [OF call] recorder_def k off coded_unescaped [OF v(3)]
            using more by (simp only: sum.case prod.case if_not_P mhd_ret.distinct if_False) 
          ultimately show ?thesis using ys(2) kin keys full full_pieces_mono [OF _ sub, of ds] by (intro exI [of _ pp'] exI [of _ "(k, v, off) # ds"]) auto
        qed
      qed
    next
      case Ended
      with run ok data form_run_Ended [of n data] show ?thesis by simp
    next
      case Broken
      with R show ?thesis by simp
    qed
  qed
qed

section \<open>Chunks\<close>

lemma chunks_reference:
  assumes "stands_for n pp a" and "form_run n a (concat chunks) = (b, xs)" and "b \<noteq> Broken"
  shows "\<exists>pp' ds. post_chunks recorder chunks pp cs = Inr (pp', cs @ ds) \<and> stands_for n pp' b \<and> bytes_of ds = xs \<and>
    fst ` set ds \<subseteq> form_keys n a (concat chunks) \<and> full_pieces (concat chunks) ds"
  using assms
proof (induction chunks arbitrary: pp a xs cs)
  case Nil
  then show ?case by (auto intro!: exI [of _ "[]"])
next
  case (Cons c chunks)
  obtain d ys where d: "form_run n a c = (d, ys)" by (metis surj_pair)
  obtain zs where z: "form_run n d (concat chunks) = (b, zs)" "xs = ys @ zs"
    using Cons.prems(2) d by (auto simp: form_run_append split: prod.splits)
  have "d \<noteq> Broken" using z(1) Cons.prems(3) by (auto simp: form_run_Broken)
  with urlencoded_reference [OF Cons.prems(1) d, of cs] obtain p ds where
    1: "urlencoded recorder c pp cs = Inr (MHD_YES, p, cs @ ds)" "stands_for n p d" "bytes_of ds = ys"
      "fst ` set ds \<subseteq> form_keys n a c" "full_pieces c ds" by blast
  from Cons.IH [OF 1(2) z(1) Cons.prems(3), of "cs @ ds"] obtain q es where
    2: "post_chunks recorder chunks p (cs @ ds) = Inr (q, (cs @ ds) @ es)" "stands_for n q b" "bytes_of es = zs"
      "fst ` set es \<subseteq> form_keys n d (concat chunks)" "full_pieces (concat chunks) es" by blast
  show ?case using 1 2 z(2) d by (intro exI [of _ q] exI [of _ "ds @ es"]) (auto simp: form_keys_append full_pieces_append)
qed

lemma stands_for_xbuf: "stands_for n pp a \<Longrightarrow> length (pp_xbuf pp) \<le> 8"
  by (cases a) (auto dest: pending_length)

text \<open>A post processor in a value is destroyed with one more call, which carries no data.\<close>

lemma destroy_in_value:
  assumes "stands_for n pp (InValue k [] off)"
  shows "destroy_post_processor it pp s =
    (case it k [] off s of Inl f \<Rightarrow> Inl f | Inr (r, t) \<Rightarrow> Inr (if r = MHD_NO then MHD_NO else MHD_YES, t))"
proof -
  have q: "pp_state pp = PP_ProcessValue" "pp_xbuf pp = []" "cstr (pp_buf pp) = k" "pp_value_offset pp = off"
    using assms by auto
  have np: "next_piece (pp_xbuf pp) [CHR 0x0A] = ([], [], [CHR 0x0A], True)"
    by (simp add: q next_piece_def amper_len_def XBUF_SIZE_def value_end_def newline_char_def cut_escape_def)
  have "unescaped [] = []" by (simp add: unescaped_def cstr_def unescape_plus_def)
  then have "urlencoded it [CHR 0x0A] pp s = (case it k [] off s of Inl f \<Rightarrow> Inl f
    | Inr (r, t) \<Rightarrow> if r = MHD_NO then Inr (MHD_NO, pp\<lparr>pp_xbuf := [], pp_state := PP_Error\<rparr>, t)
        else Inr (MHD_YES, (piece_taken [] [] pp)\<lparr>pp_state := PP_Done\<rparr>, t))"
    using urlencoded_value [OF _ q(1) _ np, of it s]
    by (simp add: q newline_char_def urlencoded_stops split: sum.split prod.split)
  then show ?thesis
    by (simp add: destroy_post_processor_def q(1) piece_taken_def split: sum.split prod.split)
qed

end
