(* ===== verification/Mhd_Encode.thy ===== *)
theory Mhd_Encode
  imports Mhd_Refine
begin

text \<open>
  Forms as a browser writes them: the encoding of a text in \<^verbatim>\<open>application/x-www-form-urlencoded\<close>, what the
  reference of \<open>Mhd_Form\<close> reads from an encoded form, and the calls the post processor makes for one that
  arrives in one piece.
\<close>

section \<open>The encoding\<close>

definition unreserved :: "char \<Rightarrow> bool" where
  "unreserved c \<longleftrightarrow> c \<in> set ''abcdefghijklmnopqrstuvwxyzABCDEFGHIJKLMNOPQRSTUVWXYZ0123456789*-._''"

definition hex_digit :: "nat \<Rightarrow> char" where
  "hex_digit i = ''0123456789ABCDEF'' ! i"

definition url_char :: "char \<Rightarrow> string" where
  "url_char c =
     (if unreserved c then [c] else if c = CHR '' '' then ''+''
      else (let n = of_char c :: nat in [CHR ''%'', hex_digit (n div 16), hex_digit (n mod 16)]))"

definition url_encode :: "string \<Rightarrow> string" where
  "url_encode t = concat (map url_char t)"

definition form_field :: "string \<times> string \<Rightarrow> string" where
  "form_field = (\<lambda>(k, v). url_encode k @ CHR ''='' # url_encode v)"

fun form_body :: "(string \<times> string) list \<Rightarrow> string" where
  "form_body [] = []"
| "form_body [f] = form_field f"
| "form_body (f # fs) = form_field f @ CHR ''&'' # form_body fs"

lemma url_encode_simps [simp]:
  "url_encode [] = []" "url_encode (c # t) = url_char c @ url_encode t" "url_encode (u @ v) = url_encode u @ url_encode v"
  by (simp_all add: url_encode_def)

lemma hex_digit_hex:
  assumes "i < 16"
  shows "is_hex (hex_digit i)" "hex_value (hex_digit i) = int i"
proof -
  have "list_all (\<lambda>i. is_hex (hex_digit i) \<and> hex_value (hex_digit i) = int i) [0..<16]"
    by (simp add: upt_rec hex_digit_def is_hex_def is_digit_def hex_value_def)
  with assms show "is_hex (hex_digit i)" "hex_value (hex_digit i) = int i"
    by (simp_all add: list_all_iff)
qed

lemma hex_pair:
  fixes c :: char
  defines "n \<equiv> of_char c :: nat"
  shows "n div 16 < 16" "n mod 16 < 16" "byte_of (hex_digit (n div 16)) (hex_digit (n mod 16)) = c"
proof -
  have "n < 256" by (simp add: n_def)
  then show b: "n div 16 < 16" "n mod 16 < 16" by simp_all
  have "16 * (n div 16) + n mod 16 = n" by simp
  then have "nat (16 * int (n div 16) + int (n mod 16)) = n"
    by (metis nat_int of_nat_add of_nat_mult of_nat_numeral)
  then show "byte_of (hex_digit (n div 16)) (hex_digit (n mod 16)) = c"
    using hex_digit_hex [OF b(1)] hex_digit_hex [OF b(2)] by (simp add: byte_of_def n_def)
qed

lemma unreserved_plain:
  assumes "unreserved c"
  shows "c \<noteq> CHR ''%''" "c \<noteq> CHR ''+''" "c \<noteq> NUL" "\<not> value_end c" "c \<noteq> CHR ''=''"
  using assms by (auto simp: unreserved_def value_end_def newline_char_def)

lemma space_plain: "\<not> value_end (CHR ''+'')"
  by (simp add: value_end_def newline_char_def)

lemma url_char_cases:
  obtains "url_char c = [c]" "unreserved c" | "url_char c = ''+''" "c = CHR '' ''"
  | a b where "url_char c = [CHR ''%'', a, b]" "is_hex a" "is_hex b" "byte_of a b = c"
proof (cases "unreserved c")
  case True
  then show ?thesis using that(1) by (simp add: url_char_def)
next
  case False
  show ?thesis
  proof (cases "c = CHR '' ''")
    case True
    moreover have "url_char (CHR '' '') = ''+''" by (simp add: url_char_def unreserved_def)
    ultimately show ?thesis using that(2) by simp
  next
    case no_space: False
    let ?n = "of_char c :: nat"
    have "url_char c = [CHR ''%'', hex_digit (?n div 16), hex_digit (?n mod 16)]"
      using False no_space by (simp add: url_char_def Let_def)
    then show ?thesis using that(3) hex_pair [of c] hex_digit_hex by blast
  qed
qed

lemma special_not_hex [simp]:
  "\<not> is_hex NUL" "\<not> is_hex CHR ''=''" "\<not> is_hex CHR ''&''" "\<not> is_hex CHR 0x0A" "\<not> is_hex CHR 0x0D" "\<not> is_hex CHR ''%''"
  by (simp_all add: is_hex_def is_digit_def)

lemma url_char_chars:
  "x \<in> set (url_char c) \<Longrightarrow> x \<noteq> NUL \<and> x \<noteq> CHR ''='' \<and> \<not> value_end x"
  using unreserved_plain [of c]
  by (cases rule: url_char_cases [of c]) (auto simp: value_end_def newline_char_def)

lemma url_encode_chars:
  "x \<in> set (url_encode t) \<Longrightarrow> x \<noteq> NUL \<and> x \<noteq> CHR ''='' \<and> \<not> value_end x"
  using url_char_chars by (auto simp: url_encode_def)

lemma url_encode_coded: "coded (url_encode t) t"
proof (induction t rule: rev_induct)
  case Nil
  then show ?case by (simp add: coded.Nil)
next
  case (snoc c t)
  show ?case
  proof (cases rule: url_char_cases [of c])
    case 1
    then show ?thesis using coded.plain [OF snoc, of c] unreserved_plain [of c] by (simp add: plus_char_def)
  next
    case 2
    then show ?thesis using coded.plain [OF snoc, of "CHR ''+''"] space_plain by (simp add: plus_char_def)
  next
    case (3 a b)
    then show ?thesis using coded.escape [OF snoc, of a b] by simp
  qed
qed

lemma url_encode_Nil [simp]: "url_encode t = [] \<longleftrightarrow> t = []"
  by (cases t) (auto simp: url_char_def Let_def)

lemma length_url_encode: "length (url_encode t) \<le> 3 * length t"
proof (induction t)
  case (Cons c t)
  have "length (url_char c) \<le> 3" by (simp add: url_char_def Let_def)
  with Cons show ?case by simp
qed simp

lemma url_encode_plain: "list_all unreserved t \<Longrightarrow> url_encode t = t"
  by (induction t) (auto simp: url_char_def)

section \<open>What the reference reads\<close>

lemma run_url_char: "form_run n (InValue k [] off) (url_char c) = (InValue k [] (Suc off), [(k, off, c)])"
proof (cases rule: url_char_cases [of c])
  case 1
  with unreserved_plain [of c] show ?thesis by (simp add: plus_char_def)
next
  case 2
  with space_plain show ?thesis by (simp add: plus_char_def)
next
  case (3 a b)
  with hex_plain [of a] hex_plain [of b] show ?thesis by (simp add: value_end_def newline_char_def)
qed

lemma run_url_value: "form_run n (InValue k [] off) (url_encode v) = (InValue k [] (off + length v), emitted k off v)"
  by (induction v arbitrary: off) (simp_all add: form_run_append run_url_char)

lemma run_plain_key:
  "\<forall>x \<in> set t. x \<noteq> NUL \<and> x \<noteq> CHR ''='' \<Longrightarrow> length k + length t \<le> n \<Longrightarrow>
   form_run n (InKey k) t = (InKey (k @ t), []) \<and> form_keys n (InKey k) t = {}"
  by (induction t arbitrary: k) auto

lemma decode_url_encode: "NUL \<notin> set k \<Longrightarrow> decode_key (url_encode k) = k"
  using coded_unescape_append [OF url_encode_coded, of k "[]"]
  by (simp add: decode_key_def cstr_no_zero unescape_plus_def)

definition field_ok :: "nat \<Rightarrow> string \<times> string \<Rightarrow> bool" where
  "field_ok n = (\<lambda>(k, v). NUL \<notin> set k \<and> length (url_encode k) \<le> n)"

lemma run_field:
  assumes "field_ok n (k, v)"
  shows "form_run n (InKey []) (form_field (k, v)) = (InValue k [] (length v), emitted k 0 v)"
    "form_keys n (InKey []) (form_field (k, v)) = {k}"
proof -
  have key: "form_run n (InKey []) (url_encode k) = (InKey (url_encode k), [])" "form_keys n (InKey []) (url_encode k) = {}"
    using run_plain_key [of "url_encode k" "[]" n] url_encode_chars assms by (auto simp: field_ok_def)
  have dec: "decode_key (url_encode k) = k" using assms by (simp add: field_ok_def decode_url_encode)
  show "form_run n (InKey []) (form_field (k, v)) = (InValue k [] (length v), emitted k 0 v)"
    by (simp add: form_field_def form_run_append key dec run_url_value)
  have "form_keys n (InValue k [] off) (url_encode v) = {k}" for off
  proof (induction v arbitrary: off)
    case (Cons c v)
    have "form_keys n (InValue k [] off) (url_char c) = {k}"
      using unreserved_plain [of c] space_plain hex_plain
      by (cases rule: url_char_cases [of c]) (auto simp: value_end_def newline_char_def)
    with Cons show ?case by (simp add: form_keys_append run_url_char)
  qed simp
  then show "form_keys n (InKey []) (form_field (k, v)) = {k}"
    by (simp add: form_field_def form_keys_append key dec)
qed

definition pair_bytes :: "(string \<times> string) list \<Rightarrow> value_byte list" where
  "pair_bytes fs = concat (map (\<lambda>(k, v). emitted k 0 v) fs)"

lemma run_body:
  assumes "list_all (field_ok n) fs" and "fs \<noteq> []"
  shows "form_run n (InKey []) (form_body fs) = (InValue (fst (last fs)) [] (length (snd (last fs))), pair_bytes fs)"
  using assms
proof (induction fs rule: form_body.induct)
  case (2 f)
  then show ?case by (cases f) (simp add: run_field pair_bytes_def)
next
  case (3 f g fs)
  obtain k v where f: "f = (k, v)" by (cases f)
  have run: "form_run n (InKey []) (form_field (k, v)) = (InValue k [] (length v), emitted k 0 v)"
    using 3 f by (intro run_field) simp
  from 3 show ?case by (simp add: form_run_append f run value_end_def pair_bytes_def)
qed simp

section \<open>One piece\<close>

text \<open>
  A field whose value is neither empty nor longer than the processing buffer is handed over in one call.
\<close>

definition short_field :: "nat \<Rightarrow> string \<times> string \<Rightarrow> bool" where
  "short_field n f \<longleftrightarrow> field_ok n f \<and> snd f \<noteq> [] \<and> length (url_encode (snd f)) \<le> XBUF_SIZE"

lemma amper_len_text:
  assumes "\<forall>c \<in> set u. \<not> value_end c" and "length u \<le> XBUF_SIZE" and "rest = [] \<or> value_end (rest ! 0)"
  shows "amper_len (u @ rest) = length u"
proof -
  have "take XBUF_SIZE (u @ rest) = u @ take (XBUF_SIZE - length u) rest" using assms(2) by simp
  moreover have "takeWhile (\<lambda>c. \<not> value_end c) (take m rest) = []" for m
    using assms(3) by (cases m; cases rest) auto
  ultimately show ?thesis using assms(1) by (simp add: amper_len_def takeWhile_append)
qed

lemma next_piece_value:
  assumes "\<forall>c \<in> set u. \<not> value_end c" and "length u \<le> XBUF_SIZE" and "coded u v" and "rest = [] \<or> value_end (rest ! 0)"
  shows "next_piece [] (u @ rest) = (u, [], rest, rest \<noteq> [])"
proof -
  have a: "amper_len (u @ rest) = length u" using assms(1,2,4) by (rule amper_len_text)
  have "cut_escape u = 0" using coded_cut [OF assms(3), of "[]"] by (simp add: pending_def)
  then show ?thesis using assms(2,4) by (auto simp: next_piece_def Let_def a nth_append)
qed

text \<open>The key of a field; what is left of the value before stays where it is.\<close>

lemma key_read:
  assumes "stands_for n (pp\<lparr>pp_xbuf := []\<rparr>) (InKey [])" and "field_ok n (k, v)"
  shows "\<exists>q. stands_for n (q\<lparr>pp_xbuf := []\<rparr>) (InValue k [] 0) \<and> pp_xbuf q = pp_xbuf pp \<and>
    urlencoded it (url_encode k @ CHR ''='' # rest) pp s = urlencoded it rest q s"
proof -
  let ?k = "url_encode k"
  let ?data = "?k @ CHR ''='' # rest"
  have k: "NUL \<notin> set k" "length ?k \<le> n" using assms(2) by (simp_all add: field_ok_def)
  have nk: "NUL \<notin> set ?k" using url_encode_chars by blast
  have key: "key_of ?data = ?k"
    using url_encode_chars by (simp add: key_of_def takeWhile_append takeWhile_eq_all_conv)
  define q where "q = key_ended (key_written ?k pp)"
  have q: "q\<lparr>pp_xbuf := []\<rparr> = key_ended (key_written ?k (pp\<lparr>pp_xbuf := []\<rparr>))" "pp_xbuf q = pp_xbuf pp"
    by (simp_all add: q_def key_ended_def key_written_def)
  have "stands_for n (q\<lparr>pp_xbuf := []\<rparr>) (InValue (decode_key ([] @ ?k)) [] 0)"
    unfolding q(1) using assms(1) nk k(2) by (intro key_ended_stands key_written_stands) auto
  then have st: "stands_for n (q\<lparr>pp_xbuf := []\<rparr>) (InValue k [] 0)" using k(1) by (simp add: decode_url_encode)
  have ini: "pp_state pp = PP_Init" "pp_buffer_pos pp = 0" "pp_buffer_size pp = n" using assms(1) by (auto simp: sized_def)
  have "?data \<noteq> []" by simp
  then have "urlencoded it ?data pp s = urlencoded it rest q s"
    unfolding urlencoded_key [OF \<open>?data \<noteq> []\<close> ini(1)] Let_def key using k(2) by (simp add: ini q_def)
  with st q(2) show ?thesis by blast
qed

lemma run_short_field:
  assumes st: "stands_for n pp (InKey [])" and f: "short_field n (k, v)" and rest: "rest = [] \<or> value_end (rest ! 0)"
  shows "\<exists>pp'. stands_for n pp' (InValue k [] (length v)) \<and> stands_for n (pp'\<lparr>pp_state := PP_Init\<rparr>) (InKey []) \<and>
    urlencoded recorder (form_field (k, v) @ rest) pp cs =
      (if rest = [] then Inr (MHD_YES, pp', cs @ [(k, v, 0)])
       else if newline_char (rest ! 0) then urlencoded recorder rest (pp'\<lparr>pp_state := PP_ExpectNewLine\<rparr>) (cs @ [(k, v, 0)])
       else urlencoded recorder (drop 1 rest) (pp'\<lparr>pp_state := PP_Init\<rparr>) (cs @ [(k, v, 0)]))"
proof -
  let ?u = "url_encode v"
  have fs: "v \<noteq> []" "length ?u \<le> XBUF_SIZE" using f by (auto simp: short_field_def)
  have "stands_for n (pp\<lparr>pp_xbuf := []\<rparr>) (InKey [])" using st by (simp add: sized_def)
  from key_read [OF this, of k v recorder "?u @ rest" cs] f obtain q
    where q: "stands_for n (q\<lparr>pp_xbuf := []\<rparr>) (InValue k [] 0)" "pp_xbuf q = []"
      and r1: "urlencoded recorder (form_field (k, v) @ rest) pp cs = urlencoded recorder (?u @ rest) q cs"
    using st by (auto simp: short_field_def form_field_def)
  have "q\<lparr>pp_xbuf := []\<rparr> = q" using q(2) by simp
  with q(1) have q: "stands_for n q (InValue k [] 0)" by simp
  have np: "next_piece (pp_xbuf q) (?u @ rest) = (?u, [], rest, rest \<noteq> [])"
    using next_piece_value [OF _ fs(2) url_encode_coded rest] url_encode_chars q by auto
  define p where "p = piece_taken ?u [] q"
  have un: "unescaped ?u = v" using url_encode_coded by (rule coded_unescaped)
  have p: "stands_for n p (InValue k [] (length v))" "stands_for n (p\<lparr>pp_state := PP_Init\<rparr>) (InKey [])"
    using q un by (simp_all add: p_def piece_taken_def sized_def pending_def)
  have ne: "?u @ rest \<noteq> []" "?u \<noteq> []" and qv: "pp_state q = PP_ProcessValue" "length (pp_xbuf q) \<le> 8" "cstr (pp_buf q) = k"
      "pp_value_offset q = 0"
    using fs(1) q by auto
  have amp: "rest \<noteq> [] \<Longrightarrow> \<not> newline_char (rest ! 0) \<Longrightarrow> rest ! 0 = CHR ''&''" using rest by (auto simp: value_end_def)
  have "urlencoded recorder (?u @ rest) q cs =
      (if rest = [] then Inr (MHD_YES, p, cs @ [(k, v, 0)])
       else if newline_char (rest ! 0) then urlencoded recorder rest (p\<lparr>pp_state := PP_ExpectNewLine\<rparr>) (cs @ [(k, v, 0)])
       else urlencoded recorder (drop 1 rest) (p\<lparr>pp_state := PP_Init\<rparr>) (cs @ [(k, v, 0)]))"
    unfolding urlencoded_value [OF ne(1) qv(1,2) np] p_def [symmetric]
    using ne(2) amp by (auto simp: recorder_def qv un urlencoded_stops)
  with r1 p show ?thesis by (intro exI [of _ p]) simp
qed

lemma run_short_body:
  assumes "stands_for n pp (InKey [])" and "list_all (short_field n) fs" and "fs \<noteq> []"
  shows "\<exists>pp'. urlencoded recorder (form_body fs) pp cs = Inr (MHD_YES, pp', cs @ map (\<lambda>(k, v). (k, v, 0)) fs) \<and>
    stands_for n pp' (InValue (fst (last fs)) [] (length (snd (last fs))))"
  using assms
proof (induction fs arbitrary: pp cs rule: form_body.induct)
  case (2 f)
  obtain k v where f: "f = (k, v)" by (cases f)
  with 2 run_short_field [OF 2(1), of k v "[]" cs] show ?case by auto
next
  case (3 f g fs)
  obtain k v where f: "f = (k, v)" by (cases f)
  let ?r = "CHR ''&'' # form_body (g # fs)"
  obtain p where p: "stands_for n (p\<lparr>pp_state := PP_Init\<rparr>) (InKey [])"
    "urlencoded recorder (form_field (k, v) @ ?r) pp cs =
      urlencoded recorder (form_body (g # fs)) (p\<lparr>pp_state := PP_Init\<rparr>) (cs @ [(k, v, 0)])"
    using run_short_field [OF 3(2), of k v ?r cs] 3(3) f by (auto simp: value_end_def newline_char_def)
  have "list_all (short_field n) (g # fs)" using 3(3) by simp
  from 3(1) [OF p(1) this, of "cs @ [(k, v, 0)]"] p(2) show ?case by (auto simp: f)
qed simp

lemma items_short_body:
  assumes "list_all (short_field (m + 4)) fs" and "fs \<noteq> []"
  shows "form_items (create_post_processor m) (form_body fs) = map (\<lambda>(k, v). (k, cstr v, length v)) fs"
proof -
  obtain pp' where "urlencoded recorder (form_body fs) (create_post_processor m) [] =
      Inr (MHD_YES, pp', [] @ map (\<lambda>(k, v). (k, v, 0)) fs)"
    using run_short_body [OF create_stands_for assms, of "[]"] by blast
  then show ?thesis by (simp add: form_items_def item_of_def o_def split_def)
qed

end
