(* ===== verification/Door_Properties.thy ===== *)
theory Door_Properties
  imports Door_Server Mhd_Encode
begin

text \<open>
  The properties of the door opener: what it sends its own receiver takes; what a form posted to it does,
  from the bytes of its body to the end of the request; and the program that presses the buttons of its page
  works together with it.
\<close>

section \<open>Frames\<close>

definition door_payload :: "door_cmd \<Rightarrow> byte list" where
  "door_payload = (\<lambda>(nid, s1, s2, s3). [hi nid, lo nid, s1, s2, s3, 0, hi nid + lo nid + s1 + s2 + s3])"

definition door_idle :: "door \<Rightarrow> bool" where
  "door_idle s \<longleftrightarrow> dr_step s = 0 \<and> dr_i s = 0 \<and> length (dr_rebuf s) = REBUF_SIZE"

definition door_deliver :: "door_cmd \<Rightarrow> door cmd" where
  "door_deliver c s = Inr (s\<lparr>dr_rebuf := door_payload c @ drop 7 (dr_rebuf s), dr_shown := dr_shown s @ [door_payload c]\<rparr>)"

text \<open>The state with a part of a payload read.\<close>

definition door_loaded :: "byte list \<Rightarrow> door \<Rightarrow> door" where
  "door_loaded m s = s\<lparr>dr_step := 2, dr_i := of_nat (length m), dr_rebuf := fill m (dr_rebuf s)\<rparr>"

lemma door_data:
  "length (dr_rebuf s) = REBUF_SIZE \<Longrightarrow> length (m @ rest) \<le> 7 \<Longrightarrow>
   feed door_byte rest (door_loaded m s) = Inr (door_loaded (m @ rest) s)"
proof (induction rest arbitrary: m)
  case Nil
  then show ?case by simp
next
  case (Cons b rest)
  have n: "length m < 7" using Cons.prems(2) by simp
  then have u: "unat (of_nat (length m) :: byte) = length m" by (intro unat_of_nat_byte) simp
  have lt: "(of_nat (length m) :: byte) < 7" using n u by (simp add: word_less_nat_alt)
  have inc: "(of_nat (length m) :: byte) + 1 = of_nat (length (m @ [b]))" by simp
  have "length m < length (dr_rebuf s)" "length (fill m (dr_rebuf s)) = length (dr_rebuf s)"
    using n Cons.prems(1) by (simp_all add: length_fill)
  then have "door_byte b (door_loaded m s) = Inr (door_loaded (m @ [b]) s)"
    using lt u inc by (simp add: door_byte_def door_loaded_def fill_snoc)
  moreover have "feed door_byte rest (door_loaded (m @ [b]) s) = Inr (door_loaded ((m @ [b]) @ rest) s)"
    using Cons.prems by (intro Cons.IH) simp_all
  ultimately show ?case by simp
qed

lemma door_frame_payload: "door_frame c = [0xaa, 0xc0] @ door_payload c @ [0xab]" "length (door_payload c) = 7"
  by (cases c; simp add: door_frame_def door_payload_def)+

lemma door_payload_sum: "sum_list (take 6 (door_payload c)) = door_payload c ! 6"
  by (cases c) (simp add: door_payload_def)

lemma feed_door_frame: "door_idle s \<Longrightarrow> feed door_byte (door_frame c) s = door_deliver c s"
proof -
  assume s: "door_idle s"
  let ?p = "door_payload c"
  have len: "length (dr_rebuf s) = REBUF_SIZE" using s by (simp add: door_idle_def)
  have head: "feed door_byte [0xaa, 0xc0] s = Inr (door_loaded [] s)"
    using s by (simp add: door_byte_def door_loaded_def door_idle_def)
  have body: "feed door_byte ?p (door_loaded [] s) = Inr (door_loaded ?p s)"
    using door_data [OF len, of "[]" ?p] by (simp add: door_frame_payload(2))
  have buf: "take 7 (fill ?p (dr_rebuf s)) = ?p" "take 6 (fill ?p (dr_rebuf s)) = take 6 ?p"
      "fill ?p (dr_rebuf s) ! 6 = ?p ! 6"
    by (simp_all add: fill_def door_frame_payload(2) nth_append)
  have tail: "door_byte 0xab (door_loaded ?p s) = door_deliver c s"
    using s buf by (simp add: door_byte_def door_loaded_def door_deliver_def door_frame_payload(2) door_payload_sum
        door_idle_def fill_def Let_def)
  have "feed door_byte ([0xaa, 0xc0] @ ?p) s = Inr (door_loaded ?p s)"
    unfolding feed_append using head body by (simp only: sum.case)
  then have "feed door_byte (([0xaa, 0xc0] @ ?p) @ [0xab]) s = door_byte 0xab (door_loaded ?p s)"
    by (rule feed_snoc)
  then show ?thesis using tail by (simp add: door_frame_payload(1))
qed

interpretation door_link: frame_receiver door_byte door_idle door_deliver "0xaa" door_frame "\<lambda>c. True"
proof unfold_locales
  show "door_idle s \<Longrightarrow> b \<noteq> 0xaa \<Longrightarrow> door_byte b s = Inr s" for s b
    by (simp add: door_idle_def door_byte_def)
  show "door_idle s \<Longrightarrow> True \<Longrightarrow> feed door_byte (door_frame m) s = door_deliver m s" for s m
    by (rule feed_door_frame)
  show "door_idle s \<Longrightarrow> True \<Longrightarrow> door_deliver m s = Inr t \<Longrightarrow> door_idle t" for s m t
    by (auto simp: door_idle_def door_deliver_def door_frame_payload(2))
qed

section \<open>A form posted to the door opener\<close>

text \<open>
  One post as libmicrohttpd serves it: the first call for the connection, the chunks of the body through the
  post processor that call made, the last call, and \<^verbatim>\<open>request_completed\<close>, which destroys the post
  processor; its destruction may call \<^verbatim>\<open>iterate_post\<close> once more.
\<close>

definition fault_of_door :: "(c_error \<times> (door \<times> door_con)) + 'a \<Rightarrow> (c_error \<times> door) + 'a" where
  "fault_of_door = map_sum (\<lambda>(e, (t, _)). (e, t)) id"

definition serve_form :: "page_text \<Rightarrow> web_env \<Rightarrow> string list \<Rightarrow> door \<Rightarrow> (c_error \<times> door) + door" where
  "serve_form pt env chunks s =
     (let it = of_items (iterate_post_door pt True)
      in case answer_to_connection_door pt True env ''POST'' 0 [] None s of
           Inr (_, Some con, s) \<Rightarrow>
             (case fault_of_door (post_chunks it chunks (create_post_processor 512) (s, con)) of
                Inl f \<Rightarrow> Inl f
              | Inr (pp, (s, con)) \<Rightarrow>
                  (case answer_to_connection_door pt True env ''POST'' 0 [] (Some con) s of
                     Inr (_, Some con, s) \<Rightarrow>
                       (case fault_of_door (destroy_post_processor it pp (s, con)) of
                          Inl f \<Rightarrow> Inl f
                        | Inr (_, (s, con)) \<Rightarrow> (case request_completed_door (Some con) of Inl e \<Rightarrow> Inl (e, s) | Inr _ \<Rightarrow> Inr s))
                   | Inr (_, None, s) \<Rightarrow> Inr s
                   | Inl f \<Rightarrow> Inl f))
         | Inr (_, None, s) \<Rightarrow> Inr s
         | Inl f \<Rightarrow> Inl f)"

text \<open>A chunk goes through \<^verbatim>\<open>answer_to_connection\<close>, which hands it to the post processor.\<close>

lemma chunk_is_answer:
  assumes "chunk \<noteq> []" and "pc_processor con" and "length (pp_xbuf pp) \<le> 8"
  shows "answer_to_connection_door pt mem env ''POST'' (length chunk) (form_items pp chunk) (Some con) s =
    (case post_chunks (of_items (iterate_post_door pt mem)) [chunk] pp (s, con) of
       Inl (e, (t, _)) \<Rightarrow> Inl (e, t)
     | Inr (_, (t, con')) \<Rightarrow> Inr (MHD_YES, Some con', t))"
proof -
  let ?it = "iterate_post_door pt mem"
  obtain r pp' ds where d: "urlencoded recorder chunk pp [] = Inr (r, pp', [] @ ds)"
    "same_calls ?it (map item_of ds) pp' (s, con) (forget_ret (urlencoded (of_items ?it) chunk pp (s, con)))"
    using urlencoded_items [OF assms(3), of chunk "[]" ?it "(s, con)"] by blast
  have items: "form_items pp chunk = map item_of ds" using d(1) by (simp add: form_items_def)
  have one: "post_chunks (of_items ?it) [chunk] pp (s, con) = forget_ret (urlencoded (of_items ?it) chunk pp (s, con))"
    by (simp add: forget_ret_def split: sum.split prod.split)
  have "answer_to_connection_door pt mem env ''POST'' (length chunk) (form_items pp chunk) (Some con) s =
      (case post_process ?it (map item_of ds) (s, con) of
         Inl (e, (t, _)) \<Rightarrow> Inl (e, t) | Inr (t, con') \<Rightarrow> Inr (MHD_YES, Some con', t))"
    using assms(1,2) by (simp add: answer_to_connection_door_def items)
  with d(2) show ?thesis
    unfolding one by (cases "post_until ?it (map item_of ds) (s, con)") (auto simp: post_process_until same_calls_def)
qed

definition good_env :: "web_env \<Rightarrow> bool" where
  "good_env env \<longleftrightarrow> we_malloc env \<and> we_processor env \<and> we_create env"

definition press_field :: "bool \<Rightarrow> string" where
  "press_field up = (if up then ''open'' else ''close'')"

definition press_frame :: "bool \<Rightarrow> event list" where
  "press_frame up = map TxByte (door_frame (if up then (0xb6d6, 1, 1, 1) else (0xb6d6, 0, 0, 0)))"

definition press_text :: "bool \<Rightarrow> string" where
  "press_text up = (if up then ''open '' else ''close'')"

text \<open>What a post of one field does, by its value.\<close>

definition posted :: "page_text \<Rightarrow> bool \<Rightarrow> string \<Rightarrow> event list" where
  "posted pt up v =
     (if v = [] then Reply errorpage # press_frame up else press_frame up @ [Reply (snprintf_page pt 512 (press_field up))])"

lemma iterate_press:
  "iterate_post_door pt True (press_field up, d, n) (s, con) =
     Inr (MHD_NO, dr_emit (press_frame up) (s\<lparr>dr_str := press_text up\<rparr>),
       con\<lparr>pc_answer := if 0 < n \<and> n \<le> 20 then Some (snprintf_page pt 512 (press_field up)) else None\<rparr>)"
  by (cases up) (simp_all add: iterate_post_door_def door_press_def press_field_def press_frame_def press_text_def)

lemma field_pieces:
  assumes "field_ok 516 (k, v)" and "concat chunks = form_body [(k, v)]"
  shows "\<exists>pp ds. post_chunks recorder chunks (create_post_processor 512) [] = Inr (pp, ds) \<and>
    stands_for 516 pp (InValue k [] (length v)) \<and> list_all (\<lambda>(l, d, off). l = k \<and> d \<noteq> [] \<and> length d \<le> length v) ds \<and>
    (ds = [] \<longleftrightarrow> v = [])"
proof -
  have run: "form_run (512 + 4) (InKey []) (concat chunks) = (InValue k [] (length v), emitted k 0 v)"
    "form_keys (512 + 4) (InKey []) (concat chunks) = {k}"
    using run_field [of 516 k v] assms by simp_all
  obtain pp ds where p: "post_chunks recorder chunks (create_post_processor 512) [] = Inr (pp, [] @ ds)"
      "stands_for 516 pp (InValue k [] (length v))" "bytes_of ds = emitted k 0 v" "fst ` set ds \<subseteq> {k}"
      "full_pieces (concat chunks) ds"
    using chunks_reference [OF create_stands_for run(1), of "[]"] run(2) by auto
  have "\<not> (\<exists>c \<in> set (concat chunks). value_end c)"
    using url_encode_chars unfolding assms(2) by (auto simp: form_field_def value_end_def newline_char_def)
  then have full: "list_all (\<lambda>(l, d, off). d \<noteq> []) ds" using p(5) by (simp add: full_pieces_def)
  have len: "length (emitted l off d) = length d" for l off d by (induction d arbitrary: off) simp_all
  have sum: "(l, d, off) \<in> set es \<Longrightarrow> length d \<le> length (bytes_of es)" for l d off es
    by (induction es) (auto simp: len)
  have "list_all (\<lambda>(l, d, off). l = k \<and> d \<noteq> [] \<and> length d \<le> length v) ds"
    using full p(4) sum [of _ _ _ ds] unfolding p(3) len by (fastforce simp: list_all_iff)
  moreover have "ds = [] \<longleftrightarrow> v = []"
  proof
    assume "ds = []"
    then have "length (emitted k 0 v) = 0" using p(3) by simp
    then show "v = []" by (simp add: len)
  next
    assume "v = []"
    have nil: "emitted l off d = [] \<Longrightarrow> d = []" for l off d by (cases d) simp_all
    from \<open>v = []\<close> p(3) full show "ds = []" by (cases ds) (auto dest: nil)
  qed
  ultimately show ?thesis using p(1,2) by auto
qed

lemma serve_field:
  assumes env: "good_env env" and v: "length v \<le> 20" and chunks: "concat chunks = form_body [(press_field up, v)]"
  shows "serve_form pt env chunks s = Inr (dr_emit (posted pt up v) (s\<lparr>dr_str := press_text up\<rparr>))"
proof -
  let ?k = "press_field up" and ?it = "of_items (iterate_post_door pt True)"
  let ?con = "\<lparr>pc_type = 1, pc_answer = None, pc_processor = True\<rparr> :: door_con"
  let ?t = "dr_emit (press_frame up) (s\<lparr>dr_str := press_text up\<rparr>)"
  have k: "field_ok 516 (?k, v)"
    using length_url_encode [of ?k] by (auto simp: field_ok_def press_field_def)
  have opened: "answer_to_connection_door pt True env ''POST'' 0 [] None s = Inr (MHD_YES, Some ?con, s)"
    using env by (simp add: answer_to_connection_door_def open_connection_def good_env_def)
  obtain pp ds where p: "post_chunks recorder chunks (create_post_processor 512) [] = Inr (pp, [] @ ds)"
      "stands_for 516 pp (InValue ?k [] (length v))" "list_all (\<lambda>(l, d, off). l = ?k \<and> d \<noteq> [] \<and> length d \<le> length v) ds"
      "ds = [] \<longleftrightarrow> v = []"
    using field_pieces [OF k chunks] by auto
  have "length (pp_xbuf (create_post_processor 512)) \<le> 8" by (simp add: create_post_processor_def)
  from chunks_items [OF this, of chunks "[]" "iterate_post_door pt True" "(s, ?con)"] p(1)
  have calls: "same_calls (iterate_post_door pt True) (map item_of ds) pp (s, ?con)
      (post_chunks ?it chunks (create_post_processor 512) (s, ?con))" by auto
  have last: "answer_to_connection_door pt True env ''POST'' 0 [] (Some con) u = Inr (we_queue env, Some con,
      dr_emit [Reply (case pc_answer con of Some a \<Rightarrow> a | None \<Rightarrow> errorpage)] u)" for con u
    using env by (simp add: answer_to_connection_door_def send_page_door_def good_env_def split: option.split)
  have closed: "pc_processor con \<Longrightarrow> request_completed_door (Some con) = Inr None" for con
    by (simp add: request_completed_door_def close_connection_def)
  show ?thesis
  proof (cases "v = []")
    case True
    then have run: "post_chunks ?it chunks (create_post_processor 512) (s, ?con) = Inr (pp, (s, ?con))"
      using calls p(4) by simp
    have "destroy_post_processor ?it pp (u, ?con) =
        Inr (MHD_NO, dr_emit (press_frame up) (u\<lparr>dr_str := press_text up\<rparr>), ?con\<lparr>pc_answer := None\<rparr>)" for u
      using destroy_in_value [OF p(2), of ?it "(u, ?con)"]
      by (simp add: of_items_def item_of_def cstr_def iterate_press)
    then show ?thesis
      unfolding serve_form_def Let_def opened
      by (simp add: fault_of_door_def run last closed posted_def True dr_emit_def)
  next
    case False
    then obtain d off es where ds: "ds = (?k, d, off) # es" "d \<noteq> []" "length d \<le> 20"
      using p(3,4) v by (cases ds) auto
    have "iterate_post_door pt True (item_of (?k, d, off)) (s, ?con) =
        Inr (MHD_NO, ?t, ?con\<lparr>pc_answer := Some (snprintf_page pt 512 ?k)\<rparr>)"
      using ds by (simp add: item_of_def iterate_press)
    with calls ds obtain q where run: "post_chunks ?it chunks (create_post_processor 512) (s, ?con) =
        Inr (q, (?t, ?con\<lparr>pc_answer := Some (snprintf_page pt 512 ?k)\<rparr>))" "pp_state q = PP_Error" by auto
    have "\<exists>r. destroy_post_processor ?it q x = Inr (r, x)" for x
      using run(2) by (simp add: destroy_post_processor_def)
    then obtain r where "destroy_post_processor ?it q (dr_emit [Reply (snprintf_page pt 512 ?k)] ?t,
        ?con\<lparr>pc_answer := Some (snprintf_page pt 512 ?k)\<rparr>) = Inr (r, dr_emit [Reply (snprintf_page pt 512 ?k)] ?t,
        ?con\<lparr>pc_answer := Some (snprintf_page pt 512 ?k)\<rparr>)" by blast
    then show ?thesis
      unfolding serve_form_def Let_def opened
      by (simp add: fault_of_door_def run(1) last closed posted_def False) (simp add: dr_emit_def)
  qed
qed

section \<open>The client presses the buttons of the page\<close>

fun posts_of :: "event list \<Rightarrow> string list" where
  "posts_of [] = []"
| "posts_of (Post b # es) = b # posts_of es"
| "posts_of (e # es) = posts_of es"

definition client_rounds :: "nat \<Rightarrow> byte \<times> event list" where
  "client_rounds n = (client_round ^^ n) (1, [])"

lemma posts_of_append: "posts_of (es @ fs) = posts_of es @ posts_of fs"
  by (induction es rule: posts_of.induct) auto

lemma client_rounds_state:
  "client_rounds n = (if even n then 1 else 2, snd (client_rounds n)) \<and>
   posts_of (snd (client_rounds n)) = map (\<lambda>k. if odd k then ''open=submit'' else ''close=submit'') [0..<n]"
proof (induction n)
  case 0
  then show ?case by (simp add: client_rounds_def)
next
  case (Suc n)
  obtain i es where r: "client_rounds n = (i, es)" by (cases "client_rounds n")
  have s: "client_rounds (Suc n) = client_round (i, es)"
    using r by (simp add: client_rounds_def)
  have i: "i = (if even n then 1 else 2)" using Suc r by simp
  show ?case using Suc i r by (auto simp: s client_round_def posts_of_append)
qed

lemmas client_posts = client_rounds_state [THEN conjunct2]

section \<open>Properties\<close>

text \<open>
  C38. Every command the door opener can send is a frame its own receiver takes: whatever commands are sent,
  with any bytes other than the start byte between the frames, the receiver shows exactly their payloads
  in order, and is ready for the next frame.
\<close>

theorem door_frames_received:
  assumes "door_idle s" and "list_all (\<lambda>(noise, c). 0xaa \<notin> set noise) ps"
  shows "\<exists>t. feed door_byte (concat (map (\<lambda>(noise, c). noise @ door_frame c) ps)) s = Inr t \<and> door_idle t \<and>
    dr_shown t = dr_shown s @ map (\<lambda>(noise, c). door_payload c) ps"
proof -
  have "feed door_byte (concat (map (\<lambda>(n, m). n @ door_frame m) ps)) s = block (map (\<lambda>(n, m). door_deliver m) ps) s"
    using assms by (intro door_link.stream_of_frames) (auto simp: list_all_iff)
  moreover have "\<exists>t. block (map (\<lambda>(n, m). door_deliver m) ps) s = Inr t \<and> door_idle t \<and>
      dr_shown t = dr_shown s @ map (\<lambda>(noise, c). door_payload c) ps"
    using assms(1)
  proof (induction ps arbitrary: s)
    case Nil
    then show ?case by simp
  next
    case (Cons p ps)
    obtain n m where p: "p = (n, m)" by (cases p)
    obtain u where u: "door_deliver m s = Inr u" "dr_shown u = dr_shown s @ [door_payload m]"
      by (simp add: door_deliver_def)
    have "door_idle u" using Cons.prems u(1) by (rule door_link.deliver_idle [OF _ TrueI])
    from Cons.IH [OF this] u show ?case by (auto simp: p)
  qed
  ultimately show ?thesis by simp
qed

theorem door_frames_received_witness:
  "\<exists>t. feed door_byte (door_frame (0xb6d6, 1, 1, 1) @ [0, 1] @ door_frame (0xb6d6, 0, 0, 0)) door_initial = Inr t \<and>
     dr_shown t = [[0xb6, 0xd6, 1, 1, 1, 0, 0x8f], [0xb6, 0xd6, 0, 0, 0, 0, 0x8c]]"
proof -
  have "door_idle door_initial" by (simp add: door_idle_def door_initial_def)
  from door_frames_received [OF this, of "[([], (0xb6d6, 1, 1, 1)), ([0, 1], (0xb6d6, 0, 0, 0))]"]
  obtain t where t: "feed door_byte (door_frame (0xb6d6, 1, 1, 1) @ [0, 1] @ door_frame (0xb6d6, 0, 0, 0)) door_initial = Inr t"
    "dr_shown t = dr_shown door_initial @ [door_payload (0xb6d6, 1, 1, 1), door_payload (0xb6d6, 0, 0, 0)]"
    by (auto simp del: feed.simps)
  have "dr_shown t = [[0xb6, 0xd6, 1, 1, 1, 0, 0x8f], [0xb6, 0xd6, 0, 0, 0, 0, 0x8c]]"
    unfolding t(2) by (simp add: door_payload_def hi_def lo_def door_initial_def)
  with t(1) show ?thesis by blast
qed

text \<open>
  C21. What a post with the field of a button does, from the bytes of its body, in whatever chunks they
  arrive, to the end of the request. A value of up to 20 bytes sends the frame of the button once and
  answers with its page. With an empty value the request is answered with the error page, and the frame goes
  out only afterwards, when \<^verbatim>\<open>request_completed\<close> destroys the post processor.
\<close>

theorem door_form_posted:
  assumes "good_env env" and "length v \<le> 20" and "concat chunks = form_body [(press_field up, v)]"
  shows "serve_form pt env chunks s = Inr (dr_emit (posted pt up v) (s\<lparr>dr_str := press_text up\<rparr>))"
  using assms by (rule serve_field)

definition door_env :: web_env where
  "door_env = \<lparr>we_malloc = True, we_word = 0, we_processor = True, we_create = True, we_queue = MHD_YES\<rparr>"

theorem door_form_posted_witness:
  "dr_out (projr (serve_form askpage_door door_env [''op'', ''en=+op'', ''en+''] door_initial)) =
     press_frame True @ [Reply (snprintf_page askpage_door 512 ''open'')] \<and>
   dr_out (projr (serve_form askpage_door door_env [''open='', []] door_initial)) = Reply errorpage # press_frame True"
proof -
  have env: "good_env door_env" by (simp add: good_env_def door_env_def)
  have "concat [''op'', ''en=+op'', ''en+''] = form_body [(press_field True, '' open '')]"
    "concat [''open='', []] = form_body [(press_field True, [])]"
    by (simp_all add: press_field_def form_field_def url_char_def unreserved_def)
  from door_form_posted [OF env _ this(1), of askpage_door door_initial]
    door_form_posted [OF env _ this(2), of askpage_door door_initial]
  show ?thesis by (simp add: posted_def press_field_def dr_emit_def door_initial_def)
qed

text \<open>
  C39. The client and the door server together: in its n-th round the client posts the form whose handling
  makes the server send the frame that closes the door (first, third, \<open>\<dots>\<close> round) or opens it (second,
  fourth, \<open>\<dots>\<close>) and answer with the page for that button, in whatever chunks the forms arrive; nothing else
  leaves the server.
\<close>

theorem door_client_and_server:
  assumes "good_env env" and "map concat css = posts_of (snd (client_rounds n))"
  shows "\<exists>t. block (map (serve_form pt env) css) s = Inr t \<and>
    dr_out t = dr_out s @ concat (map (\<lambda>k. posted pt (odd k) ''submit'') [0..<n])"
  using assms(2)
proof (induction n arbitrary: css)
  case 0
  have "posts_of (snd (client_rounds 0)) = []" by (simp add: client_rounds_def)
  with 0 show ?case by simp
next
  case (Suc n)
  have body: "form_body [(press_field up, ''submit'')] = (if up then ''open=submit'' else ''close=submit'')" for up
    by (simp add: press_field_def form_field_def url_char_def unreserved_def)
  have "map concat css = posts_of (snd (client_rounds n)) @ [form_body [(press_field (odd n), ''submit'')]]"
    using Suc.prems unfolding body by (simp add: client_posts)
  then obtain bs c where css: "css = bs @ [c]" "map concat bs = posts_of (snd (client_rounds n))"
      "concat c = form_body [(press_field (odd n), ''submit'')]"
    by (auto simp: map_eq_append_conv)
  from Suc.IH [OF css(2)] obtain t where t: "block (map (serve_form pt env) bs) s = Inr t"
      "dr_out t = dr_out s @ concat (map (\<lambda>k. posted pt (odd k) ''submit'') [0..<n])" by blast
  with serve_field [OF assms(1) _ css(3), of pt t] show ?case
    by (simp add: css(1) block_append dr_emit_def)
qed

theorem door_client_and_server_witness:
  "\<exists>t. block (map (serve_form askpage_door door_env) [[''close='', ''submit''], [''open=sub'', ''mit'']]) door_initial = Inr t \<and>
     dr_out t = posted askpage_door False ''submit'' @ posted askpage_door True ''submit''"
proof -
  have e: "good_env door_env" by (simp add: good_env_def door_env_def)
  have "map concat [[''close='', ''submit''], [''open=sub'', ''mit'']] = posts_of (snd (client_rounds 2))"
    by (simp add: client_posts upt_rec)
  from door_client_and_server [OF e this, of askpage_door door_initial] show ?thesis
    by (simp add: door_initial_def upt_rec)
qed

end
