(* ===== verification/Mhd_Body.thy ===== *)
theory Mhd_Body
  imports Mhd_Encode
begin

text \<open>
  How libmicrohttpd hands the body of a request to a program: \<^verbatim>\<open>process_request_body\<close> of
  \<^verbatim>\<open>connection.c\<close>, which is called whenever bytes have arrived and calls \<^verbatim>\<open>answer_to_connection\<close> with
  pieces of the body, for bodies of a given length and for bodies in chunked transfer coding; and the proof
  that the pieces make up the body.
\<close>

section \<open>The code\<close>

text \<open>
  The fields of \<^verbatim>\<open>struct MHD_Connection\<close> that the function uses. The remaining size is \<open>None\<close> for
  \<^verbatim>\<open>MHD_SIZE_UNKNOWN\<close>.
\<close>

record upload =
  up_response :: bool
  up_chunked :: bool
  up_remaining :: "nat option"
  up_size :: nat
  up_offset :: nat

text \<open>Why a connection ends early: bad chunked coding, the application said no, it left more than it got, a fault.\<close>

datatype body_stop = BadChunk | AppError | ApiViolation | Fault c_error

text \<open>
  The handler of the application: its result and what it leaves of the data, in \<^verbatim>\<open>*upload_data_size\<close>.
\<close>

type_synonym 's body_handler = "string \<Rightarrow> 's \<Rightarrow> (c_error \<times> 's) + mhd_ret \<times> nat \<times> 's"

text \<open>The line feed at the end of a chunk, in up to two parts.\<close>

definition skip_newline :: "string \<Rightarrow> nat" where
  "skip_newline b =
     (let i = (if newline_char (b ! 0) then 1 else 0) in if newline_char (b ! i) then i + 1 else i)"

definition chunk_ended :: "upload \<Rightarrow> string \<Rightarrow> (upload \<times> string) option" where
  "chunk_ended u b =
     (if up_offset u = up_size u \<and> up_offset u \<noteq> 0 \<and> 2 \<le> length b
      then (if skip_newline b = 0 then None
            else Some (u\<lparr>up_offset := 0, up_size := 0\<rparr>, drop (skip_newline b) b))
      else Some (u, b))"

text \<open>The line with the size of a chunk, of which at most six characters are looked at.\<close>

definition line_len :: "string \<Rightarrow> nat" where
  "line_len b = length (takeWhile (\<lambda>c. \<not> newline_char c) (take 6 b))"

text \<open>
  The line gives whether to go on at once, the connection, and the bytes that are left; \<open>None\<close> is malformed.
\<close>

definition chunk_line :: "upload \<Rightarrow> string \<Rightarrow> (bool \<times> upload \<times> string) option" where
  "chunk_line u b =
     (let i = line_len b
      in if length b \<le> i + 1 \<and> \<not> (i = 1 \<and> length b = 2 \<and> b ! 0 = CHR ''0'') then Some (False, u, b)
         else if 6 \<le> i then None
         else (case strtoul16 (cstr (take i b)) of (n, rest) \<Rightarrow>
           if rest \<noteq> [] then None
           else (let k = (if i + 1 < length b \<and> newline_char (b ! (i + 1)) then i + 2 else i + 1);
                     v = u\<lparr>up_size := nat (n mod 2 ^ 64), up_offset := 0\<rparr>
                 in if up_size v = 0 then Some (False, v\<lparr>up_remaining := Some 0\<rparr>, drop k b)
                    else Some (drop k b \<noteq> [], v, drop k b))))"

definition give_body :: "'s body_handler \<Rightarrow> nat \<Rightarrow> bool \<Rightarrow> upload \<Rightarrow> string \<Rightarrow> 's
    \<Rightarrow> (body_stop \<times> 's) + bool \<times> upload \<times> string \<times> 's" where
  "give_body h n retry u b s =
     (case h (take n b) s of
        Inl (f, t) \<Rightarrow> Inl (Fault f, t)
      | Inr (r, left, t) \<Rightarrow>
          if r = MHD_NO then Inl (AppError, t)
          else if n < left then Inl (ApiViolation, t)
          else (let used = n - left
                in Inr (retry \<and> left = 0,
                     u\<lparr>up_offset := (if up_chunked u then up_offset u + used else up_offset u),
                       up_remaining := map_option (\<lambda>r. nat ((int r - int used) mod 2 ^ 64)) (up_remaining u)\<rparr>,
                     drop used b, t)))"

definition body_step :: "'s body_handler \<Rightarrow> upload \<Rightarrow> string \<Rightarrow> 's \<Rightarrow> (body_stop \<times> 's) + bool \<times> upload \<times> string \<times> 's" where
  "body_step h u b s =
     (if up_chunked u \<and> up_remaining u = None
      then (case chunk_ended u b of
              None \<Rightarrow> Inl (BadChunk, s)
            | Some (u, b) \<Rightarrow>
                if up_offset u < up_size u
                then (let n = min (up_size u - up_offset u) (length b) in give_body h n (n < length b) u b s)
                else (case chunk_line u b of None \<Rightarrow> Inl (BadChunk, s) | Some (again, v, c) \<Rightarrow> Inr (again, v, c, s)))
      else give_body h (case up_remaining u of Some r \<Rightarrow> if r \<noteq> 0 \<and> r < length b then r else length b | None \<Rightarrow> length b)
             False u b s)"

lemma skip_newline_le: "skip_newline b \<le> 2"
  by (simp add: skip_newline_def Let_def)

lemma chunk_ended_less: "chunk_ended u b = Some (v, c) \<Longrightarrow> length c \<le> length b"
  by (auto simp: chunk_ended_def split: if_splits)

lemma chunk_line_less: "chunk_line u b = Some (True, v, c) \<Longrightarrow> length c < length b"
  by (cases b) (auto simp: chunk_line_def Let_def split: if_splits prod.splits)

lemma give_body_less: "give_body h n r u b s = Inr (True, v, c, t) \<Longrightarrow> 0 < n \<Longrightarrow> n \<le> length b \<Longrightarrow> length c < length b"
  by (auto simp: give_body_def Let_def split: sum.splits prod.splits if_splits)

lemma body_step_less:
  assumes "body_step h u b s = Inr (True, v, c, t)"
  shows "length c < length b"
proof (cases "up_chunked u \<and> up_remaining u = None")
  case True
  with assms obtain w d where e: "chunk_ended u b = Some (w, d)"
    by (auto simp: body_step_def split: option.splits)
  have le: "length d \<le> length b" using e by (rule chunk_ended_less)
  show ?thesis
  proof (cases "up_offset w < up_size w")
    case True
    let ?n = "min (up_size w - up_offset w) (length d)"
    have g: "give_body h ?n (?n < length d) w d s = Inr (True, v, c, t)"
      using assms True e \<open>up_chunked u \<and> up_remaining u = None\<close> by (simp add: body_step_def Let_def)
    then have "?n < length d" by (auto simp: give_body_def Let_def split: sum.splits prod.splits if_splits)
    then show ?thesis using give_body_less [OF g] True le by (auto simp: min_def split: if_splits)
  next
    case False
    have "chunk_line w d = Some (True, v, c)"
      using assms False e \<open>up_chunked u \<and> up_remaining u = None\<close> by (auto simp: body_step_def split: option.splits)
    then show ?thesis using chunk_line_less le by fastforce
  qed
next
  case False
  with assms show ?thesis
    by (auto simp: body_step_def give_body_def Let_def split: sum.splits prod.splits if_splits)
qed

function process_request_body ::
    "'s body_handler \<Rightarrow> upload \<Rightarrow> string \<Rightarrow> 's \<Rightarrow> (body_stop \<times> 's) + upload \<times> string \<times> 's" where
  "process_request_body h u b s =
     (if up_response u then Inr (u, b, s)
      else case body_step h u b s of
             Inl f \<Rightarrow> Inl f
           | Inr (again, v, c, t) \<Rightarrow> if again then process_request_body h v c t else Inr (v, c, t))"
  by pat_completeness auto

termination
  by (relation "measure (\<lambda>(h, u, b, s). length b)") (auto dest: body_step_less)

declare process_request_body.simps [simp del]

text \<open>
  The part of \<^verbatim>\<open>MHD_connection_handle_idle\<close> for a request whose body is being received: every time bytes
  were read behind those that are left, until nothing remains to be uploaded. Nothing is read twice, and a
  read gives at least one byte.
\<close>

fun receive_body :: "'s body_handler \<Rightarrow> string list \<Rightarrow> upload \<Rightarrow> string \<Rightarrow> 's \<Rightarrow> (body_stop \<times> 's) + upload \<times> string \<times> 's" where
  "receive_body h [] u b s = Inr (u, b, s)"
| "receive_body h (p # ps) u b s =
     (if up_remaining u = Some 0 then Inr (u, b @ concat (p # ps), s)
      else if b @ p = [] then receive_body h ps u b s
      else case process_request_body h u (b @ p) s of
             Inl f \<Rightarrow> Inl f
           | Inr (v, c, t) \<Rightarrow> receive_body h ps v c t)"

text \<open>
  The connection when its headers have been read. The one length that the code takes for an unknown one,
  \<^verbatim>\<open>MHD_SIZE_UNKNOWN\<close>, that is 2^64 - 1, is left out.
\<close>

definition upload_sized :: "nat \<Rightarrow> upload" where
  "upload_sized n = \<lparr>up_response = False, up_chunked = False, up_remaining = Some n, up_size = 0, up_offset = 0\<rparr>"

definition upload_chunked :: upload where
  "upload_chunked = \<lparr>up_response = False, up_chunked = True, up_remaining = None, up_size = 0, up_offset = 0\<rparr>"

text \<open>
  A handler that takes and records all data, and the handlers of the programs with a post processor, which
  set \<^verbatim>\<open>*upload_data_size\<close> to 0 and answer \<^verbatim>\<open>MHD_YES\<close> whatever the post processor says.
\<close>

definition body_recorder :: "string list body_handler" where
  "body_recorder d ds = Inr (MHD_YES, 0, ds @ [d])"

definition form_handler :: "'s iterator \<Rightarrow> (post_processor \<times> 's) body_handler" where
  "form_handler it d = (\<lambda>(pp, s).
     case urlencoded it d pp s of Inl (f, t) \<Rightarrow> Inl (f, (pp, t)) | Inr (r, pp', t) \<Rightarrow> Inr (MHD_YES, 0, (pp', t)))"

section \<open>Chunked transfer coding\<close>

fun hex_nat :: "nat \<Rightarrow> string" where
  "hex_nat n = (if n < 16 then [hex_digit n] else hex_nat (n div 16) @ [hex_digit (n mod 16)])"

declare hex_nat.simps [simp del]

definition crlf :: string where
  "crlf = [CHR 0x0D, CHR 0x0A]"

definition chunk_text :: "string \<Rightarrow> string" where
  "chunk_text d = hex_nat (length d) @ crlf @ d @ crlf"

definition chunked_text :: "string list \<Rightarrow> string" where
  "chunked_text ds = concat (map chunk_text ds) @ hex_nat 0 @ crlf @ crlf"

definition chunk_ok :: "string \<Rightarrow> bool" where
  "chunk_ok d \<longleftrightarrow> d \<noteq> [] \<and> length d < 16 ^ 5"

lemma hex_nat_hex: "list_all is_hex (hex_nat n)"
proof (induction n rule: hex_nat.induct)
  case (1 n)
  then show ?case using hex_digit_hex(1) by (subst hex_nat.simps) auto
qed

lemma hex_nat_not_Nil: "hex_nat n \<noteq> []"
  by (subst hex_nat.simps) simp

lemma hex_nat_value: "foldl (\<lambda>a c. 16 * a + hex_value c) 0 (hex_nat n) = int n"
proof (induction n rule: hex_nat.induct)
  case (1 n)
  show ?case
  proof (cases "n < 16")
    case True
    then show ?thesis by (subst hex_nat.simps) (simp add: hex_digit_hex)
  next
    case False
    have "16 * int (n div 16) + int (n mod 16) = int n" by (metis mult_div_mod_eq of_nat_add of_nat_mult of_nat_numeral)
    with 1 False show ?thesis by (subst hex_nat.simps) (simp add: hex_digit_hex)
  qed
qed

lemma length_hex_nat: "0 < k \<Longrightarrow> n < 16 ^ k \<Longrightarrow> length (hex_nat n) \<le> k"
proof (induction n arbitrary: k rule: hex_nat.induct)
  case (1 n)
  show ?case
  proof (cases "n < 16")
    case True
    with 1 show ?thesis by (subst hex_nat.simps) simp
  next
    case False
    with 1 obtain j where k: "k = Suc j" "0 < j" by (cases k; cases "k - 1") auto
    with 1 False have "length (hex_nat (n div 16)) \<le> j" by (intro "1.IH") (auto simp: less_mult_imp_div_less)
    with False k show ?thesis by (subst hex_nat.simps) simp
  qed
qed

lemma strtoul16_hex_nat: "strtoul16 (hex_nat n) = (int n, [])"
proof -
  obtain a r where h: "hex_nat n = a # r" using hex_nat_not_Nil by (cases "hex_nat n") auto
  have hex: "list_all is_hex (a # r)" using hex_nat_hex [of n] h by simp
  then have a: "\<not> is_space a" "a \<noteq> CHR ''-''" "a \<noteq> CHR ''+''" and r: "2 \<le> length r \<Longrightarrow> r ! 0 \<noteq> CHR ''x'' \<and> r ! 0 \<noteq> CHR ''X''"
    using hex_plain by (cases r; auto)+
  have "takeWhile is_hex (a # r) = a # r" using hex by (auto simp: takeWhile_eq_all_conv list_all_iff)
  then show ?thesis
    using a r hex_nat_value [of n] by (auto simp: strtoul16_def Let_def h)
qed

end
