(* ===== verification/Mhd_Wire.thy ===== *)
theory Mhd_Wire
  imports Mhd_Body
begin

text \<open>
  \<^verbatim>\<open>process_request_body\<close> delivers a body: in whatever pieces its bytes arrive, of a known length or chunked,
  the application is called with pieces that make up the body, none of them empty, and the end of the body
  is found. A program with a post processor sees the same pieces as a handler that records them.
\<close>

section \<open>What a connection still has to deliver\<close>

text \<open>
  The bytes still to come, those in the buffer included, with the body they carry: a chunk or the rest of
  one, its end, the next chunks; or the rest of a body of known length. Anything may follow.
\<close>

inductive carries :: "upload \<Rightarrow> string \<Rightarrow> string \<Rightarrow> bool" where
  at_line: "carries u (chunked_text ds @ z) (concat ds)"
    if "\<not> up_response u" "up_chunked u" "up_remaining u = None" "up_size u = 0" "up_offset u = 0" "list_all chunk_ok ds"
| in_chunk: "carries u (d @ crlf @ chunked_text ds @ z) (d @ concat ds)"
    if "\<not> up_response u" "up_chunked u" "up_remaining u = None" "up_offset u + length d = up_size u" "up_size u \<noteq> 0"
      "list_all chunk_ok ds"
| sized: "carries u (d @ z) d"
    if "\<not> up_response u" "\<not> up_chunked u" "up_remaining u = Some (length d)" "length d < 2 ^ 64"

definition received :: "upload \<Rightarrow> bool" where
  "received u \<longleftrightarrow> up_remaining u = Some 0"

text \<open>
  What one call, or one iteration, does with the buffer \<open>b\<close> when \<open>f\<close> is still to come: it hands over
  pieces \<open>es\<close> of the body, none of them empty, and either the body is complete or more bytes are needed.
\<close>

definition advances :: "string \<Rightarrow> string \<Rightarrow> string list \<Rightarrow> upload \<Rightarrow> string \<Rightarrow> bool" where
  "advances f body es v c \<longleftrightarrow> [] \<notin> set es \<and>
     (\<exists>rest. body = concat es @ rest \<and> (if received v then rest = [] else carries v (c @ f) rest))"

lemma newline_crlf: "newline_char CHR 0x0D" "newline_char CHR 0x0A"
  by (simp_all add: newline_char_def)

lemma chunked_text_Cons: "chunked_text (d # ds) = hex_nat (length d) @ crlf @ d @ crlf @ chunked_text ds"
  by (simp add: chunked_text_def chunk_text_def)

lemma line_len_hex:
  assumes "list_all is_hex l" and "length l \<le> 5"
  shows "line_len (l @ CHR 0x0D # r) = length l" "m \<le> length l \<Longrightarrow> line_len (take m l) = m"
proof -
  have plain: "\<forall>c \<in> set l. \<not> newline_char c"
    using assms(1) hex_plain(8) by (auto simp: list_all_iff value_end_def)
  have "take 6 (l @ CHR 0x0D # r) = l @ CHR 0x0D # take (5 - length l) r"
  proof -
    have "6 - length l = Suc (5 - length l)" using assms(2) by simp
    then show ?thesis using assms(2) by simp
  qed
  then show "line_len (l @ CHR 0x0D # r) = length l"
    using plain by (simp add: line_len_def takeWhile_append newline_crlf)
  have "takeWhile (\<lambda>c. \<not> newline_char c) (take m l) = take m l"
    using plain by (auto simp: takeWhile_eq_all_conv dest: in_set_takeD)
  moreover assume m: "m \<le> length l"
  moreover have "take 6 (take m l) = take m l" using assms(2) m by simp
  ultimately show "line_len (take m l) = m" by (simp only: line_len_def length_take min_absorb2)
qed

text \<open>A whole line is taken, also the last one before its line feed has come; a part of one waits.\<close>

lemma chunk_line_at:
  assumes l: "list_all is_hex l" "length l \<le> 5" "strtoul16 l = (int n, [])" and n: "n < 16 ^ 5"
  shows "chunk_line u (l @ crlf @ r) =
    (let v = u\<lparr>up_size := n, up_offset := 0\<rparr>
     in if n = 0 then Some (False, v\<lparr>up_remaining := Some 0\<rparr>, r) else Some (r \<noteq> [], v, r))"
proof -
  have i: "line_len (l @ crlf @ r) = length l"
    using line_len_hex(1) [OF l(1,2)] by (simp add: crlf_def)
  have nz: "cstr l = l" using l(1) hex_plain(5) by (intro cstr_no_zero) (auto simp: list_all_iff)
  have mod: "nat (int n mod 2 ^ 64) = n" using n by (simp add: nat_mod_distrib)
  have at: "(l @ crlf @ r) ! (length l + 1) = CHR 0x0A" "length (l @ crlf @ r) = length l + 2 + length r"
      "drop (length l + 2) (l @ crlf @ r) = r" "take (length l) (l @ crlf @ r) = l"
    by (simp_all add: nth_append crlf_def)
  show ?thesis
    unfolding chunk_line_def Let_def i at nz l(3) prod.case using l(2) mod
    by (simp add: newline_crlf) (auto simp: crlf_def)
qed

lemma chunk_line_whole:
  assumes "n < 16 ^ 5"
  shows "chunk_line u (hex_nat n @ crlf @ r) =
    (let v = u\<lparr>up_size := n, up_offset := 0\<rparr>
     in if n = 0 then Some (False, v\<lparr>up_remaining := Some 0\<rparr>, r) else Some (r \<noteq> [], v, r))"
  using assms by (intro chunk_line_at hex_nat_hex length_hex_nat strtoul16_hex_nat) auto

lemma chunk_line_last: "chunk_line u (hex_nat 0 @ [CHR 0x0D]) =
    Some (False, u\<lparr>up_size := 0, up_offset := 0, up_remaining := Some 0\<rparr>, [])"
proof -
  have l: "hex_nat 0 = ''0''" by (simp add: hex_nat.simps hex_digit_def)
  have "line_len (''0'' @ [CHR 0x0D]) = 1" by (simp add: line_len_def newline_char_def)
  moreover have "strtoul16 ''0'' = (0, [])" using strtoul16_hex_nat [of 0] l by simp
  ultimately show ?thesis by (simp add: chunk_line_def Let_def l cstr_def)
qed

lemma chunk_line_part:
  assumes "n < 16 ^ 5" and "b = take m (hex_nat n @ [CHR 0x0D])" and "m \<le> length (hex_nat n) + 1"
    and "n \<noteq> 0 \<or> m < length (hex_nat n) + 1"
  shows "chunk_line u b = Some (False, u, b)"
proof -
  let ?l = "hex_nat n"
  have len: "length ?l \<le> 5" using assms(1) by (intro length_hex_nat) auto
  show ?thesis
  proof (cases "m = length ?l + 1")
    case True
    then have b: "b = ?l @ [CHR 0x0D]" using assms(2) by simp
    have "?l \<noteq> [CHR ''0'']"
    proof
      assume "?l = [CHR ''0'']"
      moreover have "hex_nat 0 = ''0''" by (simp add: hex_nat.simps hex_digit_def)
      ultimately have "int n = 0" using strtoul16_hex_nat [of n] strtoul16_hex_nat [of 0] by simp
      with assms(4) True show False by simp
    qed
    then have "\<not> (length ?l = 1 \<and> b ! 0 = CHR ''0'')" using b by (cases ?l) (auto simp: length_Suc_conv)
    then show ?thesis
      using line_len_hex(1) [OF hex_nat_hex len, of "[]"] b by (auto simp: chunk_line_def Let_def)
  next
    case False
    then have m: "m \<le> length ?l" "b = take m ?l" using assms(2,3) by auto
    then show ?thesis
      using line_len_hex(2) [OF hex_nat_hex len m(1)] by (auto simp: chunk_line_def Let_def)
  qed
qed

lemma append_prefix:
  assumes "b @ f = x @ y"
  shows "(\<exists>r. b = x @ r \<and> y = r @ f) \<or> (\<exists>r. r \<noteq> [] \<and> x = b @ r \<and> f = r @ y)"
  using assms by (auto simp: append_eq_append_conv2)

text \<open>What an iteration has to achieve.\<close>

definition goes_on :: "string \<Rightarrow> string \<Rightarrow> bool \<Rightarrow> string list \<Rightarrow> upload \<Rightarrow> string \<Rightarrow> bool" where
  "goes_on f body again es v c \<longleftrightarrow> advances f body es v c \<and> (again \<longrightarrow> c \<noteq> [] \<and> \<not> received v) \<and>
     (again \<or> received v \<or> f \<noteq> [])"

lemma line_advances:
  assumes u: "\<not> up_response u" "up_chunked u" "up_remaining u = None" "up_size u = 0" "up_offset u = 0"
    and ds: "list_all chunk_ok ds" and b: "b @ f = chunked_text ds @ z"
  shows "\<exists>again v c. chunk_line u b = Some (again, v, c) \<and> goes_on f (concat ds) again [] v c"
proof -
  define n where "n = (case ds of [] \<Rightarrow> 0 | d # _ \<Rightarrow> length d)"
  define y where "y = (case ds of [] \<Rightarrow> crlf | d # es \<Rightarrow> d @ crlf @ chunked_text es) @ z"
  have n: "n < 16 ^ 5" "n = 0 \<longleftrightarrow> ds = []" using ds by (auto simp: n_def chunk_ok_def split: list.splits)
  have y: "y \<noteq> []" by (simp add: y_def crlf_def split: list.split)
  have stream: "b @ f = (hex_nat n @ crlf) @ y"
  proof (cases ds)
    case Nil
    then show ?thesis using b by (simp add: n_def y_def chunked_text_def)
  next
    case (Cons d es)
    then show ?thesis using b by (simp add: n_def y_def chunked_text_Cons)
  qed
  from append_prefix [OF stream] show ?thesis
  proof (elim disjE exE conjE)
    fix r assume r: "b = (hex_nat n @ crlf) @ r" "y = r @ f"
    note line = chunk_line_whole [OF n(1), of u r]
    show ?thesis
    proof (cases ds)
      case Nil
      with line r n show ?thesis by (auto simp: goes_on_def advances_def received_def Let_def)
    next
      case (Cons d es)
      let ?v = "u\<lparr>up_size := n, up_offset := 0\<rparr>"
      have "carries ?v (d @ crlf @ chunked_text es @ z) (d @ concat es)"
        using u ds Cons n by (intro carries.in_chunk) (auto simp: n_def)
      then have "carries ?v (r @ f) (d @ concat es)" using r(2) by (simp add: y_def Cons)
      with line r n u y Cons show ?thesis
        by (intro exI [of _ "r \<noteq> []"] exI [of _ ?v] exI [of _ r]) (auto simp: goes_on_def advances_def received_def)
    qed
  next
    fix r assume r: "r \<noteq> []" "hex_nat n @ crlf = b @ r" "f = r @ y"
    let ?m = "length b"
    have m: "?m \<le> length (hex_nat n) + 1" using arg_cong [OF r(2), of length] r(1) by (cases r) (auto simp: crlf_def)
    have "(hex_nat n @ [CHR 0x0D]) @ [CHR 0x0A] = b @ r" using r(2) by (simp add: crlf_def)
    then have "b = take ?m ((hex_nat n @ [CHR 0x0D]) @ [CHR 0x0A])" by (metis append_eq_conv_conj)
    also have "\<dots> = take ?m (hex_nat n @ [CHR 0x0D])" by (subst take_append) (use m in simp)
    finally have b': "b = take ?m (hex_nat n @ [CHR 0x0D])" .
    have f: "f \<noteq> []" using r by simp
    show ?thesis
    proof (cases "n \<noteq> 0 \<or> ?m < length (hex_nat n) + 1")
      case True
      have "carries u (b @ f) (concat ds)" using carries.at_line [OF u ds, of z] b by simp
      with chunk_line_part [OF n(1) b' m True, of u] f u show ?thesis
        by (intro exI [of _ False] exI [of _ u] exI [of _ b]) (auto simp: goes_on_def advances_def received_def)
    next
      case False
      then have len: "?m = length (hex_nat n @ [CHR 0x0D])" and "n = 0" using m by auto
      have "b = hex_nat n @ [CHR 0x0D]" by (metis b' len order_refl take_all)
      then have "b = hex_nat 0 @ [CHR 0x0D]" using \<open>n = 0\<close> by simp
      with chunk_line_last [of u] n False show ?thesis
        by (intro exI [of _ False] exI [of _ "u\<lparr>up_size := 0, up_offset := 0, up_remaining := Some 0\<rparr>"] exI [of _ "[]"])
          (auto simp: goes_on_def advances_def received_def)
    qed
  qed
qed

lemma give_all:
  "give_body body_recorder n retry u b ds = Inr (retry,
     u\<lparr>up_offset := (if up_chunked u then up_offset u + n else up_offset u),
       up_remaining := map_option (\<lambda>r. nat ((int r - int n) mod 2 ^ 64)) (up_remaining u)\<rparr>,
     drop n b, ds @ [take n b])"
  by (simp add: give_body_def body_recorder_def Let_def)

lemma chunk_advances:
  assumes u: "\<not> up_response u" "up_chunked u" "up_remaining u = None" "up_offset u + length d = up_size u" "up_size u \<noteq> 0"
    and es: "list_all chunk_ok es" and b: "b @ f = d @ crlf @ chunked_text es @ z" "b \<noteq> []"
  shows "\<exists>again v c gs. body_step body_recorder u b ds = Inr (again, v, c, ds @ gs) \<and> goes_on f (d @ concat es) again gs v c"
proof (cases "d = []")
  case True
  then have off: "up_offset u = up_size u" using u(4) by simp
  let ?u = "u\<lparr>up_offset := 0, up_size := 0\<rparr>"
  from append_prefix [of b f crlf "chunked_text es @ z"] b(1) True
  consider r where "b = crlf @ r" "chunked_text es @ z = r @ f" | r where "r \<noteq> []" "crlf = b @ r" "f = r @ chunked_text es @ z"
    by auto
  then show ?thesis
  proof cases
    case 1
    have "body_step body_recorder u b ds =
        (case chunk_line ?u r of None \<Rightarrow> Inl (BadChunk, ds) | Some (again, v, c) \<Rightarrow> Inr (again, v, c, ds))"
      using u off 1(1) by (simp add: body_step_def chunk_ended_def skip_newline_def newline_crlf crlf_def)
    moreover obtain again v c where "chunk_line ?u r = Some (again, v, c)" "goes_on f (concat es) again [] v c"
      using line_advances [of ?u es r f z] u es 1(2) by auto
    ultimately show ?thesis using True
      by (intro exI [of _ again] exI [of _ v] exI [of _ c] exI [of _ "[]"]) simp
  next
    case 2
    then have cr: "b = [CHR 0x0D]" using b(2) by (cases b) (auto simp: crlf_def Cons_eq_append_conv)
    have "body_step body_recorder u b ds = Inr (False, u, b, ds)"
      using u off by (simp add: cr body_step_def chunk_ended_def chunk_line_def line_len_def newline_crlf)
    moreover have "carries u (b @ f) (d @ concat es)" unfolding b(1) using u es by (rule carries.in_chunk)
    ultimately show ?thesis using 2 u
      by (intro exI [of _ False] exI [of _ u] exI [of _ b] exI [of _ "[]"]) (auto simp: goes_on_def advances_def received_def)
  qed
next
  case False
  then have off: "up_offset u < up_size u" "up_size u - up_offset u = length d" using u(4) by (cases d; simp)+
  have step: "body_step body_recorder u b ds =
      (let n = min (length d) (length b) in give_body body_recorder n (n < length b) u b ds)"
    using u off by (simp add: body_step_def chunk_ended_def)
  let ?y = "crlf @ chunked_text es @ z"
  from append_prefix [OF b(1)] show ?thesis
  proof (elim disjE exE conjE)
    fix r assume r: "b = d @ r" "?y = r @ f"
    let ?v = "u\<lparr>up_offset := up_size u\<rparr>"
    have v: "u\<lparr>up_offset := up_offset u + length d, up_remaining := None\<rparr> = ?v" using u by simp
    have "carries ?v ([] @ ?y) ([] @ concat es)" using u es by (intro carries.in_chunk) auto
    then have c: "carries ?v (r @ f) (concat es)" using r(2) by simp
    have "body_step body_recorder u b ds = Inr (r \<noteq> [], ?v, r, ds @ [d])"
      using step r(1) u v by (simp add: Let_def give_all)
    moreover have "r \<noteq> [] \<or> f \<noteq> []" using r(2) by (auto simp: crlf_def)
    ultimately show ?thesis using c False u
      by (intro exI [of _ "r \<noteq> []"] exI [of _ ?v] exI [of _ r] exI [of _ "[d]"]) (auto simp: goes_on_def advances_def received_def)
  next
    fix r assume r: "r \<noteq> []" "d = b @ r" "f = r @ ?y"
    let ?v = "u\<lparr>up_offset := up_offset u + length b\<rparr>"
    have v: "u\<lparr>up_offset := up_offset u + length b, up_remaining := None\<rparr> = ?v" using u by simp
    have "carries ?v (r @ ?y) (r @ concat es)" using u es r(2) by (intro carries.in_chunk) auto
    moreover have "body_step body_recorder u b ds = Inr (False, ?v, [], ds @ [b])"
      using step r u v by (simp add: Let_def give_all)
    ultimately show ?thesis using r u b(2)
      by (intro exI [of _ False] exI [of _ ?v] exI [of _ "[]"] exI [of _ "[b]"]) (auto simp: goes_on_def advances_def received_def)
  qed
qed

lemma sized_advances:
  assumes u: "\<not> up_response u" "\<not> up_chunked u" "up_remaining u = Some (length d)" "length d < 2 ^ 64" "d \<noteq> []"
    and b: "b @ f = d @ z" "b \<noteq> []"
  shows "\<exists>again v c gs. body_step body_recorder u b ds = Inr (again, v, c, ds @ gs) \<and> goes_on f d again gs v c"
proof -
  have step: "body_step body_recorder u b ds = give_body body_recorder (min (length d) (length b)) False u b ds"
    using u by (simp add: body_step_def min_def)
  from append_prefix [OF b(1)] show ?thesis
  proof (elim disjE exE conjE)
    fix r assume r: "b = d @ r" "z = r @ f"
    then show ?thesis using step u
      by (intro exI [of _ False] exI [of _ "u\<lparr>up_offset := up_offset u, up_remaining := Some 0\<rparr>"] exI [of _ r] exI [of _ "[d]"])
        (auto simp: give_all goes_on_def advances_def received_def)
  next
    fix r assume r: "r \<noteq> []" "d = b @ r" "f = r @ z"
    let ?v = "u\<lparr>up_offset := up_offset u, up_remaining := Some (length r)\<rparr>"
    have m: "nat ((int (length d) - int (length b)) mod 2 ^ 64) = length r" using r u(4) by simp
    have "carries ?v (r @ z) r" using u r(2) by (intro carries.sized) auto
    then show ?thesis using step u r b(2) m
      by (intro exI [of _ False] exI [of _ ?v] exI [of _ "[]"] exI [of _ "[b]"])
        (auto simp: give_all goes_on_def advances_def received_def)
  qed
qed

lemma step_advances:
  assumes "carries u (b @ f) body" and "b \<noteq> []" and "\<not> received u"
  shows "\<exists>again v c gs. body_step body_recorder u b ds = Inr (again, v, c, ds @ gs) \<and> goes_on f body again gs v c"
  using assms(1)
proof cases
  case (at_line es z)
  have "body_step body_recorder u b ds =
      (case chunk_line u b of None \<Rightarrow> Inl (BadChunk, ds) | Some (again, v, c) \<Rightarrow> Inr (again, v, c, ds))" using at_line by (simp add: body_step_def chunk_ended_def)
  moreover obtain again v c where "chunk_line u b = Some (again, v, c)" "goes_on f (concat es) again [] v c"
    using line_advances [of u es b f z] at_line by auto
  ultimately show ?thesis using at_line
    by (intro exI [of _ again] exI [of _ v] exI [of _ c] exI [of _ "[]"]) simp
next
  case (in_chunk d es z)
  with chunk_advances [of u d es b f z ds] assms(2) show ?thesis by auto
next
  case (sized z)
  with sized_advances [of u body b f z ds] assms(2,3) show ?thesis by (auto simp: received_def)
qed

section \<open>All of a body\<close>

lemma carries_response: "carries u x body \<Longrightarrow> \<not> up_response u"
  by (auto elim: carries.cases)

lemma process_advances:
  assumes "carries u (b @ f) body" and "b \<noteq> []" and "\<not> received u"
  shows "\<exists>v c gs. process_request_body body_recorder u b ds = Inr (v, c, ds @ gs) \<and> advances f body gs v c \<and>
    (received v \<or> f \<noteq> [])"
  using assms
proof (induction "length b" arbitrary: u b body ds rule: less_induct)
  case less
  obtain again v c gs where st: "body_step body_recorder u b ds = Inr (again, v, c, ds @ gs)" "goes_on f body again gs v c"
    using step_advances [OF less.prems] by blast
  have resp: "\<not> up_response u" using less.prems(1) by (rule carries_response)
  show ?case
  proof (cases again)
    case False
    then show ?thesis using st resp by (subst process_request_body.simps) (auto simp: goes_on_def)
  next
    case True
    then have c: "c \<noteq> []" "\<not> received v" "advances f body gs v c" using st(2) by (auto simp: goes_on_def)
    obtain rest where rest: "carries v (c @ f) rest" "body = concat gs @ rest" "[] \<notin> set gs"
      using c by (auto simp: advances_def)
    have "body_step body_recorder u b ds = Inr (True, v, c, ds @ gs)" using st(1) True by simp
    then have "length c < length b" by (rule body_step_less)
    from less.hyps [OF this rest(1) c(1,2), of "ds @ gs"] obtain w d hs
      where w: "process_request_body body_recorder v c (ds @ gs) = Inr (w, d, (ds @ gs) @ hs)" "advances f rest hs w d"
        "received w \<or> f \<noteq> []" by blast
    have "process_request_body body_recorder u b ds = Inr (w, d, ds @ gs @ hs)"
      using st(1) True w(1) resp by (subst process_request_body.simps) simp
    moreover have "advances f body (gs @ hs) w d" using w(2) rest(2,3) by (auto simp: advances_def)
    ultimately show ?thesis using w(3) by blast
  qed
qed

lemma receive_all:
  assumes "carries u (b @ concat ps) body" and "\<not> received u" and "concat ps \<noteq> []"
  shows "\<exists>v c gs. receive_body body_recorder ps u b ds = Inr (v, c, ds @ gs) \<and> received v \<and> [] \<notin> set gs \<and> concat gs = body"
  using assms
proof (induction ps arbitrary: u b body ds)
  case (Cons p ps)
  have nr: "up_remaining u \<noteq> Some 0" using Cons.prems(2) by (simp add: received_def)
  show ?case
  proof (cases "b @ p = []")
    case True
    with Cons nr show ?thesis by simp
  next
    case False
    have "carries u ((b @ p) @ concat ps) body" using Cons.prems(1) by simp
    from process_advances [OF this False Cons.prems(2), of ds] obtain v c gs
      where v: "process_request_body body_recorder u (b @ p) ds = Inr (v, c, ds @ gs)" "advances (concat ps) body gs v c"
        "received v \<or> concat ps \<noteq> []" by blast
    have run: "receive_body body_recorder (p # ps) u b ds = receive_body body_recorder ps v c (ds @ gs)"
      using nr False v(1) by auto
    show ?thesis
    proof (cases "received v")
      case True
      then have "\<exists>d. receive_body body_recorder ps v c (ds @ gs) = Inr (v, d, ds @ gs)"
        by (cases ps) (auto simp: received_def)
      then show ?thesis using run True v(2) by (auto simp: advances_def)
    next
      case False
      then obtain rest where rest: "carries v (c @ concat ps) rest" "body = concat gs @ rest" "[] \<notin> set gs"
        using v(2) by (auto simp: advances_def)
      from Cons.IH [OF rest(1) False, of "ds @ gs"] v(3) False obtain w d hs
        where "receive_body body_recorder ps v c (ds @ gs) = Inr (w, d, (ds @ gs) @ hs)" "received w" "[] \<notin> set hs"
          "concat hs = rest" by blast
      then show ?thesis using run rest(2,3)
        by (intro exI [of _ w] exI [of _ d] exI [of _ "gs @ hs"]) simp
    qed
  qed
qed simp

section \<open>The programs as handlers\<close>

text \<open>
  What the loop asks of a handler: it takes all data of a call and does not refuse it. Then it is called for
  the pieces the recording handler gets.
\<close>

fun hand_over :: "'s body_handler \<Rightarrow> string list \<Rightarrow> 's \<Rightarrow> (c_error \<times> 's) + 's" where
  "hand_over h [] s = Inr s"
| "hand_over h (d # ds) s = (case h d s of Inl f \<Rightarrow> Inl f | Inr (r, left, t) \<Rightarrow> hand_over h ds t)"

lemma hand_over_append:
  "hand_over h (xs @ ys) s = (case hand_over h xs s of Inl f \<Rightarrow> Inl f | Inr t \<Rightarrow> hand_over h ys t)"
  by (induction xs arbitrary: s) (auto split: sum.split)

locale takes_all =
  fixes h :: "'s body_handler"
  assumes takes: "h d s = Inr (r, left, t) \<Longrightarrow> r \<noteq> MHD_NO \<and> left = 0"
begin

lemma give_taken:
  assumes "hand_over h [take n b] s = Inr t"
  shows "give_body h n retry u b s = Inr (retry,
     u\<lparr>up_offset := (if up_chunked u then up_offset u + n else up_offset u),
       up_remaining := map_option (\<lambda>r. nat ((int r - int n) mod 2 ^ 64)) (up_remaining u)\<rparr>,
     drop n b, t)"
proof -
  obtain r left where "h (take n b) s = Inr (r, left, t)" using assms by (auto split: sum.splits)
  with takes [OF this] show ?thesis by (simp add: give_body_def)
qed

lemma step_follows:
  assumes "body_step body_recorder u b ds = Inr (again, v, c, es)"
  shows "\<exists>gs. es = ds @ gs \<and> (\<forall>s t. hand_over h gs s = Inr t \<longrightarrow>
    body_step h u b s = Inr (again, v, c, t))"
proof -
  have give: "\<exists>gs. es = ds @ gs \<and> (\<forall>s t. hand_over h gs s = Inr t \<longrightarrow>
      give_body h n r w d s = Inr (again, v, c, t))"
    if "give_body body_recorder n r w d ds = Inr (again, v, c, es)" for n r w d
  proof -
    have e: "again = r" "c = drop n d" "es = ds @ [take n d]"
      "v = w\<lparr>up_offset := (if up_chunked w then up_offset w + n else up_offset w),
         up_remaining := map_option (\<lambda>r. nat ((int r - int n) mod 2 ^ 64)) (up_remaining w)\<rparr>"
      using that unfolding give_all by blast+
    show ?thesis unfolding e by (intro exI [of _ "[take n d]"] conjI allI impI refl give_taken)
  qed
  show ?thesis
  proof (cases "up_chunked u \<and> up_remaining u = None")
    case True
    with assms obtain w d where e: "chunk_ended u b = Some (w, d)"
      by (auto simp: body_step_def split: option.splits)
    show ?thesis
    proof (cases "up_offset w < up_size w")
      case less: True
      let ?n = "min (up_size w - up_offset w) (length d)"
      have step: "body_step h u b x = give_body h ?n (?n < length d) w d x" for h and x
        using True e less by (simp add: body_step_def Let_def)
      have rec: "body_step body_recorder u b ds = give_body body_recorder ?n (?n < length d) w d ds"
        using True e less by (simp add: body_step_def Let_def)
      show ?thesis unfolding step using give [OF assms [unfolded rec]] .
    next
      case False
      have step: "body_step h u b x =
          (case chunk_line w d of None \<Rightarrow> Inl (BadChunk, x) | Some (again, v, c) \<Rightarrow> Inr (again, v, c, x))" for h and x
        using True e False by (simp add: body_step_def)
      have "body_step body_recorder u b ds =
          (case chunk_line w d of None \<Rightarrow> Inl (BadChunk, ds) | Some (again, v, c) \<Rightarrow> Inr (again, v, c, ds))"
        using True e False by (simp add: body_step_def)
      with assms show ?thesis unfolding step by (intro exI [of _ "[]"]) (auto split: option.splits)
    qed
  next
    case False
    let ?n = "case up_remaining u of Some r \<Rightarrow> if r \<noteq> 0 \<and> r < length b then r else length b | None \<Rightarrow> length b"
    have step: "body_step h u b x = give_body h ?n False u b x" for h and x
      using False by (auto simp: body_step_def)
    have rec: "body_step body_recorder u b ds = give_body body_recorder ?n False u b ds"
      using False by (auto simp: body_step_def)
    show ?thesis unfolding step using give [OF assms [unfolded rec]] .
  qed
qed

lemma process_follows:
  assumes "process_request_body body_recorder u b ds = Inr (v, c, es)"
  shows "\<exists>gs. es = ds @ gs \<and> (\<forall>s t. hand_over h gs s = Inr t \<longrightarrow>
    process_request_body h u b s = Inr (v, c, t))"
  using assms
proof (induction "length b" arbitrary: u b ds rule: less_induct)
  case less
  show ?case
  proof (cases "up_response u")
    case True
    with less.prems show ?thesis by (auto simp: process_request_body.simps intro!: exI [of _ "[]"])
  next
    case False
    obtain again w d hs where st: "body_step body_recorder u b ds = Inr (again, w, d, hs)"
      using less.prems False by (subst (asm) process_request_body.simps) (auto split: sum.splits)
    obtain gs where gs: "hs = ds @ gs" "\<And>s t. hand_over h gs s = Inr t \<Longrightarrow>
        body_step h u b s = Inr (again, w, d, t)"
      using step_follows [OF st] by blast
    show ?thesis
    proof (cases again)
      case False
      then show ?thesis using less.prems st gs \<open>\<not> up_response u\<close>
        by (subst (asm) process_request_body.simps, intro exI [of _ gs]) (auto simp: process_request_body.simps)
    next
      case True
      then have run: "process_request_body body_recorder w d hs = Inr (v, c, es)"
        using less.prems st \<open>\<not> up_response u\<close> by (subst (asm) process_request_body.simps) simp
      have "body_step body_recorder u b ds = Inr (True, w, d, hs)" using st True by simp
      then have "length d < length b" by (rule body_step_less)
      from less.hyps [OF this run] obtain js where js: "es = hs @ js"
        "\<And>s t. hand_over h js s = Inr t \<Longrightarrow>
          process_request_body h w d s = Inr (v, c, t)" by blast
      show ?thesis
      proof (intro exI [of _ "gs @ js"] conjI allI impI)
        show "es = ds @ gs @ js" using js(1) gs(1) by simp
        fix s t
        assume "hand_over h (gs @ js) s = Inr t"
        then obtain q where "hand_over h gs s = Inr q" "hand_over h js q = Inr t"
          by (auto simp: hand_over_append split: sum.splits)
        with gs(2) js(2) show "process_request_body h u b s = Inr (v, c, t)"
          using True \<open>\<not> up_response u\<close> by (subst process_request_body.simps) simp
      qed
    qed
  qed
qed

lemma receive_follows:
  assumes "receive_body body_recorder ps u b ds = Inr (v, c, es)"
  shows "\<exists>gs. es = ds @ gs \<and> (\<forall>s t. hand_over h gs s = Inr t \<longrightarrow>
    receive_body h ps u b s = Inr (v, c, t))"
  using assms
proof (induction ps arbitrary: u b ds)
  case Nil
  then show ?case by (auto intro!: exI [of _ "[]"])
next
  case (Cons p ps)
  show ?case
  proof (cases "up_remaining u = Some 0 \<or> b @ p = []")
    case True
    with Cons.prems Cons.IH [of u b ds] show ?thesis by (auto intro!: exI [of _ "[]"] split: if_splits)
  next
    case False
    then obtain w d hs where st: "process_request_body body_recorder u (b @ p) ds = Inr (w, d, hs)"
      "receive_body body_recorder ps w d hs = Inr (v, c, es)"
      using Cons.prems by (auto split: sum.splits)
    obtain gs where gs: "hs = ds @ gs" "\<And>s t. hand_over h gs s = Inr t \<Longrightarrow>
        process_request_body h u (b @ p) s = Inr (w, d, t)"
      using process_follows [OF st(1)] by blast
    obtain js where js: "es = hs @ js" "\<And>s t. hand_over h js s = Inr t \<Longrightarrow>
        receive_body h ps w d s = Inr (v, c, t)"
      using Cons.IH [OF st(2)] by blast
    show ?thesis
    proof (intro exI [of _ "gs @ js"] conjI allI impI)
      show "es = ds @ gs @ js" using js(1) gs(1) by simp
      fix s t
      assume "hand_over h (gs @ js) s = Inr t"
      then obtain q where "hand_over h gs s = Inr q" "hand_over h js q = Inr t"
        by (auto simp: hand_over_append split: sum.splits)
      with gs(2) js(2) False show "receive_body h (p # ps) u b s = Inr (v, c, t)" by auto
    qed
  qed
qed

end

interpretation recorder_takes: takes_all body_recorder
  by unfold_locales (auto simp: body_recorder_def)

interpretation form_takes: takes_all "form_handler it" for it
  by unfold_locales (auto simp: form_handler_def split: sum.splits prod.splits)

lemma hand_over_form: "post_chunks it ds pp s = Inr (pp', t) \<Longrightarrow> hand_over (form_handler it) ds (pp, s) = Inr (pp', t)"
  by (induction ds arbitrary: pp s) (auto simp: form_handler_def split: sum.splits prod.splits)

section \<open>From the connection to the program\<close>

text \<open>A body on the wire: of a length given in the headers, or in chunks.\<close>

datatype wire = Sized string | Chunked "string list"

fun wire_body :: "wire \<Rightarrow> string" where
  "wire_body (Sized d) = d"
| "wire_body (Chunked ds) = concat ds"

fun wire_bytes :: "wire \<Rightarrow> string" where
  "wire_bytes (Sized d) = d"
| "wire_bytes (Chunked ds) = chunked_text ds"

fun wire_start :: "wire \<Rightarrow> upload" where
  "wire_start (Sized d) = upload_sized (length d)"
| "wire_start (Chunked ds) = upload_chunked"

fun wire_ok :: "wire \<Rightarrow> bool" where
  "wire_ok (Sized d) \<longleftrightarrow> d \<noteq> [] \<and> length d < 2 ^ 64"
| "wire_ok (Chunked ds) \<longleftrightarrow> list_all chunk_ok ds"

lemma wire_carries:
  assumes "wire_ok w"
  shows "carries (wire_start w) (wire_bytes w @ z) (wire_body w)" "\<not> received (wire_start w)" "wire_bytes w \<noteq> []"
proof (cases w)
  case (Sized d)
  with assms show "carries (wire_start w) (wire_bytes w @ z) (wire_body w)"
    by (auto simp: upload_sized_def intro!: carries.sized)
next
  case (Chunked ds)
  with assms show "carries (wire_start w) (wire_bytes w @ z) (wire_body w)"
    by (auto simp: upload_chunked_def intro!: carries.at_line)
qed (use assms in \<open>cases w; auto simp: received_def upload_sized_def upload_chunked_def chunked_text_def crlf_def\<close>)+

lemma wire_received:
  assumes "wire_ok w" and "concat pieces = wire_bytes w @ z"
  shows "\<exists>u b ds. receive_body body_recorder pieces (wire_start w) [] [] = Inr (u, b, ds) \<and> received u \<and>
    [] \<notin> set ds \<and> concat ds = wire_body w"
  using receive_all [of "wire_start w" "[]" pieces "wire_body w" "[]"] wire_carries [OF assms(1)] assms(2) by auto

end
