(* ===== verification/Mhd_Properties.thy ===== *)
theory Mhd_Properties
  imports Mhd_Wire Http_Properties
begin

text \<open>
  The properties of the form parser of libmicrohttpd and of the programs on top of it: forms arrive as they
  were written, in whatever chunks; what \<^verbatim>\<open>httpserver.c\<close> and the door opener make of the bytes of a form;
  and where the parser or its use goes wrong.
\<close>

section \<open>The parser\<close>

text \<open>
  C6. The parser implements the reference that reads a form one character at a time: when the reference
  accepts a body, or its first part, the calls made for it, in whatever chunks it arrives, deliver exactly
  the bytes of the reference with their keys and offsets, and the post processor is left in the state the
  reference is in.
\<close>

theorem parser_reference:
  assumes "form_run (m + 4) (InKey []) (concat chunks) = (b, xs)" and "b \<noteq> Broken"
  shows "\<exists>pp ds. post_chunks recorder chunks (create_post_processor m) [] = Inr (pp, ds) \<and>
    stands_for (m + 4) pp b \<and> bytes_of ds = xs"
  using chunks_reference [OF create_stands_for assms, of "[]"] by auto

theorem parser_reference_witness:
  "\<exists>pp ds. post_chunks recorder [''n'', ''=a+%'', ''4'', ''1''] (create_post_processor 512) [] = Inr (pp, ds) \<and>
     stands_for 516 pp (InValue ''n'' [] 3) \<and> bytes_of ds = [(''n'', 0, CHR ''a''), (''n'', 1, CHR '' ''), (''n'', 2, CHR ''A'')]"
proof -
  have "form_run (512 + 4) (InKey []) (concat [''n'', ''=a+%'', ''4'', ''1'']) =
      (InValue ''n'' [] 3, [(''n'', 0, CHR ''a''), (''n'', 1, CHR '' ''), (''n'', 2, CHR ''A'')])"
    by (simp add: decode_key_def unescape_plus_def cstr_def value_end_def newline_char_def plus_char_def is_hex_def
        is_digit_def byte_of_def hex_value_def char_of_eq_iff)
  from parser_reference [OF this] show ?thesis by simp
qed

text \<open>
  C12. \<^verbatim>\<open>process_request_body\<close> delivers a body: whether it has a known length or comes in chunked transfer
  coding, in whatever pieces its bytes arrive and whatever follows them, the application is called with
  pieces that make up exactly the body, never with an empty one, and the end of the body is found. Chunks
  have fewer than 16^5 bytes (\<open>wire_ok\<close>); the code refuses longer ones.
\<close>

theorem body_delivered:
  assumes "wire_ok w" and "concat pieces = wire_bytes w @ z"
  shows "\<exists>u b ds. receive_body body_recorder pieces (wire_start w) [] [] = Inr (u, b, ds) \<and> up_remaining u = Some 0 \<and>
    [] \<notin> set ds \<and> concat ds = wire_body w"
  using wire_received [OF assms] by (simp add: received_def)

theorem body_delivered_witness:
  "\<exists>u b ds. receive_body body_recorder [''2'' @ crlf @ ''op'' @ [CHR 0x0D], [CHR 0x0A] @ ''4'', crlf @ ''e'', ''n=1'' @ crlf @ ''0'' @ crlf @ crlf]
     upload_chunked [] [] = Inr (u, b, ds) \<and> up_remaining u = Some 0 \<and> [] \<notin> set ds \<and> concat ds = ''open=1''"
proof -
  let ?w = "Chunked [''op'', ''en=1'']"
  have w: "wire_ok ?w" by (simp add: chunk_ok_def)
  have c: "concat [''2'' @ crlf @ ''op'' @ [CHR 0x0D], [CHR 0x0A] @ ''4'', crlf @ ''e'', ''n=1'' @ crlf @ ''0'' @ crlf @ crlf] =
      wire_bytes ?w @ []"
    by (simp add: chunked_text_def chunk_text_def hex_nat.simps hex_digit_def crlf_def)
  have b: "wire_body ?w = ''open=1''" by simp
  from body_delivered [OF w c] show ?thesis unfolding b wire_start.simps .
qed

text \<open>What the chunks of a form deliver, and the destruction of the post processor.\<close>

lemma form_chunks:
  assumes "list_all (field_ok (m + 4)) fs" and "fs \<noteq> []" and "concat chunks = form_body fs"
  shows "\<exists>pp ds es. post_chunks recorder chunks (create_post_processor m) [] = Inr (pp, ds) \<and>
    bytes_of ds = pair_bytes fs \<and>
    destroy_post_processor recorder pp ds = Inr (MHD_YES, es) \<and> bytes_of es = pair_bytes fs"
proof -
  have run: "form_run (m + 4) (InKey []) (concat chunks) =
      (InValue (fst (last fs)) [] (length (snd (last fs))), pair_bytes fs)"
    unfolding assms(3) using assms(1,2) by (rule run_body)
  obtain pp ds where p: "post_chunks recorder chunks (create_post_processor m) [] = Inr (pp, [] @ ds)"
      "stands_for (m + 4) pp (InValue (fst (last fs)) [] (length (snd (last fs))))" "bytes_of ds = pair_bytes fs"
    using chunks_reference [OF create_stands_for run, of "[]"] by blast
  then show ?thesis
    by (intro exI [of _ pp] exI [of _ ds] exI [of _ "ds @ [(fst (last fs), [], length (snd (last fs)))]"])
      (simp add: destroy_in_value [OF p(2)] recorder_def)
qed

text \<open>
  C8. A form comes back, from the bytes of the connection on: whatever keys without zero bytes and whatever
  values a browser encodes, if no key fills the buffer, and whether the body has a known length or is sent
  in chunks, in whatever pieces it arrives: the bytes the post processor delivers are those of the values
  in order, each with its key and its offset; and its destruction succeeds and adds none. Chunks have fewer
  than 16^5 bytes, as in C12.
\<close>

theorem form_delivered:
  assumes "list_all (field_ok (m + 4)) fs" and "fs \<noteq> []" and "wire_ok w" and "wire_body w = form_body fs"
    and "concat pieces = wire_bytes w @ z"
  shows "\<exists>u b pp ds es. receive_body (form_handler recorder) pieces (wire_start w) [] (create_post_processor m, []) =
      Inr (u, b, (pp, ds)) \<and> up_remaining u = Some 0 \<and> bytes_of ds = pair_bytes fs \<and>
    destroy_post_processor recorder pp ds = Inr (MHD_YES, es) \<and> bytes_of es = pair_bytes fs"
proof -
  obtain u b cs where cs: "receive_body body_recorder pieces (wire_start w) [] [] = Inr (u, b, cs)" "received u"
      "concat cs = wire_body w"
    using wire_received [OF assms(3,5)] by blast
  obtain pp ds es where ds: "post_chunks recorder cs (create_post_processor m) [] = Inr (pp, ds)"
      "bytes_of ds = pair_bytes fs" "destroy_post_processor recorder pp ds = Inr (MHD_YES, es)" "bytes_of es = pair_bytes fs"
    using form_chunks [OF assms(1,2), of cs] cs(3) assms(4) by auto
  have "receive_body (form_handler recorder) pieces (wire_start w) [] (create_post_processor m, []) = Inr (u, b, (pp, ds))"
    using form_takes.receive_follows [OF cs(1), of recorder] hand_over_form [OF ds(1)] by auto
  with cs(2) ds show ?thesis by (auto simp: received_def)
qed

theorem form_delivered_witness:
  "\<exists>u b pp ds. receive_body (form_handler recorder) [''7'' @ crlf @ ''a=1%2'', ''62'' @ crlf @ ''8'' @ crlf @ ''&b+'', ''c=%3D'' @ crlf @ ''0'' @ crlf @ crlf]
     upload_chunked [] (create_post_processor 512, []) = Inr (u, b, (pp, ds)) \<and> up_remaining u = Some 0 \<and>
     bytes_of ds = [(''a'', 0, CHR ''1''), (''a'', 1, CHR ''&''), (''a'', 2, CHR ''2''), (''b c'', 0, CHR ''='')]"
proof -
  let ?fs = "[(''a'', ''1&2''), (''b c'', ''='')] :: (string \<times> string) list" and ?w = "Chunked [''a=1%262'', ''&b+c=%3D'']"
  have b: "wire_body ?w = form_body ?fs"
    by (simp add: form_field_def url_char_def unreserved_def hex_digit_def Let_def)
  have f: "list_all (field_ok (512 + 4)) ?fs"
    by (simp add: field_ok_def url_char_def unreserved_def Let_def)
  have w: "wire_ok ?w" by (simp add: chunk_ok_def)
  have c: "concat [''7'' @ crlf @ ''a=1%2'', ''62'' @ crlf @ ''8'' @ crlf @ ''&b+'', ''c=%3D'' @ crlf @ ''0'' @ crlf @ crlf] =
      wire_bytes ?w @ []"
    by (simp add: chunked_text_def chunk_text_def hex_nat.simps hex_digit_def crlf_def)
  have p: "pair_bytes ?fs = [(''a'', 0, CHR ''1''), (''a'', 1, CHR ''&''), (''a'', 2, CHR ''2''), (''b c'', 0, CHR ''='')]"
    by (simp add: pair_bytes_def numeral_2_eq_2)
  from form_delivered [OF f _ w b c] show ?thesis unfolding p wire_start.simps by blast
qed

section \<open>httpserver.c\<close>

text \<open>The forms of two reports, as fields.\<close>

definition register_fields :: "int \<Rightarrow> int \<Rightarrow> int \<Rightarrow> (string \<times> string) list" where
  "register_fields d ty ix =
     [(''type'', ''register_request''), (''dev_id'', dec d), (''dev_type'', dec ty), (''idxs'', dec ix)]"

definition humidity_fields :: "int \<Rightarrow> int \<Rightarrow> (string \<times> string) list" where
  "humidity_fields d v = [(''type'', ''humidity_up''), (''dev_id'', dec d), (''value'', dec v)]"

lemma dec_text:
  assumes "0 \<le> i"
  shows "cstr (dec i) = dec i"
proof -
  have "list_all is_digit (dec i)" using assms dec_nat_digits by (simp add: dec_def)
  then have "NUL \<notin> set (dec i)" by (auto simp: list_all_iff is_digit_def)
  then show ?thesis by (rule cstr_no_zero)
qed

lemma short_fieldI:
  assumes "NUL \<notin> set k" "3 * length k \<le> n" "v \<noteq> []" "3 * length v \<le> 512"
  shows "short_field n (k, v)"
  using assms length_url_encode [of k] length_url_encode [of v] by (auto simp: short_field_def field_ok_def XBUF_SIZE_def)

lemma report_fields_short:
  assumes "0 \<le> d" "d < 65536" "0 \<le> x" "x < 65536" "0 \<le> y" "y < 65536"
  shows "list_all (short_field 516) (register_fields d x y)" "list_all (short_field 516) (humidity_fields d x)"
proof -
  have "short_field 516 (''dev_id'', dec d)" "short_field 516 (''dev_type'', dec x)" "short_field 516 (''value'', dec x)"
    "short_field 516 (''idxs'', dec y)"
    using length_dec_address [OF assms(1,2)] length_dec_address [OF assms(3,4)] length_dec_address [OF assms(5,6)]
    by (intro short_fieldI; simp add: dec_not_Nil)+
  then show "list_all (short_field 516) (register_fields d x y)" "list_all (short_field 516) (humidity_fields d x)"
    using short_fieldI [of "''type''" 516 "''register_request''"] short_fieldI [of "''type''" 516 "''humidity_up''"]
    by (simp_all add: register_fields_def humidity_fields_def)
qed

lemma report_items:
  assumes "0 \<le> d" "d < 65536" "0 \<le> x" "x < 65536" "0 \<le> y" "y < 65536"
  shows "form_items (create_post_processor 512) (form_body (register_fields d x y)) = register_items d x y"
    "form_items (create_post_processor 512) (form_body (humidity_fields d x)) = humidity_items d x"
  using items_short_body [of 512 "register_fields d x y"] items_short_body [of 512 "humidity_fields d x"]
    report_fields_short [OF assms] dec_text [OF assms(1)] dec_text [OF assms(3)] dec_text [OF assms(5)]
  by (simp_all add: register_fields_def humidity_fields_def register_items_def humidity_items_def cstr_def)

text \<open>
  C35. A registration posted as a form whose body is handed over in one call, from its bytes on: the post processor takes the address,
  type and index out of it, the new device is entered behind the others, the search finds it, and the
  answer queued for the connection is the text that confirms it.
\<close>

theorem http_register_form:
  assumes "hs_inv s" and "pc_processor c" and "we_create env"
    and "0 \<le> d" "d < 65536" "0 < ty" "ty < 256" "0 < ix" "ix < 256"
    and "d \<notin> set (hs_ids s)" and "unat (hs_devsize s) < 200" and "body = form_body (register_fields d ty ix)"
  shows "\<exists>u t. answer_to_connection_http env ''POST'' (length body) (form_items (create_post_processor 512) body) (Some c) s =
      Inr (MHD_YES, Some c, u) \<and>
    answer_to_connection_http env ''POST'' 0 [] (Some c) u = Inr (we_queue env, Some c, t) \<and>
    hs_ids t = hs_ids s @ [d] \<and> find_dev_http d t = int (unat (hs_devsize s)) \<and>
    h_type (hs_device t ! unat (hs_devsize s)) = word_of_int ty \<and>
    hs_str22 t = jfields [(''devid'', dec d), (''type'', ''register_ok'')] \<and>
    hs_queue t = hs_queue s @ [InStr22 (length (hs_str22 t))] \<and> hs_idx t = next_idx (hs_idx s)"
proof -
  have items: "form_items (create_post_processor 512) body = register_items d ty ix"
    using assms(4-9) unfolding assms(12) by (intro report_items) simp_all
  have "length body \<noteq> 0" unfolding assms(12) by (simp add: register_fields_def form_field_def)
  from http_register [OF assms(1,2) this assms(3-11)] show ?thesis unfolding items .
qed

theorem http_register_form_witness:
  "\<exists>u t. answer_to_connection_http web_ok ''POST'' (length (form_body (register_fields 4660 6 1)))
       (form_items (create_post_processor 512) (form_body (register_fields 4660 6 1))) (Some hs_post_con) hs_begun =
       Inr (MHD_YES, Some hs_post_con, u) \<and>
     answer_to_connection_http web_ok ''POST'' 0 [] (Some hs_post_con) u = Inr (MHD_YES, Some hs_post_con, t) \<and>
     hs_ids t = [4660]"
  using http_register_form [OF hs_begun_inv, of hs_post_con web_ok 4660 6 1, OF _ _ _ _ _ _ _ _ _ _ refl]
  by (fastforce simp: hs_begun_values)

text \<open>
  C36. A humidity posted as a form, its body handed over in one call, from its bytes on, switches the humidifier with hysteresis:
  above 80 percent the answer switches it on, below 60 percent it switches it off if it was switched on
  before, and in between the answer is empty. The command goes to address 0, whatever device the report
  came from.
\<close>

theorem http_humidity_form:
  assumes "hs_inv s" and "pc_processor c" and "we_create env"
    and "0 < d" "d < 65536" "0 < v" "v < 65536" and "body = form_body (humidity_fields d v)"
  shows "\<exists>u t. answer_to_connection_http env ''POST'' (length body) (form_items (create_post_processor 512) body) (Some c) s =
      Inr (MHD_YES, Some c, u) \<and>
    answer_to_connection_http env ''POST'' 0 [] (Some c) u = Inr (we_queue env, Some c, t) \<and>
    (hs_str22 t, hs_temp t = 0) = humidity_answer v (hs_temp s = 0) \<and>
    hs_queue t = hs_queue s @ [InStr22 (length (hs_str22 t))]"
proof -
  have items: "form_items (create_post_processor 512) body = humidity_items d v"
    using assms(4-7) report_items(2) [of d v 0] unfolding assms(8) by simp
  have "length body \<noteq> 0" unfolding assms(8) by (simp add: humidity_fields_def form_field_def)
  from http_humidity [OF assms(1,2) this assms(3-7)] show ?thesis unfolding items .
qed

theorem http_humidity_form_witness:
  "\<exists>u t. answer_to_connection_http web_ok ''POST'' (length (form_body (humidity_fields 4660 8500)))
       (form_items (create_post_processor 512) (form_body (humidity_fields 4660 8500))) (Some hs_post_con) hs_begun =
       Inr (MHD_YES, Some hs_post_con, u) \<and>
     answer_to_connection_http web_ok ''POST'' 0 [] (Some hs_post_con) u = Inr (MHD_YES, Some hs_post_con, t) \<and>
     (hs_str22 t, hs_temp t = 0) = (control_down 0 ''1'' ''1'' ''1'', True)"
proof -
  have "humidity_answer 8500 (hs_temp hs_begun = 0) = (control_down 0 ''1'' ''1'' ''1'', True)"
    by (simp add: humidity_answer_def)
  then show ?thesis
    using http_humidity_form [OF hs_begun_inv, of hs_post_con web_ok 4660 8500, OF _ _ _ _ _ _ refl]
    by (fastforce simp: hs_begun_values)
qed

text \<open>The fields of a form as \<^verbatim>\<open>iterate_post\<close> gets them.\<close>

definition form_calls :: "(string \<times> string) list \<Rightarrow> item list" where
  "form_calls fs = map (\<lambda>(k, v). (k, cstr v, length v)) fs"

lemma post_until_http: "list_all item_ok xs \<Longrightarrow> post_until iterate_post_http xs s = Inr (ok, t) \<Longrightarrow> ok"
  by (induction xs arbitrary: s) (auto simp: iterate_post_http_def item_ok_def split: sum.splits)

text \<open>A form with short fields that arrives in one chunk.\<close>

lemma one_chunk:
  assumes "list_all (short_field (m + 4)) fs" and "fs \<noteq> []" and "post_until it (form_calls fs) s = Inr (True, t)"
  shows "\<exists>pp. post_chunks (of_items it) [form_body fs] (create_post_processor m) s = Inr (pp, t) \<and>
    stands_for (m + 4) pp (InValue (fst (last fs)) [] (length (snd (last fs))))"
proof -
  obtain pp where pp: "urlencoded recorder (form_body fs) (create_post_processor m) [] =
      Inr (MHD_YES, pp, [] @ map (\<lambda>(k, v). (k, v, 0)) fs)"
    "stands_for (m + 4) pp (InValue (fst (last fs)) [] (length (snd (last fs))))"
    using run_short_body [OF create_stands_for assms(1,2), of "[]"] by blast
  have items: "map item_of (map (\<lambda>(k, v). (k, v, 0)) fs) = form_calls fs"
    by (simp add: form_calls_def item_of_def split_def)
  have "length (pp_xbuf (create_post_processor m)) \<le> 8" by (simp add: create_post_processor_def)
  from chunks_items [OF this, of "[form_body fs]" "[]" it s] pp(1)
  have "same_calls it (form_calls fs) pp s (post_chunks (of_items it) [form_body fs] (create_post_processor m) s)"
    by (auto simp: items [symmetric])
  with assms(3) pp(2) show ?thesis by (auto simp: same_calls_def)
qed

lemma form_body_append: "fs \<noteq> [] \<Longrightarrow> gs \<noteq> [] \<Longrightarrow> form_body (fs @ gs) = form_body fs @ CHR ''&'' # form_body gs"
proof (induction fs rule: form_body.induct)
  case (2 f)
  then show ?case by (cases gs) simp_all
qed simp_all

text \<open>A chunk that begins with the end of a value makes a call without data.\<close>

lemma value_ends_first:
  assumes st: "stands_for n pp (InValue k [] off)" and no: "it k [] off s = Inr (MHD_NO, t)"
  shows "\<exists>q. post_chunks it ((CHR ''&'' # rest) # chunks) pp s = Inr (q, t) \<and> pp_state q = PP_Error"
proof -
  have q: "pp_state pp = PP_ProcessValue" "pp_xbuf pp = []" "cstr (pp_buf pp) = k" "pp_value_offset pp = off"
    using st by auto
  have np: "next_piece (pp_xbuf pp) (CHR ''&'' # rest) = ([], [], CHR ''&'' # rest, True)"
    by (simp add: q next_piece_def amper_len_def XBUF_SIZE_def value_end_def cut_escape_def)
  have "unescaped [] = []" by (simp add: unescaped_def cstr_def unescape_plus_def)
  then have "urlencoded it (CHR ''&'' # rest) pp s = Inr (MHD_NO, pp\<lparr>pp_xbuf := [], pp_state := PP_Error\<rparr>, t)"
    using urlencoded_value [OF _ q(1) _ np, of it s] no by (simp add: q)
  then show ?thesis by (simp add: error_chunks)
qed

text \<open>What such a form leaves in the entry of a post.\<close>

lemma http_takes_form:
  assumes s: "hs_inv s" and fs: "fs \<noteq> []" "list_all (short_field 516) fs" "list_all item_ok (form_calls fs)"
    and i: "i = unat (hs_idx s)"
  shows "\<exists>p t. post_chunks (of_items iterate_post_http) [form_body fs] (create_post_processor 512) s = Inr (p, t) \<and>
    hs_post t ! i = entry_of (form_calls fs) (hs_post (previous_cleared s) ! i) \<and>
    stands_for 516 p (InValue (fst (last fs)) [] (length (snd (last fs))))"
proof -
  define t where "t = items_set (form_calls fs) (previous_cleared s)"
  have "form_calls fs \<noteq> []" using fs(1) by (simp add: form_calls_def)
  then have "post_process iterate_post_http (form_calls fs) s = Inr t"
    using post_items(1) [OF s fs(3)] by (simp add: t_def)
  from post_process_Inr [OF this] obtain ok
    where until: "post_until iterate_post_http (form_calls fs) s = Inr (ok, t)" by auto
  then have "post_until iterate_post_http (form_calls fs) s = Inr (True, t)"
    using post_until_http [OF fs(3) until] by simp
  from one_chunk [of 512, OF _ fs(1) this] fs(2)
  obtain p where p: "post_chunks (of_items iterate_post_http) [form_body fs] (create_post_processor 512) s = Inr (p, t)"
    "stands_for 516 p (InValue (fst (last fs)) [] (length (snd (last fs))))" by auto
  have "i < length (hs_post (previous_cleared s))"
    using previous_cleared_inv [OF s] i by (auto simp: hs_inv_def previous_cleared_idx)
  then have "hs_post t ! i = entry_of (form_calls fs) (hs_post (previous_cleared s) ! i)"
    by (simp add: t_def items_set_eq previous_cleared_idx i)
  with p show ?thesis by blast
qed

lemma two_chunks:
  "post_chunks it [a, b] pp x = (case post_chunks it [a] pp x of Inl f \<Rightarrow> Inl f | Inr (q, y) \<Rightarrow> post_chunks it [b] q y)"
  by (simp split: sum.split prod.split)

text \<open>
  C30. Where the body of a post is cut decides what \<^verbatim>\<open>httpserver.c\<close> understands, here for forms of
  short fields that are not empty. In one chunk, all fields of a form are set in the entry. When a chunk ends right before an ampersand, the post processor ends the
  value with a call of size 0, \<^verbatim>\<open>iterate_post\<close> refuses it, and the post processor takes nothing any more: of
  the same form only the fields before the cut are set.
\<close>

theorem http_chunk_boundary:
  assumes "hs_inv s" and "fs \<noteq> []" and "gs \<noteq> []" and "list_all (short_field 516) (fs @ gs)"
    and "list_all item_ok (form_calls (fs @ gs))"
    and "i = unat (hs_idx s)" and "e = hs_post (previous_cleared s) ! i"
  shows "\<exists>p q t u. form_body (fs @ gs) = form_body fs @ CHR ''&'' # form_body gs \<and>
    post_chunks (of_items iterate_post_http) [form_body fs @ CHR ''&'' # form_body gs] (create_post_processor 512) s = Inr (p, t) \<and>
    post_chunks (of_items iterate_post_http) [form_body fs, CHR ''&'' # form_body gs] (create_post_processor 512) s = Inr (q, u) \<and>
    hs_post t ! i = entry_of (form_calls (fs @ gs)) e \<and>
    hs_post u ! i = entry_of (form_calls fs) e \<and> pp_state q = PP_Error"
proof -
  have body: "form_body (fs @ gs) = form_body fs @ CHR ''&'' # form_body gs" using assms(2,3) by (rule form_body_append)
  obtain p t where all: "post_chunks (of_items iterate_post_http) [form_body (fs @ gs)] (create_post_processor 512) s = Inr (p, t)"
    "hs_post t ! i = entry_of (form_calls (fs @ gs)) e"
    using http_takes_form [OF assms(1) _ assms(4,5,6)] assms(2,7) by auto
  have fs: "list_all (short_field 516) fs" "list_all item_ok (form_calls fs)"
    using assms(4,5) by (simp_all add: form_calls_def)
  obtain p' u where first: "post_chunks (of_items iterate_post_http) [form_body fs] (create_post_processor 512) s = Inr (p', u)"
    "hs_post u ! i = entry_of (form_calls fs) e" "stands_for 516 p' (InValue (fst (last fs)) [] (length (snd (last fs))))"
    using http_takes_form [OF assms(1,2) fs assms(6)] assms(7) by blast
  have "of_items iterate_post_http k [] off u = Inr (MHD_NO, u)" for k off
    by (simp add: of_items_def item_of_def iterate_post_http_def)
  from value_ends_first [where it = "of_items iterate_post_http", OF first(3) this, of "form_body gs" "[]"] obtain q
    where q: "post_chunks (of_items iterate_post_http) [CHR ''&'' # form_body gs] p' u = Inr (q, u)" "pp_state q = PP_Error" by blast
  have "post_chunks (of_items iterate_post_http) [form_body fs, CHR ''&'' # form_body gs] (create_post_processor 512) s = Inr (q, u)"
    unfolding two_chunks [of _ "form_body fs"] first(1) using q(1) by simp
  with all first(2) q(2) body show ?thesis by metis
qed

theorem http_chunk_boundary_witness:
  "\<exists>p q t u. post_chunks (of_items iterate_post_http) [''type=ask_state&dev_id=4660''] (create_post_processor 512) hs_begun = Inr (p, t) \<and>
     post_chunks (of_items iterate_post_http) [''type=ask_state'', ''&dev_id=4660''] (create_post_processor 512) hs_begun = Inr (q, u) \<and>
     p_id (hs_post t ! 0) = 4660 \<and> p_id (hs_post u ! 0) = 0"
proof -
  let ?fs = "[(''type'', ''ask_state'')] :: (string \<times> string) list" and ?gs = "[(''dev_id'', ''4660'')] :: (string \<times> string) list"
  have short: "list_all (short_field 516) (?fs @ ?gs)"
    by (simp add: short_field_def field_ok_def url_char_def unreserved_def XBUF_SIZE_def)
  have ok: "list_all item_ok (form_calls (?fs @ ?gs))" by (simp add: form_calls_def item_ok_def cstr_def)
  have e: "hs_post (previous_cleared hs_begun) ! 0 = no_post\<lparr>p_action := 100\<rparr>"
    by (simp add: previous_cleared_def hs_begun_def hs_initial_def)
  have i: "0 = unat (hs_idx hs_begun)" by (simp add: hs_begun_values)
  have bodies: "form_body ?fs = ''type=ask_state''" "form_body ?gs = ''dev_id=4660''"
    by (simp_all add: form_field_def url_char_def unreserved_def)
  from http_chunk_boundary [OF hs_begun_inv _ _ short ok i refl] obtain p q t u where
    "post_chunks (of_items iterate_post_http) [''type=ask_state&dev_id=4660''] (create_post_processor 512) hs_begun = Inr (p, t)"
    "post_chunks (of_items iterate_post_http) [''type=ask_state'', ''&dev_id=4660''] (create_post_processor 512) hs_begun = Inr (q, u)"
    "hs_post t ! 0 = entry_of (form_calls (?fs @ ?gs)) (no_post\<lparr>p_action := 100\<rparr>)"
    "hs_post u ! 0 = entry_of (form_calls ?fs) (no_post\<lparr>p_action := 100\<rparr>)"
    unfolding bodies e by auto
  moreover have "dec 4660 = ''4660''" by (simp add: dec_def dec_nat.simps digit_char_def char_of_eq_iff)
  then have "atoi ''4660'' = 4660" using atoi_dec [of 4660] by simp
  ultimately show ?thesis
    by (intro exI [of _ p] exI [of _ q] exI [of _ t] exI [of _ u])
      (simp add: entry_of_def form_calls_def with_field_def cstr_def no_post_def)
qed

section \<open>A percent sign at the end of a value\<close>

lemma coded_escaped:
  assumes "is_hex a" and "is_hex b"
  shows "coded (CHR ''%'' # a # b # url_encode w) (byte_of a b # w)"
proof -
  have "coded ([] @ [CHR ''%'', a, b]) ([] @ [byte_of a b])" using coded.Nil assms by (rule coded.escape)
  then have "coded ([CHR ''%'', a, b] @ url_encode w) ([byte_of a b] @ w)" by (intro coded_append url_encode_coded) simp
  then show ?thesis by simp
qed

text \<open>
  C17. A percent sign at the end of a value is kept in \<^verbatim>\<open>pp->xbuf\<close> as the beginning of an escape sequence and
  is not dropped when the value ends: it is put before the next value, of another key. When that value
  begins with two hexadecimal digits, its field is delivered with one byte in place of them.
\<close>

theorem leaked_percent:
  assumes "field_ok (m + 4) (k, v)" and "field_ok (m + 4) (l, w)" and "is_hex a" and "is_hex b"
    and "length (url_encode v) < 512" and "length (url_encode w) < 509"
  shows "\<exists>pp. urlencoded recorder (form_field (k, v) @ ''%&'' @ url_encode l @ CHR ''='' # a # b # url_encode w)
      (create_post_processor m) [] = Inr (MHD_YES, pp, [(k, v, 0), (l, byte_of a b # w, 0)])"
proof -
  let ?n = "m + 4" and ?u = "url_encode v" and ?x = "a # b # url_encode w"
  let ?rest = "CHR ''&'' # url_encode l @ CHR ''='' # ?x"
  have ini: "stands_for ?n ((create_post_processor m)\<lparr>pp_xbuf := []\<rparr>) (InKey [])"
    using create_stands_for [of m] by (simp add: sized_def)
  have pct: "pending ''%''" "pending []" by (simp_all add: pending_def)
  have noend: "\<forall>c \<in> set (?u @ ''%''). \<not> value_end c" using url_encode_chars by (auto simp: value_end_def newline_char_def)
  \<comment> \<open>the first field\<close>
  obtain q where q: "stands_for ?n (q\<lparr>pp_xbuf := []\<rparr>) (InValue k [] 0)" "pp_xbuf q = []"
    and 1: "urlencoded recorder (url_encode k @ CHR ''='' # ?u @ CHR ''%'' # ?rest) (create_post_processor m) [] =
        urlencoded recorder (?u @ CHR ''%'' # ?rest) q []"
    using key_read [OF ini assms(1), of recorder "?u @ CHR ''%'' # ?rest" "[]"] by (auto simp: create_post_processor_def)
  have qv: "pp_state q = PP_ProcessValue" "length (pp_xbuf q) \<le> 8" "cstr (pp_buf q) = k" "pp_value_offset q = 0"
      "pp_buffer_pos q = 0" "sized ?n q"
    using q by (auto simp: sized_def)
  have "amper_len (?u @ CHR ''%'' # ?rest) = length ?u + 1"
    using amper_len_text [of "?u @ ''%''" ?rest] noend assms(5) by (simp add: value_end_def XBUF_SIZE_def)
  then have np: "next_piece (pp_xbuf q) (?u @ CHR ''%'' # ?rest) = (?u, ''%'', ?rest, True)"
    using assms(5) coded_cut [OF url_encode_coded pct(1), of v]
    by (simp add: q(2) next_piece_def XBUF_SIZE_def value_end_def nth_append)
  define p where "p = (piece_taken ?u ''%'' q)\<lparr>pp_state := PP_Init\<rparr>"
  have uv: "unescaped ?u = v" using url_encode_coded by (rule coded_unescaped)
  have 2: "urlencoded recorder (?u @ CHR ''%'' # ?rest) q [] = urlencoded recorder (url_encode l @ CHR ''='' # ?x) p [(k, v, 0)]"
    using urlencoded_value [OF _ qv(1,2) np, of recorder "[]"]
    by (simp add: recorder_def qv uv p_def newline_char_def)
  \<comment> \<open>the second field\<close>
  have p: "stands_for ?n (p\<lparr>pp_xbuf := []\<rparr>) (InKey [])" "pp_xbuf p = ''%''"
    using qv by (simp_all add: p_def piece_taken_def sized_def)
  obtain r where r: "stands_for ?n (r\<lparr>pp_xbuf := []\<rparr>) (InValue l [] 0)" "pp_xbuf r = ''%''"
    and 3: "urlencoded recorder (url_encode l @ CHR ''='' # ?x) p [(k, v, 0)] = urlencoded recorder ?x r [(k, v, 0)]"
    using key_read [OF p(1) assms(2), of recorder ?x "[(k, v, 0)]"] p(2) by auto
  have rv: "pp_state r = PP_ProcessValue" "length (pp_xbuf r) \<le> 8" "cstr (pp_buf r) = l" "pp_value_offset r = 0"
    using r by auto
  have xend: "\<forall>c \<in> set ?x. \<not> value_end c" using url_encode_chars hex_plain assms(3,4) by auto
  have cx: "coded (CHR ''%'' # ?x) (byte_of a b # w)" using assms(3,4) by (rule coded_escaped)
  have "amper_len ?x = length ?x" using amper_len_text [of ?x "[]"] xend assms(6) by (simp add: XBUF_SIZE_def)
  then have np': "next_piece (pp_xbuf r) ?x = (CHR ''%'' # ?x, [], [], False)"
    using assms(6) coded_cut [OF cx pct(2)] by (simp add: r(2) next_piece_def XBUF_SIZE_def)
  have 4: "urlencoded recorder ?x r [(k, v, 0)] =
      Inr (MHD_YES, piece_taken (CHR ''%'' # ?x) [] r, [(k, v, 0), (l, byte_of a b # w, 0)])"
    using urlencoded_value [OF _ rv(1,2) np', of recorder "[(k, v, 0)]"]
    by (simp add: recorder_def rv coded_unescaped [OF cx] urlencoded_stops)
  show ?thesis using 1 2 3 4 by (intro exI [of _ "piece_taken (CHR ''%'' # ?x) [] r"]) (simp add: form_field_def)
qed

theorem leaked_percent_witness:
  "\<exists>pp. urlencoded recorder ''type=x%&dev_id=4660'' (create_post_processor 512) [] =
     Inr (MHD_YES, pp, [(''type'', ''x'', 0), (''dev_id'', ''F60'', 0)])"
proof -
  have "byte_of CHR ''4'' CHR ''6'' = CHR ''F''" by (simp add: byte_of_def hex_value_def is_digit_def char_of_eq_iff)
  moreover have "field_ok (512 + 4) (''type'', ''x'')" "field_ok (512 + 4) (''dev_id'', ''60'')"
    by (simp_all add: field_ok_def url_char_def unreserved_def)
  from leaked_percent [OF this, of "CHR ''4''" "CHR ''6''"]
  have "\<exists>pp. urlencoded recorder (form_field (''type'', ''x'') @ ''%&'' @ url_encode ''dev_id'' @ CHR ''='' # CHR ''4'' # CHR ''6'' # url_encode ''60'')
      (create_post_processor 512) [] = Inr (MHD_YES, pp, [(''type'', ''x'', 0), (''dev_id'', byte_of CHR ''4'' CHR ''6'' # ''60'', 0)])"
    by (simp add: is_hex_def is_digit_def url_char_def unreserved_def)
  ultimately show ?thesis by (simp add: form_field_def url_char_def unreserved_def)
qed

end
