(* ===== verification/Tools.thy ===== *)
theory Tools
  imports Web_Common
begin

text \<open>
  The small programs of the repository: \<^verbatim>\<open>reset.c\<close> and \<^verbatim>\<open>join.c\<close>, which drive pins of the Zigbee module,
  \<^verbatim>\<open>fileserver.c\<close>, which serves the log of the gateway, \<^verbatim>\<open>logging.c\<close>, which prints requests, and
  \<^verbatim>\<open>httpservertest.c\<close>, a test server.
\<close>

section \<open>Pins\<close>

text \<open>\<^verbatim>\<open>None\<close> is the \<^verbatim>\<open>return 1\<close> without a working \<^verbatim>\<open>wiringPi\<close>.\<close>

definition reset_main :: "bool \<Rightarrow> event list option" where
  "reset_main wiringPi_ok =
     (if \<not> wiringPi_ok then None
      else Some
        ([PinOutput 22, PinOutput 26, PinWrite 22 True, USleep 200000, PinWrite 22 False, USleep 200000] @
         concat (replicate 6 [PinWrite 26 True, USleep 200000, PinWrite 26 False, USleep 200000]) @
         [PinWrite 22 True]))"

definition join_start :: "bool \<Rightarrow> event list option" where
  "join_start wiringPi_ok = (if \<not> wiringPi_ok then None else Some [PinOutput 22])"

definition join_round :: "event list \<Rightarrow> event list" where
  "join_round es = es @ [PinWrite 22 False, USleep 500000, PinWrite 22 True, USleep 30000000]"

section \<open>logging.c\<close>

text \<open>Every request is printed and refused; printing is not modelled.\<close>

definition answer_to_connection_log :: "mhd_ret" where
  "answer_to_connection_log = MHD_NO"

section \<open>fileserver.c\<close>

definition PAGE :: string where
  "PAGE = ''<html><head><title>File not found</title></head><body>File not found</body></html>''"

text \<open>
  \<^verbatim>\<open>file_reader\<close>: the bytes of the file from a position on, at most \<open>k\<close>. The contents are those of the file
  at the time of the call.
\<close>

definition file_reader :: "string \<Rightarrow> nat \<Rightarrow> nat \<Rightarrow> string" where
  "file_reader file pos k = take k (drop pos file)"

record fs_env =
  fs_stat :: "nat option"       \<comment> \<open>\<^verbatim>\<open>stat\<close> succeeds, with this \<^verbatim>\<open>st_size\<close>\<close>
  fs_fopen :: bool              \<comment> \<open>\<^verbatim>\<open>fopen\<close> succeeds\<close>
  fs_response :: bool           \<comment> \<open>\<^verbatim>\<open>MHD_create_response_from_callback\<close> returns a response\<close>
  fs_queued :: mhd_ret

datatype fs_answer =
    NotFoundPage string
  | LogFile nat                 \<comment> \<open>its announced size\<close>

text \<open>
  \<^verbatim>\<open>ahc_echo\<close>: its result, whether \<^verbatim>\<open>*ptr\<close> points to \<^verbatim>\<open>aptr\<close> afterwards, the response that is queued, and
  how many files it leaves open for the response.
\<close>

definition ahc_echo :: "fs_env \<Rightarrow> bool \<Rightarrow> mhd_ret \<times> bool \<times> fs_answer option \<times> nat" where
  "ahc_echo env ptr_is_aptr =
     (if \<not> ptr_is_aptr then (MHD_YES, True, None, 0)
      else
        (case (if fs_fopen env then fs_stat env else None) of
           None \<Rightarrow> (fs_queued env, False, Some (NotFoundPage PAGE), 0)
         | Some st_size \<Rightarrow>
             if \<not> fs_response env then (MHD_NO, False, None, 0)
             else (fs_queued env, False, Some (LogFile st_size), 1)))"

text \<open>
  How libmicrohttpd sends a response of a given size from a reader (\<^verbatim>\<open>try_ready_normal_body\<close>): it asks for
  the next bytes at the position reached. A reader that gives nothing is asked again later, so with the
  same file for ever: that is the result \<open>None\<close>.
\<close>

function deliver_body :: "(nat \<Rightarrow> nat \<Rightarrow> string) \<Rightarrow> nat \<Rightarrow> nat \<Rightarrow> nat \<Rightarrow> string option" where
  "deliver_body reader buffer_size total_size pos =
     (if pos < total_size
      then (let data = reader pos (min buffer_size (total_size - pos))
            in if data = [] then None
               else map_option (\<lambda>rest. data @ rest) (deliver_body reader buffer_size total_size (pos + length data)))
      else Some [])"
  by pat_completeness auto
termination
  by (relation "measure (\<lambda>(_, _, total_size, pos). total_size - pos)") (auto simp: neq_Nil_conv)

declare deliver_body.simps [simp del]

lemma deliver_body_file:
  "0 < b \<Longrightarrow> pos \<le> length file \<Longrightarrow> pos \<le> n \<Longrightarrow>
   deliver_body (file_reader file) b n pos = (if n \<le> length file then Some (drop pos (take n file)) else None)"
proof (induction "file_reader file" b n pos rule: deliver_body.induct)
  case (1 b n pos)
  show ?case
  proof (cases "pos < n")
    case False
    with "1.prems" have "pos = n" by simp
    with "1.prems"(2) show ?thesis by (subst deliver_body.simps) simp
  next
    case True
    let ?data = "file_reader file pos (min b (n - pos))"
    show ?thesis
    proof (cases "pos < length file")
      case False
      with True "1.prems" show ?thesis by (subst deliver_body.simps) (simp add: file_reader_def)
    next
      case inside: True
      have ne: "?data \<noteq> []" using "1.prems"(1) True inside by (simp add: file_reader_def)
      have len: "pos + length ?data \<le> length file" "pos + length ?data \<le> n"
        using inside True by (auto simp: file_reader_def min_def)
      have "deliver_body (file_reader file) b n (pos + length ?data) =
          (if n \<le> length file then Some (drop (pos + length ?data) (take n file)) else None)"
        using True ne "1.prems"(1) len by (intro "1.hyps") simp_all
      moreover have "?data @ drop (pos + length ?data) (take n file) = drop pos (take n file)" if "n \<le> length file"
      proof -
        have "?data = take (length ?data) (drop pos (take n file))"
          using that by (simp add: file_reader_def drop_take min_def)
        then show ?thesis by (metis append_take_drop_id drop_drop add.commute)
      qed
      ultimately show ?thesis using True ne by (subst deliver_body.simps) (simp add: Let_def)
    qed
  qed
qed

section \<open>httpservertest.c\<close>

record ht_server =
  ht_idx :: int
  ht_strrr :: "string option"
  ht_out :: "event list"

definition ht_initial :: ht_server where
  "ht_initial = \<lparr>ht_idx = 0, ht_strrr = None, ht_out = []\<rparr>"

definition iterate_post_test :: "item \<Rightarrow> ht_server \<Rightarrow> (c_error \<times> ht_server) + mhd_ret \<times> ht_server" where
  "iterate_post_test x s = (case x of (key, data, sz) \<Rightarrow> Inr (if sz = 0 then MHD_NO else MHD_YES, s))"

definition send_page_test :: "web_env \<Rightarrow> string \<Rightarrow> ht_server \<Rightarrow> mhd_ret \<times> ht_server" where
  "send_page_test env page s =
     (if \<not> we_create env then (MHD_NO, s) else (we_queue env, s\<lparr>ht_out := ht_out s @ [Reply page]\<rparr>))"

text \<open>\<^verbatim>\<open>answerstring\<close> stays null, as in \<^verbatim>\<open>httpserver.c\<close>; the headers and the body are only printed.\<close>

definition answer_to_connection_test ::
    "web_env \<Rightarrow> string \<Rightarrow> nat \<Rightarrow> item list \<Rightarrow> unit post_con option \<Rightarrow> ht_server
     \<Rightarrow> (c_error \<times> ht_server) + mhd_ret \<times> unit post_con option \<times> ht_server" where
  "answer_to_connection_test env method upload_data_size items con_cls s =
     (case con_cls of
        None \<Rightarrow>
          (case open_connection env method of
             None \<Rightarrow> Inr (MHD_NO, None, s)
           | Some con \<Rightarrow> Inr (MHD_YES, Some con, s))
      | Some con \<Rightarrow>
          if method = ''GET''
          then (case send_page_test env (case ht_strrr s of Some p \<Rightarrow> p | None \<Rightarrow> errorpage) s of (r, t) \<Rightarrow> Inr (r, Some con, t))
          else if method = ''POST'' \<and> upload_data_size \<noteq> 0
          then (if pc_processor con
                then (case post_process iterate_post_test items s of
                        Inl f \<Rightarrow> Inl f
                      | Inr t \<Rightarrow> Inr (MHD_YES, Some con, t))
                else Inl (WildPointer, s))
          else (case send_page_test env errorpage (s\<lparr>ht_idx := ht_idx s + 1\<rparr>) of (r, t) \<Rightarrow> Inr (r, Some con, t)))"

definition request_completed_test :: "unit post_con option \<Rightarrow> c_error + unit post_con option" where
  "request_completed_test con_cls = close_connection con_cls"

definition main_start_test :: "bool \<Rightarrow> ht_server option" where
  "main_start_test daemon_ok = (if daemon_ok then Some ht_initial else None)"

definition main_tick_test :: "ht_server \<Rightarrow> ht_server" where
  "main_tick_test s = s\<lparr>ht_out := ht_out s @ [USleep 500000]\<rparr>"

section \<open>Properties\<close>

text \<open>
  C40. The second call for a request of the log answers it with the file and its size at that time. While the
  file has at least that many bytes, sending the answer ends and delivers exactly its first bytes up to
  that size, in steps of at most 32 kB. When the log was cut in between, the reader gives nothing at its
  end instead of the end-of-stream code, and sending never ends.
\<close>

theorem log_delivered:
  assumes "fs_stat env = Some n" and "fs_fopen env" and "fs_response env"
  shows "ahc_echo env True = (fs_queued env, False, Some (LogFile n), 1) \<and>
    deliver_body (file_reader file) 32768 n 0 = (if n \<le> length file then Some (take n file) else None)"
  using assms deliver_body_file [of 32768 0 "file" n] by (simp add: ahc_echo_def)

theorem log_delivered_witness:
  "ahc_echo \<lparr>fs_stat = Some 3, fs_fopen = True, fs_response = True, fs_queued = MHD_YES\<rparr> True =
     (MHD_YES, False, Some (LogFile 3), 1) \<and>
   deliver_body (file_reader ''abcd'') 32768 3 0 = Some ''abc'' \<and> deliver_body (file_reader ''a'') 32768 3 0 = None"
  using log_delivered [of "\<lparr>fs_stat = Some 3, fs_fopen = True, fs_response = True, fs_queued = MHD_YES\<rparr>" 3 "''abcd''"]
    log_delivered [of "\<lparr>fs_stat = Some 3, fs_fopen = True, fs_response = True, fs_queued = MHD_YES\<rparr>" 3 "''a''"]
  by simp

end
