(* ===== verification/Spec2Isabelle.thy ===== *)
theory Spec2Isabelle
  imports Zb_Properties Json_Properties Zb_Race_Properties Zb2_Properties Brower_Properties Http_Properties Door_Properties Mhd_Properties Tools
begin

text \<open>
  The verification development of the idol gateway.

  \<^bold>\<open>The programs.\<close> The repository is a Zigbee smart-home gateway in C. A gateway program has a thread
  that reads bytes from the serial line of a Zigbee coordinator, a web server (libmicrohttpd) whose callbacks
  run on another thread, and a main loop that wakes once a second. All three work on the same global
  variables without locks: a table of devices, a rendered web page, countdowns. They act on the outside by
  serial messages, by posts to a cloud service and by sleeping.

  \<^item> \<^verbatim>\<open>src/zbclient.c\<close>, the gateway of a flat with chat commands. Theories \<open>Zb_Text\<close> (the literals,
    byte by byte), \<open>Zb_State\<close> (constants, the device entry \<open>mxj_device_t\<close>, the globals as the record
    \<open>gateway\<close>, the events), \<open>Zb_Usart\<close> (\<^verbatim>\<open>send_usart\<close> and the builders of messages), \<open>Zb_Devices\<close>
    (\<^verbatim>\<open>find_dev\<close>, \<^verbatim>\<open>del_dev\<close>, the appends, \<^verbatim>\<open>build_json\<close>), \<open>Zb_Receive\<close> (\<^verbatim>\<open>recieve_usart\<close>, one
    definition per case of its switch), \<open>Zb_Thread\<close> (one round of \<^verbatim>\<open>thread\<close>), \<open>Zb_Main\<close>
    (\<^verbatim>\<open>main\<close>: set-up, known devices, one round of its loop), \<open>Zb_Http\<close> (\<^verbatim>\<open>answer_to_connection\<close> with
    JSON and XML bodies, \<^verbatim>\<open>send_page\<close>, \<^verbatim>\<open>iterate_post\<close>, \<^verbatim>\<open>request_completed\<close>), \<open>Zb_System\<close> (the three
    threads interleaved, \<open>zb_step\<close>), \<open>Zb_Race\<close> (single accesses to the countdown and to the serial line
    interleaved, \<open>race_step\<close> and \<open>wire_step\<close>), \<open>Json_Refs\<close> (the calls of json-c that
    \<^verbatim>\<open>build_json\<close> makes for a device, and who owns its objects).
  \<^item> \<^verbatim>\<open>src/zbclient2.c\<close>, a variant of \<^verbatim>\<open>src/zbclient.c\<close> with other addresses and texts in GBK,
    without its check of the sender and with a few different reactions. What is the same line by line in both
    files is shared (constants, globals, sending, the search, the state machine of \<^verbatim>\<open>thread\<close>, the reply);
    the rest has its own definitions, with the suffix \<^verbatim>\<open>_zb2\<close>. Theories \<open>Zb2_Text\<close>, \<open>Zb2_Receive\<close>
    (\<^verbatim>\<open>build_json\<close>, \<^verbatim>\<open>recieve_usart\<close>, \<^verbatim>\<open>thread\<close>), \<open>Zb2_Home\<close> (\<^verbatim>\<open>main\<close>), \<open>Zb2_Http\<close>
    (\<^verbatim>\<open>answer_to_connection\<close>), \<open>Zb2_System\<close> (\<open>zb2_step\<close>).
  \<^item> \<^verbatim>\<open>src/zbserver-brower.c\<close>, a gateway whose devices register themselves and whose page configures
    which switch controls which light. Theories \<open>Frame_Machine\<close> (the state machine of \<^verbatim>\<open>thread\<close>),
    \<open>Brower\<close> (the rest of the program), \<open>Brower_Table\<close>, \<open>Brower_System\<close> (\<open>br_step\<close>), \<open>Brower_Spec\<close>.
  \<^item> \<^verbatim>\<open>src/httpserver.c\<close>, the server in the cloud to which sensors post forms. Theories \<open>Http_Server\<close>,
    \<open>Http_Proofs\<close> (\<open>hs_step\<close>).
  \<^item> \<^verbatim>\<open>src/zbserver.c\<close> with its copies, a door opener, and \<^verbatim>\<open>src/zigbee/zbclient.c\<close>, which presses its
    buttons. Theory \<open>Door_Server\<close>.
  \<^item> \<^verbatim>\<open>src/fileserver.c\<close>, \<^verbatim>\<open>src/httpservertest.c\<close>, \<^verbatim>\<open>src/reset.c\<close>, \<^verbatim>\<open>src/join.c\<close>, \<^verbatim>\<open>src/logging.c\<close>.
    Theory \<open>Tools\<close>.
  \<^item> The parser of posted forms in the vendored libmicrohttpd (\<^verbatim>\<open>postprocessor.c\<close>, \<^verbatim>\<open>internal.c\<close>), which
    calls \<^verbatim>\<open>iterate_post\<close> of four of the programs. Theories \<open>Mhd_Post\<close> (the code, as the loop
    \<open>urlencoded\<close> over a \<open>post_processor\<close>; what any iterator sees are the calls a recording iterator gets),
    \<open>Mhd_Form\<close> (a reference that reads one character at a time), \<open>Mhd_Refine\<close> (the simulation, for
    bodies in any chunks), \<open>Mhd_Encode\<close> (forms as browsers write them). Before it comes the loop of
    \<^verbatim>\<open>connection.c\<close> that takes a body of known length or in chunked coding out of the read buffer:
    \<open>Mhd_Body\<close> (the code), \<open>Mhd_Wire\<close> (it delivers the body). On top of them \<open>Door_Properties\<close>
    and \<open>Mhd_Properties\<close> take the programs from the bytes of a body on.

  \<^bold>\<open>How the code is read.\<close> A C struct is a record with the fields of the source, \<^verbatim>\<open>unsigned char\<close> an 8 word,
  \<^verbatim>\<open>unsigned short\<close> a 16 word, \<^verbatim>\<open>int\<close> an \<open>int\<close> (where the code can reach the bounds of \<^verbatim>\<open>int\<close> the wrap is
  written out), a C string a list of characters, an array a list of the length of its declaration. A
  statement is a command, a function from a state to the next state or to a fault with the state it
  happened in. Faults (\<open>c_error\<close>) are what C leaves undefined: an index outside an array, a text too long
  for its buffer, a string read past its end, a null pointer, a variable that was never set. So a theorem that
  a command ends in \<open>Inr\<close> says the code stays within its own arrays, texts and pointers (the objects of
  json-c are apart, see below), and the tests of the C code, and only those, are the
  tests of the model. What goes out (serial frames, posts, sleeps) is appended to a list of events.

  \<^bold>\<open>Interfaces.\<close> \<open>device_table\<close> (a search and an append: no address twice, what was appended is
  found) is interpreted on the tables of three programs; \<open>frame_receiver\<close> (a receiver that takes one frame
  from its idle state; then it takes streams with noise) on four receivers; \<open>step_system\<close> (an invariant
  kept by every step holds in every reachable state) on the four systems and on \<open>race_step\<close>; \<open>handler_inv\<close> (a predicate kept
  by the writes of the message handler is kept by the handler, of either gateway of the flat) on the
  predicates \<open>home_inv\<close>, \<open>home_zb2\<close>, \<open>data_inv\<close> and the receiver's own variables; \<open>web_inv\<close>, which
  extends it by the writes of the web callbacks, on the first two; \<open>machine_client\<close> (a program that holds a
  receiver in its state) on \<^verbatim>\<open>zbserver-brower.c\<close>; \<open>json_builder\<close> (a loop whose rounds build and release json-c objects) on
  \<^verbatim>\<open>build_json\<close> of the three gateways; \<open>takes_all\<close> (an application that takes all of a body it is handed) on the recorder
  of pieces and on the handler of forms. Both gateways of the flat share \<open>home_table\<close>, the
  invariant of a table that holds a given list of devices with their names.

  \<^bold>\<open>What the theorems show.\<close> Invariants of all reachable states of the running programs under every
  interleaving (C1, C22, C26, C33). The receivers take streams of frames with noise between them (C2, C27, C38),
  and leave their buffer on a bad length byte (C19). Every message a running
  gateway handles is within bounds but for the announcement of a new sensor (C3, C4). What the messages
  do: alarms, motion, remote controls (C5, C25, C31) and, as lemmas, states and registration, for
  \<^verbatim>\<open>zbserver-brower.c\<close> as a refinement of a specification over a map from addresses to devices
  (C28). What the loop does: the light goes off after its countdown, silent sensors are reported (C7, C9).
  Web requests: commands of pages, chats, posts and forms, who may give them, and where their parsing goes
  wrong (C13 to C15, C20, C32, C34 to C37). Forms: a body is delivered
  in pieces however it arrives and is coded (C12), the parser implements its reference on bodies in any
  chunks (C6), what a browser encodes is delivered, from the connection on (C8), and what follows for the door opener from the body
  to the end of the request (C21, C39) and for the reports to \<^verbatim>\<open>httpserver.c\<close> (C35, C36); where a body is
  cut matters to \<^verbatim>\<open>httpserver.c\<close> (C30), and a percent sign at the end of a value gets into the next
  (C17). How \<^verbatim>\<open>zbclient2.c\<close> differs: its handler agrees with that of
  \<^verbatim>\<open>zbclient.c\<close> on all messages but four kinds (C23), and its chat commands can never run, since its words
  are GBK and the parser hands out UTF-8 (C24). What the missing locks mean: the countdown leaves its bounds by one (C11), a report
  of motion can be lost (C16); as lemmas, an atomic round is one of the runs of single accesses, and frames sent by
  two threads at once can both be lost. The page text equals its reference (C29), but
  making it puts a json-c object that was given away before, in all three gateways (C18). The
  door client and server work together (C39). A served log is cut to its announced size (C40).

  \<^bold>\<open>Parameters.\<close> Code outside the repository, or vendored in it, is an argument of the definitions:
  \<open>dump\<close> renders a JSON value (json-c); \<open>json_lib\<close>, \<open>json_array_lib\<close> and \<open>xml_lib\<close> are parsers with their
  accessors; the calls libmicrohttpd makes for the parts of a form are a list, which its parser is proved to
  make; \<open>web_env\<close>, \<open>http_env\<close> and the
  \<open>setup\<close> records say which calls of the system succeed; \<open>after\<close> is the memory behind a local array that
  the code reads as an unterminated string; the time of an event is a \<open>tm\<close>. Where a property needs a law
  of a parameter it is a named hypothesis, and its witness gives a concrete instance.

  \<^bold>\<open>Bounds and fuel.\<close> All definitions are total; the loops of the code are recursions on their bounds
  (\<open>fill_txbuf\<close>, \<open>crc_loop\<close>, \<open>urlencoded\<close> and
  \<open>process_request_body\<close> with a measure) or on the list they walk through. The endless loops of
  \<^verbatim>\<open>main\<close> and \<^verbatim>\<open>thread\<close> are given as one round; \<open>feed\<close> and the step relations repeat the rounds
  without a limit. So no fuel is used.

  \<^bold>\<open>Not modelled.\<close> Printing and the log file of \<^verbatim>\<open>printf\<close> calls. Races inside a round, but for those on
  the countdown and on the serial line: a serial byte, a call of a callback and a round of the loop are taken
  as atomic, although the code has no locks. What the serial thread and the web server do before \<^verbatim>\<open>main\<close>, which
  starts them first, has entered its table. Memory of json-c: the definitions of \<^verbatim>\<open>build_json\<close> give its text,
  as if the objects were never released, and \<open>Json_Refs\<close> and \<open>Json_Properties\<close> give its calls of json-c
  with who owns what by the contract in \<^verbatim>\<open>json_object.h\<close>; what json-c does after the
  release those theories show to be one too many is not known here, so no theorem on the running gateways speaks of its memory. The time a sleep
  takes, except as an event. The vendored libxml2, and of libmicrohttpd all but what the programs depend on:
  the lookup of a header that the repository changed, the loop that sends a body, the loop that receives
  one, and the parser of url-encoded forms. Its parser of multipart forms is left out: the pages and clients
  of the repository post url-encoded forms only.
\<close>

end
